theory Spec2Isabelle
  imports Complex_Main "HOL-Library.Word"
begin

section \<open>JavaScript values\<close>

text \<open>
  The labs are browser scripts. A JavaScript string is a sequence of UTF-16 code units;
  the Cyrillic literals of the source are written out below as their code units.
\<close>

type_synonym code_unit = "16 word"
type_synonym jstring = "code_unit list"

definition ascii :: "string \<Rightarrow> jstring" where
  "ascii s = map (\<lambda>c. of_nat (of_char c)) s"

text \<open>The code units that \<open>String.prototype.trim\<close> strips (WhiteSpace and LineTerminator).\<close>

definition isWhiteSpace :: "code_unit \<Rightarrow> bool" where
  "isWhiteSpace c = (c \<in> set [9, 10, 11, 12, 13, 32, 160, 5760, 8192, 8193, 8194, 8195, 8196,
      8197, 8198, 8199, 8200, 8201, 8202, 8232, 8233, 8239, 8287, 12288, 65279])"

definition trim :: "jstring \<Rightarrow> jstring" where
  "trim s = rev (dropWhile isWhiteSpace (rev (dropWhile isWhiteSpace s)))"

text \<open>\<open>s.slice(0, e)\<close>: a negative end counts from the end of the string.\<close>

definition slice0 :: "'a list \<Rightarrow> int \<Rightarrow> 'a list" where
  "slice0 s e = (if e < 0 then take (length s - nat (- e)) s else take (nat e) s)"

text \<open>\<open>Array.prototype.join\<close> on strings.\<close>

fun joinWith :: "jstring \<Rightarrow> jstring list \<Rightarrow> jstring" where
  "joinWith sep [] = []"
| "joinWith sep [x] = x"
| "joinWith sep (x # y # ys) = x @ sep @ joinWith sep (y # ys)"

text \<open>Decimal digits of an integer, as \<open>String(n)\<close> prints an integer-valued number.\<close>

fun natDigits :: "nat \<Rightarrow> jstring" where
  "natDigits n = (if n < 10 then [of_nat (48 + n)]
     else natDigits (n div 10) @ [of_nat (48 + n mod 10)])"

declare natDigits.simps [simp del]

definition intToString :: "int \<Rightarrow> jstring" where
  "intToString i = (if i < 0 then 45 # natDigits (nat (- i)) else natDigits (nat i))"

text \<open>
  A JavaScript number. A finite double is carried by its exact rational value (there is
  one zero: every place below that reads a number maps \<open>-0\<close> and \<open>0\<close> alike).
\<close>

datatype jsnum = NaN | PosInf | NegInf | Fin rat

text \<open>
  \<open>b - a\<close> on numbers. For finite doubles the rounded difference has the sign of the
  exact difference (gradual underflow keeps a non-zero difference non-zero, overflow
  keeps its sign), and only the sign is read below, by \<open>Array.prototype.sort\<close>.
\<close>

fun numSub :: "jsnum \<Rightarrow> jsnum \<Rightarrow> jsnum" where
  "numSub NaN _ = NaN"
| "numSub _ NaN = NaN"
| "numSub PosInf PosInf = NaN"
| "numSub PosInf _ = PosInf"
| "numSub NegInf NegInf = NaN"
| "numSub NegInf _ = NegInf"
| "numSub (Fin a) PosInf = NegInf"
| "numSub (Fin a) NegInf = PosInf"
| "numSub (Fin a) (Fin b) = Fin (a - b)"

text \<open>\<open>a <= b\<close> and \<open>a < b\<close> on numbers: false as soon as one side is NaN.\<close>

fun numLe :: "jsnum \<Rightarrow> jsnum \<Rightarrow> bool" where
  "numLe NaN _ = False"
| "numLe _ NaN = False"
| "numLe NegInf _ = True"
| "numLe _ PosInf = True"
| "numLe PosInf _ = False"
| "numLe _ NegInf = False"
| "numLe (Fin a) (Fin b) = (a \<le> b)"

fun numLess :: "jsnum \<Rightarrow> jsnum \<Rightarrow> bool" where
  "numLess NaN _ = False"
| "numLess _ NaN = False"
| "numLess PosInf _ = False"
| "numLess _ NegInf = False"
| "numLess NegInf _ = True"
| "numLess _ PosInf = True"
| "numLess (Fin a) (Fin b) = (a < b)"

text \<open>
  A value decoded from JSON. An object lists its members in the order of the JSON
  text, each name once; \<open>undefined\<close> is the \<open>None\<close> of \<open>jsval\<close>.
\<close>

datatype json =
    JNull
  | JBool bool
  | JNum jsnum
  | JStr jstring
  | JArr "json list"
  | JObj "(jstring \<times> json) list"

type_synonym jsval = "json option"

datatype js_error = AbortError | TypeError | SyntaxError | Error jstring

fun errorName :: "js_error \<Rightarrow> jstring" where
  "errorName AbortError = ascii ''AbortError''"
| "errorName TypeError = ascii ''TypeError''"
| "errorName SyntaxError = ascii ''SyntaxError''"
| "errorName (Error m) = ascii ''Error''"

text \<open>
  What the scripts take from the platform and this development does not compute:
  number formatting and parsing, collation, date formatting and URL encoding.
\<close>

record host =
  fractionToString :: "rat \<Rightarrow> jstring"
    \<comment> \<open>Number::toString of a finite number that is not an integer of magnitude at most 2^53\<close>
  stringToNumber :: "jstring \<Rightarrow> jsnum"
    \<comment> \<open>StringToNumber, as \<open>Number(s)\<close> applies it to a string\<close>
  toFixed :: "nat \<Rightarrow> rat \<Rightarrow> jstring"
    \<comment> \<open>\<open>x.toFixed(d)\<close> of a finite number\<close>
  localeCompareRu :: "jstring \<Rightarrow> jstring \<Rightarrow> int"
    \<comment> \<open>\<open>a.localeCompare(b, 'ru')\<close>\<close>
  dateToLocaleString :: "json \<Rightarrow> jstring option"
    \<comment> \<open>\<open>new Date(v)\<close> formatted by \<open>toLocaleDateString("ru-RU", ...)\<close>; None for an invalid date\<close>
  urlEncode :: "jstring \<Rightarrow> jstring"
    \<comment> \<open>the percent-encoding of the application/x-www-form-urlencoded serializer\<close>

fun truthy :: "jsval \<Rightarrow> bool" where
  "truthy None = False"
| "truthy (Some JNull) = False"
| "truthy (Some (JBool b)) = b"
| "truthy (Some (JNum n)) = (n \<noteq> NaN \<and> n \<noteq> Fin 0)"
| "truthy (Some (JStr s)) = (s \<noteq> [])"
| "truthy (Some (JArr xs)) = True"
| "truthy (Some (JObj kvs)) = True"

text \<open>\<open>a || b\<close> and \<open>a ?? b\<close>.\<close>

definition orElse :: "jsval \<Rightarrow> jsval \<Rightarrow> jsval" where
  "orElse a b = (if truthy a then a else b)"

fun nullish :: "jsval \<Rightarrow> jsval \<Rightarrow> jsval" where
  "nullish None b = b"
| "nullish (Some JNull) b = b"
| "nullish a b = a"

text \<open>
  \<open>v.k\<close>: a TypeError on \<open>undefined\<close> and \<open>null\<close>; an own property of an object;
  \<open>length\<close> of a string or an array. None of the property names the scripts read is
  inherited from a prototype.
\<close>

fun getProp :: "jsval \<Rightarrow> jstring \<Rightarrow> js_error + jsval" where
  "getProp None k = Inl TypeError"
| "getProp (Some JNull) k = Inl TypeError"
| "getProp (Some (JObj kvs)) k = Inr (map_of kvs k)"
| "getProp (Some (JStr s)) k =
     Inr (if k = ascii ''length'' then Some (JNum (Fin (of_nat (length s)))) else None)"
| "getProp (Some (JArr xs)) k =
     Inr (if k = ascii ''length'' then Some (JNum (Fin (of_nat (length xs)))) else None)"
| "getProp (Some (JBool b)) k = Inr None"
| "getProp (Some (JNum n)) k = Inr None"

text \<open>
  Number::toString. Every integer up to 2^53 in magnitude is a double and prints as its
  digits; any other finite number prints as the platform's shortest digits that read
  back as the same double.
\<close>

definition numberToString :: "host \<Rightarrow> jsnum \<Rightarrow> jstring" where
  "numberToString h n = (case n of
       NaN \<Rightarrow> ascii ''NaN''
     | PosInf \<Rightarrow> ascii ''Infinity''
     | NegInf \<Rightarrow> ascii ''-Infinity''
     | Fin r \<Rightarrow>
         (if of_int \<lfloor>r\<rfloor> = r \<and> \<bar>r\<bar> \<le> 2 ^ 53 then intToString \<lfloor>r\<rfloor>
          else fractionToString h r))"

text \<open>
  ToString, as a template literal's \<open>${v}\<close> and \<open>String(v)\<close> apply it: the string
  it returns. For which values it returns is \<open>convertible\<close> below.
\<close>

fun jsonToString :: "host \<Rightarrow> json \<Rightarrow> jstring" where
  "jsonToString h JNull = ascii ''null''"
| "jsonToString h (JBool b) = (if b then ascii ''true'' else ascii ''false'')"
| "jsonToString h (JNum n) = numberToString h n"
| "jsonToString h (JStr s) = s"
| "jsonToString h (JArr xs) =
     joinWith (ascii '','') (map (\<lambda>x. if x = JNull then [] else jsonToString h x) xs)"
| "jsonToString h (JObj kvs) = ascii ''[object Object]''"

definition toString :: "host \<Rightarrow> jsval \<Rightarrow> jstring" where
  "toString h v = (case v of None \<Rightarrow> ascii ''undefined'' | Some j \<Rightarrow> jsonToString h j)"

text \<open>Sequencing of computations that may throw: \<open>Inl\<close> is the exception.\<close>

definition bindE :: "js_error + 'a \<Rightarrow> ('a \<Rightarrow> js_error + 'b) \<Rightarrow> js_error + 'b" where
  "bindE m f = (case m of Inl e \<Rightarrow> Inl e | Inr x \<Rightarrow> f x)"

text \<open>
  The conversions of an object or an array go through its \<open>toString\<close>. A value
  decoded from JSON inherits a callable one, unless the object has an own member of
  that name, which never is callable: then ToString and ToNumber throw a TypeError. An
  array converts each element other than \<open>null\<close>, and throws when one of them does.
  \<open>jsonToString\<close> and \<open>toNumber\<close> are the results where the conversion returns;
  \<open>toStringE\<close> and \<open>toNumberE\<close> are the conversions as the scripts run them.
\<close>

fun convertible :: "json \<Rightarrow> bool" where
  "convertible (JObj kvs) = (map_of kvs (ascii ''toString'') = None)"
| "convertible (JArr xs) = (\<forall>x \<in> set xs. convertible x)"
| "convertible other = True"

definition toStringE :: "host \<Rightarrow> jsval \<Rightarrow> js_error + jstring" where
  "toStringE h v =
     (case v of
        None \<Rightarrow> Inr (toString h v)
      | Some j \<Rightarrow> if convertible j then Inr (toString h v) else Inl TypeError)"

text \<open>ToNumber, as \<open>Number(v)\<close> and the relational operators apply it.\<close>

definition toNumber :: "host \<Rightarrow> jsval \<Rightarrow> jsnum" where
  "toNumber h v = (case v of
       None \<Rightarrow> NaN
     | Some JNull \<Rightarrow> Fin 0
     | Some (JBool b) \<Rightarrow> (if b then Fin 1 else Fin 0)
     | Some (JNum n) \<Rightarrow> n
     | Some (JStr s) \<Rightarrow> stringToNumber h s
     | Some (JArr xs) \<Rightarrow> stringToNumber h (jsonToString h (JArr xs))
     | Some (JObj kvs) \<Rightarrow> NaN)"

definition toNumberE :: "host \<Rightarrow> jsval \<Rightarrow> js_error + jsnum" where
  "toNumberE h v =
     (case v of
        None \<Rightarrow> Inr (toNumber h v)
      | Some j \<Rightarrow> if convertible j then Inr (toNumber h v) else Inl TypeError)"

text \<open>\<open>Number(v) || 0\<close>: NaN and zero both give zero.\<close>

definition numberOrZero :: "host \<Rightarrow> jsval \<Rightarrow> js_error + jsnum" where
  "numberOrZero h v =
     bindE (toNumberE h v) (\<lambda>n. Inr (if n = NaN \<or> n = Fin 0 then Fin 0 else n))"

text \<open>
  \<open>Array.prototype.sort(compare)\<close>: stable (ECMAScript 2019); a NaN from the comparator
  counts as 0. Which pairs an engine compares is its own choice. V8 always passes the
  later element of the array first, and so does the insertion below: each element after
  the first is the pivot \<open>p\<close> of \<open>compare(p, e)\<close> against elements \<open>e\<close> already
  placed, and goes before the first \<open>e\<close> with \<open>compare(p, e) < 0\<close>. With a consistent
  comparator every stable sort gives the same list.
\<close>

fun insertPivot :: "('a \<Rightarrow> 'a \<Rightarrow> jsnum) \<Rightarrow> 'a \<Rightarrow> 'a list \<Rightarrow> 'a list" where
  "insertPivot cmp p [] = [p]"
| "insertPivot cmp p (e # es) =
     (if numLess (cmp p e) (Fin 0) then p # e # es else e # insertPivot cmp p es)"

fun sortFrom :: "('a \<Rightarrow> 'a \<Rightarrow> jsnum) \<Rightarrow> 'a list \<Rightarrow> 'a list \<Rightarrow> 'a list" where
  "sortFrom cmp placed [] = placed"
| "sortFrom cmp placed (p # ps) = sortFrom cmp (insertPivot cmp p placed) ps"

definition jsSort :: "('a \<Rightarrow> 'a \<Rightarrow> jsnum) \<Rightarrow> 'a list \<Rightarrow> 'a list" where
  "jsSort cmp xs = sortFrom cmp [] xs"

text \<open>The same sort with a comparator that may throw.\<close>

fun insertPivotE ::
  "('a \<Rightarrow> 'a \<Rightarrow> js_error + jsnum) \<Rightarrow> 'a \<Rightarrow> 'a list \<Rightarrow> js_error + 'a list" where
  "insertPivotE cmp p [] = Inr [p]"
| "insertPivotE cmp p (e # es) =
     bindE (cmp p e) (\<lambda>v.
       if numLess v (Fin 0) then Inr (p # e # es)
       else bindE (insertPivotE cmp p es) (\<lambda>zs. Inr (e # zs)))"

fun sortFromE ::
  "('a \<Rightarrow> 'a \<Rightarrow> js_error + jsnum) \<Rightarrow> 'a list \<Rightarrow> 'a list \<Rightarrow> js_error + 'a list" where
  "sortFromE cmp placed [] = Inr placed"
| "sortFromE cmp placed (p # ps) = bindE (insertPivotE cmp p placed) (\<lambda>next. sortFromE cmp next ps)"

definition jsSortE :: "('a \<Rightarrow> 'a \<Rightarrow> js_error + jsnum) \<Rightarrow> 'a list \<Rightarrow> js_error + 'a list" where
  "jsSortE cmp xs = sortFromE cmp [] xs"

text \<open>\<open>xs.map(f)\<close> with a callback that may throw.\<close>

fun mapE :: "('a \<Rightarrow> js_error + 'b) \<Rightarrow> 'a list \<Rightarrow> js_error + 'b list" where
  "mapE f [] = Inr []"
| "mapE f (x # xs) = bindE (f x) (\<lambda>y. bindE (mapE f xs) (\<lambda>ys. Inr (y # ys)))"

text \<open>\<open>Array.isArray(v) ? v : []\<close> and \<open>xs[0]\<close>.\<close>

fun arrayOrEmpty :: "jsval \<Rightarrow> json list" where
  "arrayOrEmpty (Some (JArr xs)) = xs"
| "arrayOrEmpty _ = []"

fun firstElement :: "json list \<Rightarrow> jsval" where
  "firstElement [] = None"
| "firstElement (x # xs) = Some x"

section \<open>The NASA image search lab (src/unnamed/part\_000)\<close>

definition API_ENDPOINT :: jstring where
  "API_ENDPOINT = ascii ''https://images-api.nasa.gov/search''"

definition MAX_RESULTS :: nat where
  "MAX_RESULTS = 40"

text \<open>The placeholder of line 33 (Russian for "no description"), 20 code units.\<close>

definition noDescription :: jstring where
  "noDescription = [1054, 1087, 1080, 1089, 1072, 1085, 1080, 1077, 32, 1086, 1090, 1089,
     1091, 1090, 1089, 1090, 1074, 1091, 1077, 1090]"

text \<open>The placeholder of line 81 (Russian for "untitled").\<close>

definition untitled :: jstring where
  "untitled = [1041, 1077, 1079, 32, 1085, 1072, 1079, 1074, 1072, 1085, 1080, 1103]"

text \<open>The status texts of lines 172, 180, 193, 211, 215 and 160.\<close>

definition msgEnterQuery :: jstring where
  "msgEnterQuery = [1042, 1074, 1077, 1076, 1080, 1090, 1077, 32, 1087, 1086, 1080, 1089,
     1082, 1086, 1074, 1099, 1081, 32, 1079, 1072, 1087, 1088, 1086, 1089, 46]"

definition msgEnterYear :: jstring where
  "msgEnterYear = [1042, 1074, 1077, 1076, 1080, 1090, 1077, 32, 1082, 1086, 1088, 1088,
     1077, 1082, 1090, 1085, 1099, 1081, 32, 1075, 1086, 1076, 32, 1074, 32, 1076, 1080,
     1072, 1087, 1072, 1079, 1086, 1085, 1077, 32, 49, 57, 50, 48, 8211, 50, 49, 48, 48, 46]"

definition msgLoading :: jstring where
  "msgLoading = [1047, 1072, 1075, 1088, 1091, 1079, 1082, 1072, 46, 46, 46]"

definition msgNothingFound :: jstring where
  "msgNothingFound = [1053, 1080, 1095, 1077, 1075, 1086, 32, 1085, 1077, 32, 1085, 1072,
     1081, 1076, 1077, 1085, 1086, 46, 32, 1055, 1086, 1087, 1088, 1086, 1073, 1091, 1081,
     1090, 1077, 32, 1080, 1079, 1084, 1077, 1085, 1080, 1090, 1100, 32, 1079, 1072, 1087,
     1088, 1086, 1089, 46]"

definition msgFoundPrefix :: jstring where
  "msgFoundPrefix = [1053, 1072, 1081, 1076, 1077, 1085, 1086, 32, 1088, 1077, 1079, 1091,
     1083, 1100, 1090, 1072, 1090, 1086, 1074, 58, 32]"

definition msgRequestFailed :: jstring where
  "msgRequestFailed = [1053, 1077, 32, 1091, 1076, 1072, 1083, 1086, 1089, 1100, 32, 1087,
     1086, 1083, 1091, 1095, 1080, 1090, 1100, 32, 1076, 1072, 1085, 1085, 1099, 1077, 46,
     32, 1055, 1086, 1087, 1088, 1086, 1073, 1091, 1081, 1090, 1077, 32, 1087, 1086, 1079,
     1078, 1077, 46]"

text \<open>\<open>formatDate\<close>; \<open>new Date(rawValue)\<close> converts an object or an array as above.\<close>

definition formatDate :: "host \<Rightarrow> jsval \<Rightarrow> js_error + jstring" where
  "formatDate h rawValue =
     (case rawValue of
        None \<Rightarrow> Inr []
      | Some j \<Rightarrow>
          if \<not> truthy rawValue then Inr []
          else if \<not> convertible j then Inl TypeError
          else Inr (case dateToLocaleString h j of None \<Rightarrow> [] | Some s \<Rightarrow> s))"

text \<open>
  \<open>truncate(text, limit = 200)\<close>, named \<open>truncateText\<close> here (every record
  brings a \<open>truncate\<close> of its own). Past the two guards the source calls
  \<open>text.slice(0, limit - 1).trim()\<close>: a string has both methods; an array has
  \<open>slice\<close> but its result has no \<open>trim\<close>; any other value has no \<open>slice\<close>.
  Both failures are a TypeError, and so is a \<open>length\<close> that \<open><=\<close> cannot convert.
\<close>

definition truncateText :: "host \<Rightarrow> jsval \<Rightarrow> int \<Rightarrow> js_error + jsval" where
  "truncateText h text limit =
     (if \<not> truthy text then Inr (Some (JStr noDescription))
      else bindE (getProp text (ascii ''length'')) (\<lambda>len.
           bindE (toNumberE h len) (\<lambda>n.
        if numLe n (Fin (of_int limit)) then Inr text
        else (case text of
                Some (JStr s) \<Rightarrow> Inr (Some (JStr (trim (slice0 s (limit - 1)) @ ascii ''...'')))
              | _ \<Rightarrow> Inl TypeError))))"

text \<open>\<open>URLSearchParams\<close>: an ordered list of pairs; \<open>set\<close> overwrites the first pair
  of that name and drops the others, or appends.\<close>

type_synonym params = "(jstring \<times> jstring) list"

fun paramSet :: "params \<Rightarrow> jstring \<Rightarrow> jstring \<Rightarrow> params" where
  "paramSet [] k v = [(k, v)]"
| "paramSet ((k', v') # ps) k v =
     (if k' = k then (k, v) # filter (\<lambda>p. fst p \<noteq> k) ps else (k', v') # paramSet ps k v)"

definition paramsToString :: "host \<Rightarrow> params \<Rightarrow> jstring" where
  "paramsToString h ps =
     joinWith (ascii ''&'') (map (\<lambda>(k, v). urlEncode h k @ ascii ''='' @ urlEncode h v) ps)"

text \<open>The parameters \<open>buildQuery\<close> collects (lines 44 to 52), then the URL (line 54).\<close>

definition queryParams :: "jstring \<Rightarrow> jstring \<Rightarrow> jstring \<Rightarrow> params" where
  "queryParams query mediaType year =
     (let p1 = paramSet [] (ascii ''q'') query;
          p2 = paramSet p1 (ascii ''page'') (ascii ''1'');
          p3 = paramSet p2 (ascii ''media_type'')
                 (if mediaType = ascii ''all'' then ascii ''image,video'' else mediaType)
      in if year \<noteq> []
         then paramSet (paramSet p3 (ascii ''year_start'') year) (ascii ''year_end'') year
         else p3)"

definition buildQuery :: "host \<Rightarrow> jstring \<Rightarrow> jstring \<Rightarrow> jstring \<Rightarrow> jstring" where
  "buildQuery h query mediaType year =
     API_ENDPOINT @ ascii ''?'' @ paramsToString h (queryParams query mediaType year)"

text \<open>
  What \<open>createCard\<close> computes from an item (lines 81 to 90) before it builds the DOM
  nodes that show it. The template literals of lines 90 and 99 and the DOM properties
  \<open>href\<close>, \<open>src\<close>, \<open>alt\<close> and \<open>textContent\<close> of lines 96 to 140 convert what
  they are given to a string, which throws for a value that has no conversion.
\<close>

record media_card =
  cardTitle :: jsval
  cardDescription :: jsval
  cardMediaType :: jsval
  cardDate :: jstring
  cardNasaId :: jsval
  cardPreviewUrl :: jsval
  cardDetailsUrl :: jsval

text \<open>\<open>links.find((link) => link.render === "image")\<close>.\<close>

fun findImageLink :: "json list \<Rightarrow> js_error + jsval" where
  "findImageLink [] = Inr None"
| "findImageLink (link # links) =
     bindE (getProp (Some link) (ascii ''render'')) (\<lambda>r.
       if r = Some (JStr (ascii ''image'')) then Inr (Some link) else findImageLink links)"

definition createCard :: "host \<Rightarrow> jsval \<Rightarrow> jsval \<Rightarrow> js_error + media_card" where
  "createCard h meta item =
     bindE (getProp meta (ascii ''title'')) (\<lambda>t.
     bindE (getProp meta (ascii ''description'')) (\<lambda>d.
     bindE (truncateText h d 200) (\<lambda>description.
     bindE (getProp meta (ascii ''media_type'')) (\<lambda>m.
     bindE (getProp meta (ascii ''date_created'')) (\<lambda>dc.
     bindE (getProp meta (ascii ''nasa_id'')) (\<lambda>n.
     bindE (getProp item (ascii ''links'')) (\<lambda>ls.
     bindE (findImageLink (arrayOrEmpty ls)) (\<lambda>found.
       let nasaId = orElse n (Some (JStr []));
           previewLink = orElse found (firstElement (arrayOrEmpty ls))
       in bindE (formatDate h dc) (\<lambda>date.
          bindE (if truthy previewLink then getProp previewLink (ascii ''href'')
                 else Inr (Some (JStr []))) (\<lambda>previewUrl.
          bindE (if truthy nasaId
                 then bindE (toStringE h nasaId) (\<lambda>idText.
                        Inr (Some (JStr (ascii ''https://images.nasa.gov/details-'' @ idText))))
                 else Inr previewUrl) (\<lambda>detailsUrl.
          bindE (mapE (toStringE h)
                   [orElse t (Some (JStr untitled)), previewUrl, description, detailsUrl])
            (\<lambda>shown.
            Inr \<lparr> cardTitle = orElse t (Some (JStr untitled)),
                  cardDescription = description,
                  cardMediaType = orElse m (Some (JStr (ascii ''image''))),
                  cardDate = date,
                  cardNasaId = nasaId,
                  cardPreviewUrl = previewUrl,
                  cardDetailsUrl = detailsUrl \<rparr>))))))))))))"

text \<open>
  \<open>renderItems\<close>: the cards of the document fragment. An exception inside the
  \<open>forEach\<close> leaves the function before the fragment is appended.
\<close>

fun renderItems :: "host \<Rightarrow> json list \<Rightarrow> js_error + media_card list" where
  "renderItems h [] = Inr []"
| "renderItems h (item # items) =
     bindE (getProp (Some item) (ascii ''data'')) (\<lambda>d.
       let meta = (case d of Some (JArr ds) \<Rightarrow> firstElement ds | _ \<Rightarrow> Some JNull)
       in if \<not> truthy meta then renderItems h items
          else bindE (createCard h meta (Some item)) (\<lambda>c.
               bindE (renderItems h items) (\<lambda>cs. Inr (c # cs))))"

text \<open>
  The page. Every accepted submission creates one \<open>AbortController\<close> and one
  \<open>fetch\<close> call with its signal, so a call and its controller share an index.
  \<open>renderLog\<close> is a history variable: which call's cards \<open>renderItems\<close> appended.
\<close>

datatype phase = AwaitingResponse | ReadingBody | Finished

record fetch_call =
  callUrl :: jstring
  aborted :: bool
  callPhase :: phase

record form_state =
  searchInput :: jstring
  mediaTypeSelect :: jstring
  yearInput :: jstring

record nasa_page =
  activeController :: "nat option"
  calls :: "fetch_call list"
  statusText :: jstring
  results :: "media_card list"
  yearFocused :: bool
  consoleErrors :: "js_error list"
  renderLog :: "(nat \<times> media_card list) list"

definition initialPage :: "jstring \<Rightarrow> nasa_page" where
  "initialPage status0 =
     \<lparr> activeController = None, calls = [], statusText = status0, results = [],
       yearFocused = False, consoleErrors = [], renderLog = [] \<rparr>"

definition handleError :: "js_error \<Rightarrow> nasa_page \<Rightarrow> nasa_page" where
  "handleError error s =
     (if errorName error = ascii ''AbortError'' then s
      else s\<lparr> statusText := msgRequestFailed, consoleErrors := consoleErrors s @ [error] \<rparr>)"

text \<open>
  \<open>parseInt(s, 10)\<close>: leading white space, a sign, then the longest run of digits;
  None is NaN. The value is exact here; past 2^53 the source's is the nearest double,
  which lies on the same side of 1920 and 2100, the only numbers it is compared with.
\<close>

definition isDigit :: "code_unit \<Rightarrow> bool" where
  "isDigit c = (48 \<le> c \<and> c \<le> 57)"

definition digitsValue :: "jstring \<Rightarrow> nat" where
  "digitsValue ds = foldl (\<lambda>acc c. 10 * acc + (unat c - 48)) 0 ds"

definition parseInt10 :: "jstring \<Rightarrow> int option" where
  "parseInt10 s =
     (let t = dropWhile isWhiteSpace s;
          neg = (t \<noteq> [] \<and> hd t = 45);
          u = (if t \<noteq> [] \<and> (hd t = 45 \<or> hd t = 43) then tl t else t);
          ds = takeWhile isDigit u
      in if ds = [] then None
         else Some (if neg then - int (digitsValue ds) else int (digitsValue ds)))"

text \<open>Lines 176 to 185: None when the year is refused, else the year to send.\<close>

definition yearFilter :: "jstring \<Rightarrow> jstring option" where
  "yearFilter rawYear =
     (if rawYear \<noteq> [] then
        (case parseInt10 rawYear of
           None \<Rightarrow> None
         | Some parsedYear \<Rightarrow>
             if parsedYear < 1920 \<or> parsedYear > 2100 then None
             else Some (intToString parsedYear))
      else Some [])"

definition abort :: "nat \<Rightarrow> nasa_page \<Rightarrow> nasa_page" where
  "abort c s =
     (if c < length (calls s) then s\<lparr> calls := (calls s)[c := (calls s ! c)\<lparr> aborted := True \<rparr>] \<rparr>
      else s)"

definition handleSubmit :: "host \<Rightarrow> form_state \<Rightarrow> nasa_page \<Rightarrow> nasa_page" where
  "handleSubmit h form s =
     (let query = trim (searchInput form);
          mediaType = mediaTypeSelect form;
          rawYear = trim (yearInput form)
      in if query = [] then s\<lparr> statusText := msgEnterQuery \<rparr>
         else (case yearFilter rawYear of
                 None \<Rightarrow> s\<lparr> statusText := msgEnterYear, yearFocused := True \<rparr>
               | Some year \<Rightarrow>
                   let s1 = (case activeController s of Some c \<Rightarrow> abort c s | None \<Rightarrow> s);
                       s2 = s1\<lparr> activeController := Some (length (calls s1)),
                                statusText := msgLoading, results := [] \<rparr>
                   in s2\<lparr> calls := calls s2 @
                          [\<lparr> callUrl = buildQuery h query mediaType year, aborted = False,
                             callPhase = AwaitingResponse \<rparr>] \<rparr>))"

text \<open>
  Lines 205 to 216, run once the body of call \<open>rid\<close> is decoded. The template literal
  of line 215 converts \<open>total\<close>; when that throws, the status is not assigned and
  the \<open>catch\<close> of line 217 runs.
\<close>

definition processPayload :: "host \<Rightarrow> nat \<Rightarrow> json \<Rightarrow> nasa_page \<Rightarrow> nasa_page" where
  "processPayload h rid payload s =
     (let collection =
            (if truthy (Some payload) \<and>
                truthy (case getProp (Some payload) (ascii ''collection'') of Inr c \<Rightarrow> c | Inl e \<Rightarrow> None)
             then (case getProp (Some payload) (ascii ''collection'') of Inr c \<Rightarrow> c | Inl e \<Rightarrow> None)
             else Some JNull);
          itemsProp = (case getProp collection (ascii ''items'') of Inr i \<Rightarrow> i | Inl e \<Rightarrow> None);
          items = (if truthy collection then arrayOrEmpty itemsProp else []);
          metadata = (case getProp collection (ascii ''metadata'') of Inr m \<Rightarrow> m | Inl e \<Rightarrow> None);
          total =
            (if truthy collection \<and> truthy metadata
             then (case getProp metadata (ascii ''total_hits'') of Inr t \<Rightarrow> t | Inl e \<Rightarrow> None)
             else Some (JNum (Fin (of_nat (length items)))))
      in if items = [] then s\<lparr> statusText := msgNothingFound \<rparr>
         else
           (case toStringE h total of
              Inl e \<Rightarrow> handleError e s
            | Inr totalText \<Rightarrow>
                let s1 = s\<lparr> statusText := msgFoundPrefix @ totalText \<rparr>
                in (case renderItems h (take MAX_RESULTS items) of
                      Inl e \<Rightarrow> handleError e s1
                    | Inr cards \<Rightarrow>
                        s1\<lparr> results := results s1 @ cards,
                            renderLog := renderLog s1 @ [(rid, cards)] \<rparr>)))"

text \<open>
  What the network can do to call \<open>rid\<close>: the connection fails, the response head
  arrives (\<open>response.ok\<close> and the status), or the body is decoded (None: not JSON).
  Once the call's signal is aborted, its pending promise rejects with an AbortError
  whatever arrives.
\<close>

datatype fetch_event = NetworkFailure | Response bool nat | Body "json option"

definition setPhase :: "nat \<Rightarrow> phase \<Rightarrow> nasa_page \<Rightarrow> nasa_page" where
  "setPhase rid p s = s\<lparr> calls := (calls s)[rid := (calls s ! rid)\<lparr> callPhase := p \<rparr>] \<rparr>"

definition deliver :: "host \<Rightarrow> nat \<Rightarrow> fetch_event \<Rightarrow> nasa_page \<Rightarrow> nasa_page" where
  "deliver h rid ev s =
     (if rid \<ge> length (calls s) then s
      else
        let call = calls s ! rid; done = setPhase rid Finished s
        in if callPhase call = Finished then s
           else if aborted call then handleError AbortError done
           else (case (callPhase call, ev) of
                   (AwaitingResponse, NetworkFailure) \<Rightarrow> handleError TypeError done
                 | (AwaitingResponse, Response ok status) \<Rightarrow>
                     if \<not> ok
                     then handleError (Error (ascii ''Unexpected response '' @ natDigits status)) done
                     else setPhase rid ReadingBody s
                 | (ReadingBody, NetworkFailure) \<Rightarrow> handleError TypeError done
                 | (ReadingBody, Body None) \<Rightarrow> handleError SyntaxError done
                 | (ReadingBody, Body (Some payload)) \<Rightarrow> processPayload h rid payload done
                 | _ \<Rightarrow> s))"

datatype event = Submit form_state | Network nat fetch_event

fun step :: "host \<Rightarrow> nasa_page \<Rightarrow> event \<Rightarrow> nasa_page" where
  "step h s (Submit form) = handleSubmit h form s"
| "step h s (Network rid ev) = deliver h rid ev s"

definition run :: "host \<Rightarrow> event list \<Rightarrow> nasa_page \<Rightarrow> nasa_page" where
  "run h evs s = foldl (step h) s evs"

text \<open>A call is live while its promise is pending and its signal is not aborted.\<close>

definition live :: "nasa_page \<Rightarrow> nat \<Rightarrow> bool" where
  "live s i = (i < length (calls s) \<and> \<not> aborted (calls s ! i) \<and> callPhase (calls s ! i) \<noteq> Finished)"

definition liveCalls :: "nasa_page \<Rightarrow> nat list" where
  "liveCalls s = filter (live s) [0..<length (calls s)]"

fun isNetwork :: "event \<Rightarrow> bool" where
  "isNetwork (Network rid ev) = True"
| "isNetwork (Submit form) = False"

text \<open>A submission is accepted when it passes both checks and so issues a call.\<close>

definition accepted :: "form_state \<Rightarrow> bool" where
  "accepted form = (trim (searchInput form) \<noteq> [] \<and> yearFilter (trim (yearInput form)) \<noteq> None)"

section \<open>The places lab (src/Lab3/script.js)\<close>

text \<open>The texts of lines 83, 112 to 137 and 219, 224 (Russian), as code units.\<close>

definition unnamedPlace :: jstring where
  "unnamedPlace = [1041, 1077, 1079, 32, 1085, 1072, 1079, 1074, 1072, 1085, 1080, 1103]"

definition catMuseum :: jstring where
  "catMuseum = [1052, 1091, 1079, 1077, 1081]"

definition catGallery :: jstring where
  "catGallery = [1061, 1091, 1076, 1086, 1078, 1077, 1089, 1090, 1074, 1077, 1085, 1085,
     1072, 1103, 32, 1075, 1072, 1083, 1077, 1088, 1077, 1103]"

definition catAttraction :: jstring where
  "catAttraction = [1044, 1086, 1089, 1090, 1086, 1087, 1088, 1080, 1084, 1077, 1095, 1072,
     1090, 1077, 1083, 1100, 1085, 1086, 1089, 1090, 1100]"

definition catZoo :: jstring where
  "catZoo = [1047, 1086, 1086, 1087, 1072, 1088, 1082]"

definition catThemePark :: jstring where
  "catThemePark = [1055, 1072, 1088, 1082, 32, 1088, 1072, 1079, 1074, 1083, 1077, 1095,
     1077, 1085, 1080, 1081]"

definition catTheatre :: jstring where
  "catTheatre = [1058, 1077, 1072, 1090, 1088]"

definition catArtsCentre :: jstring where
  "catArtsCentre = [1062, 1077, 1085, 1090, 1088, 32, 1080, 1089, 1082, 1091, 1089, 1089,
     1090, 1074]"

definition catObject :: jstring where
  "catObject = [1054, 1073, 1098, 1077, 1082, 1090]"

definition msgEnterAddress :: jstring where
  "msgEnterAddress = [1042, 1074, 1077, 1076, 1080, 1090, 1077, 32, 1072, 1076, 1088, 1077,
     1089, 32, 1080, 1083, 1080, 32, 1075, 1086, 1088, 1086, 1076, 46]"

definition msgGeocoding :: jstring where
  "msgGeocoding = [1048, 1097, 1077, 1084, 32, 1082, 1086, 1086, 1088, 1076, 1080, 1085,
     1072, 1090, 1099, 46, 46, 46]"

text \<open>
  \<open>inferCategory(tags)\<close> and \<open>buildAddress(tags)\<close>. Both read properties of
  \<open>tags\<close>, so both throw when \<open>tags\<close> is \<open>null\<close>, and both convert what they
  read to strings (the template literals, \<open>+\<close> and \<open>join\<close>).
\<close>

definition inferCategory :: "host \<Rightarrow> jsval \<Rightarrow> js_error + jstring" where
  "inferCategory h tags =
     bindE (getProp tags (ascii ''tourism'')) (\<lambda>tourism.
       if truthy tourism then
         (if tourism = Some (JStr (ascii ''museum'')) then Inr catMuseum
          else if tourism = Some (JStr (ascii ''art_gallery'')) then Inr catGallery
          else if tourism = Some (JStr (ascii ''attraction'')) then Inr catAttraction
          else if tourism = Some (JStr (ascii ''zoo'')) then Inr catZoo
          else if tourism = Some (JStr (ascii ''theme_park'')) then Inr catThemePark
          else bindE (toStringE h tourism) (\<lambda>t. Inr (ascii ''Tourism: '' @ t)))
       else
         bindE (getProp tags (ascii ''amenity'')) (\<lambda>amenity.
           if truthy amenity then
             (if amenity = Some (JStr (ascii ''theatre'')) then Inr catTheatre
              else if amenity = Some (JStr (ascii ''arts_centre'')) then Inr catArtsCentre
              else bindE (toStringE h amenity) (\<lambda>a. Inr (ascii ''Amenity: '' @ a)))
           else Inr catObject))"

definition buildAddress :: "host \<Rightarrow> jsval \<Rightarrow> js_error + jstring" where
  "buildAddress h tags =
     bindE (getProp tags (ascii ''addr:street'')) (\<lambda>street.
     bindE (getProp tags (ascii ''addr:housenumber'')) (\<lambda>housenumber.
     bindE (getProp tags (ascii ''addr:city'')) (\<lambda>city.
     bindE (getProp tags (ascii ''addr:state'')) (\<lambda>state.
     bindE (getProp tags (ascii ''addr:country'')) (\<lambda>country.
       bindE (if truthy street
              then bindE (toStringE h street) (\<lambda>st.
                   bindE (if truthy housenumber
                          then bindE (toStringE h housenumber) (\<lambda>hn. Inr (ascii '', '' @ hn))
                          else Inr []) (\<lambda>hn. Inr (st @ hn)))
              else Inr []) (\<lambda>first.
       bindE (mapE (toStringE h) (filter truthy [Some (JStr first), city, state, country]))
         (\<lambda>parts. Inr (joinWith (ascii '', '') parts))))))))"

record place =
  placeId :: jsval
  placeType :: jsval
  placeLat :: jsval
  placeLon :: jsval
  placeName :: jsval
  placeCategory :: jstring
  placeAddress :: jstring
  placeTags :: jsval

text \<open>
  The key of line 87, read back from a place. The template literal converts the name
  and the coordinates; \<open>candidate\<close> below throws where one of them has no conversion.
\<close>

definition placeKey :: "host \<Rightarrow> place \<Rightarrow> jstring" where
  "placeKey h p =
     toString h (placeName p) @ ascii '':'' @ toString h (placeLat p) @ ascii '':'' @
     toString h (placeLon p)"

text \<open>
  Lines 74 to 87 and 93 to 102 of the \<open>map\<close> callback: the place an element gives, or
  None when it has no coordinates. The destructuring of line 74 throws on \<open>null\<close> and
  puts \<open>{}\<close> for an absent \<open>tags\<close> only.
\<close>

definition candidate :: "host \<Rightarrow> json \<Rightarrow> js_error + place option" where
  "candidate h element =
     bindE (getProp (Some element) (ascii ''tags'')) (\<lambda>t.
       let tags = (case t of None \<Rightarrow> Some (JObj []) | Some v \<Rightarrow> Some v) in
       bindE (getProp (Some element) (ascii ''type'')) (\<lambda>ty.
       bindE (getProp (Some element) (ascii ''lat'')) (\<lambda>elat.
       bindE (getProp (Some element) (ascii ''lon'')) (\<lambda>elon.
       bindE (getProp (Some element) (ascii ''center'')) (\<lambda>center.
         let isNode = (ty = Some (JStr (ascii ''node''))) in
         if \<not> isNode \<and> \<not> truthy center then Inr None
         else
           bindE (if isNode then Inr elat else getProp center (ascii ''lat'')) (\<lambda>lat.
           bindE (if isNode then Inr elon else getProp center (ascii ''lon'')) (\<lambda>lon.
           bindE (getProp tags (ascii ''name'')) (\<lambda>n.
           bindE (inferCategory h tags) (\<lambda>category.
           bindE (buildAddress h tags) (\<lambda>address.
           bindE (mapE (toStringE h) [orElse n (Some (JStr unnamedPlace)), lat, lon]) (\<lambda>key.
           bindE (getProp (Some element) (ascii ''id'')) (\<lambda>i.
             Inr (Some \<lparr> placeId = i, placeType = ty, placeLat = lat, placeLon = lon,
                         placeName = orElse n (Some (JStr unnamedPlace)),
                         placeCategory = category, placeAddress = address,
                         placeTags = tags \<rparr>)))))))))))))"

text \<open>
  The \<open>map\<close> of lines 72 to 103 followed by \<open>filter(Boolean)\<close>, threading the set
  \<open>seen\<close> of line 70 through the elements in their order.
\<close>

fun mapElements :: "host \<Rightarrow> jstring list \<Rightarrow> json list \<Rightarrow> js_error + place list" where
  "mapElements h seen [] = Inr []"
| "mapElements h seen (element # rest) =
     bindE (candidate h element) (\<lambda>c.
       case c of
         None \<Rightarrow> mapElements h seen rest
       | Some p \<Rightarrow>
           if placeKey h p \<in> set seen then mapElements h seen rest
           else bindE (mapElements h (placeKey h p # seen) rest) (\<lambda>ps. Inr (p # ps)))"

text \<open>
  The comparator of line 105. \<open>a.name.localeCompare\<close> is a function only when the
  name is a string; its argument is converted to a string.
\<close>

definition compareNames :: "host \<Rightarrow> place \<Rightarrow> place \<Rightarrow> js_error + jsnum" where
  "compareNames h a b =
     (case placeName a of
        Some (JStr s) \<Rightarrow>
          bindE (toStringE h (placeName b)) (\<lambda>that. Inr (Fin (of_int (localeCompareRu h s that))))
      | _ \<Rightarrow> Inl TypeError)"

text \<open>
  What \<open>fetchPlaces\<close> returns for the decoded body \<open>data\<close> (lines 69 to 105).
  \<open>data.elements.map\<close> needs an array.
\<close>

definition fetchPlaces :: "host \<Rightarrow> json \<Rightarrow> js_error + place list" where
  "fetchPlaces h data =
     bindE (getProp (Some data) (ascii ''elements'')) (\<lambda>elements.
       case elements of
         Some (JArr es) \<Rightarrow> bindE (mapElements h [] es) (jsSortE (compareNames h))
       | _ \<Rightarrow> Inl TypeError)"

text \<open>
  The submit handler (lines 212 to 224) up to its first \<open>await\<close>: the check of the
  query, then the status line, the disabled button and the geocoding request of
  \<open>geocode\<close> (lines 25 to 38). The radius, read on line 216, is first used once the
  geocoding reply is in.
\<close>

record geo_form =
  queryField :: jstring
  radiusField :: jstring

record geo_page =
  geoStatusText :: jstring
  geoStatusTone :: jstring
  submitDisabled :: bool
  geoRequests :: "jstring list"

definition status :: "jstring \<Rightarrow> jstring \<Rightarrow> geo_page \<Rightarrow> geo_page" where
  "status message tone s = s\<lparr> geoStatusText := message, geoStatusTone := tone \<rparr>"

definition geocodeUrl :: "host \<Rightarrow> jstring \<Rightarrow> jstring" where
  "geocodeUrl h searchQuery =
     ascii ''https://nominatim.openstreetmap.org/search'' @ ascii ''?'' @
     paramsToString h
       [(ascii ''format'', ascii ''json''), (ascii ''q'', searchQuery),
        (ascii ''limit'', ascii ''1''), (ascii ''addressdetails'', ascii ''1''),
        (ascii ''extratags'', ascii ''1'')]"

definition submitPlaces :: "host \<Rightarrow> geo_form \<Rightarrow> geo_page \<Rightarrow> geo_page" where
  "submitPlaces h form s =
     (let searchQuery = trim (queryField form) in
      if searchQuery = [] then status msgEnterAddress (ascii ''error'') s
      else
        let s1 = s\<lparr> submitDisabled := True \<rparr>;
            s2 = status msgGeocoding (ascii ''info'') s1
        in s2\<lparr> geoRequests := geoRequests s2 @ [geocodeUrl h searchQuery] \<rparr>)"

text \<open>
  The arrival sequence: the places the elements give, in their order, before the set
  \<open>seen\<close> thins them out.
\<close>

definition candidates :: "host \<Rightarrow> json list \<Rightarrow> js_error + place list" where
  "candidates h es =
     bindE (mapE (candidate h) es) (\<lambda>cs.
       Inr (concat (map (\<lambda>c. case c of None \<Rightarrow> [] | Some p \<Rightarrow> [p]) cs)))"

text \<open>
  The key of the specification's sentence, "(name, rounded latitude, rounded
  longitude)", with the coordinates rounded as \<open>renderPlaces\<close> prints them
  (line 173, \<open>toFixed(5)\<close>). The source has no other rounding.
\<close>

definition roundedCoordinate :: "host \<Rightarrow> jsval \<Rightarrow> jstring" where
  "roundedCoordinate h v = (case v of Some (JNum (Fin r)) \<Rightarrow> toFixed h 5 r | _ \<Rightarrow> toString h v)"

definition roundedKey :: "host \<Rightarrow> place \<Rightarrow> jstring \<times> jstring \<times> jstring" where
  "roundedKey h p =
     (toString h (placeName p), roundedCoordinate h (placeLat p), roundedCoordinate h (placeLon p))"

text \<open>
  The shape of an element of an Overpass reply: an object; its \<open>tags\<close>, when present,
  an object of strings; its \<open>lat\<close> and \<open>lon\<close>, when present, numbers; its
  \<open>center\<close>, when present, an object whose \<open>lat\<close> and \<open>lon\<close>, when present, are
  numbers.
\<close>

fun isString :: "json \<Rightarrow> bool" where
  "isString (JStr s) = True"
| "isString other = False"

fun isNumber :: "json \<Rightarrow> bool" where
  "isNumber (JNum n) = True"
| "isNumber other = False"

definition numberIfPresent :: "(jstring \<times> json) list \<Rightarrow> jstring \<Rightarrow> bool" where
  "numberIfPresent props k = (case map_of props k of None \<Rightarrow> True | Some v \<Rightarrow> isNumber v)"

fun elementShape :: "json \<Rightarrow> bool" where
  "elementShape (JObj props) =
     ((case map_of props (ascii ''tags'') of
         None \<Rightarrow> True
       | Some (JObj tags) \<Rightarrow> list_all (\<lambda>(k, v). isString v) tags
       | Some other \<Rightarrow> False) \<and>
      numberIfPresent props (ascii ''lat'') \<and> numberIfPresent props (ascii ''lon'') \<and>
      (case map_of props (ascii ''center'') of
         None \<Rightarrow> True
       | Some (JObj c) \<Rightarrow> numberIfPresent c (ascii ''lat'') \<and> numberIfPresent c (ascii ''lon'')
       | Some other \<Rightarrow> False))"
| "elementShape other = False"

section \<open>The weather lab (src/Lab5/app.js, lines 1 to 262)\<close>

text \<open>The status texts of lines 39 and 49 (Russian), as code units.\<close>

definition msgEnterKeyAndCity :: jstring where
  "msgEnterKeyAndCity = [1042, 1074, 1077, 1076, 1080, 1090, 1077, 32, 65, 80, 73, 32, 1082,
     1083, 1102, 1095, 32, 1080, 32, 1075, 1086, 1088, 1086, 1076]"

definition msgLoadingData :: jstring where
  "msgLoadingData = [1047, 1072, 1075, 1088, 1091, 1078, 1072, 1077, 1084, 32, 1076, 1072,
     1085, 1085, 1099, 1077, 8230]"

text \<open>
  The page: the three form fields the preferences mirror, the option values of the
  metric \<open>select\<close> (they come from the HTML), the status line, the requests sent, and
  \<open>localStorage\<close>, whose every access throws when the browser denies storage.
\<close>

record weather_page =
  apiKeyInput :: jstring
  cityInput :: jstring
  metricSelect :: jstring
  metricOptions :: "jstring list"
  weatherStatus :: jstring
  weatherStatusColor :: jstring
  formLoading :: bool
  weatherRequests :: "jstring list"
  lastForecast :: "json list"
  storageItems :: "jstring \<rightharpoonup> jstring"
  storageDenied :: bool
  consoleWarnings :: nat

definition renderStatus :: "jstring \<Rightarrow> bool \<Rightarrow> bool \<Rightarrow> weather_page \<Rightarrow> weather_page" where
  "renderStatus message isError isNeutral s =
     s\<lparr> weatherStatus := message,
        weatherStatusColor :=
          (if isNeutral then ascii ''#1f2933''
           else if isError then ascii ''#dc2626'' else ascii ''#047857'') \<rparr>"

definition toggleForm :: "bool \<Rightarrow> weather_page \<Rightarrow> weather_page" where
  "toggleForm isLoading s = s\<lparr> formLoading := isLoading \<rparr>"

text \<open>\<open>handleSubmit\<close> of the weather lab (lines 33 to 52), up to the \<open>fetch\<close>.\<close>

definition forecastUrl :: "host \<Rightarrow> jstring \<Rightarrow> jstring \<Rightarrow> jstring" where
  "forecastUrl h city apiKey =
     ascii ''https://api.openweathermap.org/data/2.5/forecast'' @ ascii ''?'' @
     paramsToString h
       (paramSet (paramSet (paramSet (paramSet [] (ascii ''q'') city)
          (ascii ''appid'') apiKey) (ascii ''units'') (ascii ''metric''))
          (ascii ''lang'') (ascii ''ru''))"

definition handleSubmitWeather :: "host \<Rightarrow> weather_page \<Rightarrow> weather_page" where
  "handleSubmitWeather h s =
     (let apiKey = trim (apiKeyInput s); city = trim (cityInput s) in
      if apiKey = [] \<or> city = [] then renderStatus msgEnterKeyAndCity True False s
      else
        let s1 = renderStatus msgLoadingData False True s;
            s2 = toggleForm True s1
        in s2\<lparr> weatherRequests := weatherRequests s2 @ [forecastUrl h city apiKey] \<rparr>)"

definition setItem :: "jstring \<Rightarrow> jstring \<Rightarrow> weather_page \<Rightarrow> js_error + weather_page" where
  "setItem k v s =
     (if storageDenied s then Inl (Error (ascii ''SecurityError''))
      else Inr (s\<lparr> storageItems := (storageItems s)(k \<mapsto> v) \<rparr>))"

definition getItem :: "jstring \<Rightarrow> weather_page \<Rightarrow> js_error + jstring option" where
  "getItem k s =
     (if storageDenied s then Inl (Error (ascii ''SecurityError'')) else Inr (storageItems s k))"

text \<open>
  \<open>metricConfig[key]\<close> is truthy for the four metrics and for the property names every
  object inherits from \<open>Object.prototype\<close>.
\<close>

definition metricKeys :: "jstring list" where
  "metricKeys = [ascii ''temp'', ascii ''feels_like'', ascii ''temp_min'', ascii ''temp_max'']"

definition objectPrototypeKeys :: "jstring list" where
  "objectPrototypeKeys =
     [ascii ''constructor'', ascii ''hasOwnProperty'', ascii ''isPrototypeOf'',
      ascii ''propertyIsEnumerable'', ascii ''toLocaleString'', ascii ''toString'',
      ascii ''valueOf'', ascii ''__proto__'', ascii ''__defineGetter__'',
      ascii ''__defineSetter__'', ascii ''__lookupGetter__'', ascii ''__lookupSetter__'']"

definition metricConfigTruthy :: "jstring \<Rightarrow> bool" where
  "metricConfigTruthy key = (key \<in> set metricKeys \<or> key \<in> set objectPrototypeKeys)"

text \<open>Assigning \<open>select.value\<close>: a value no option has selects nothing.\<close>

definition setMetricSelect :: "jstring \<Rightarrow> weather_page \<Rightarrow> weather_page" where
  "setMetricSelect v s = s\<lparr> metricSelect := (if v \<in> set (metricOptions s) then v else []) \<rparr>"

definition persistPreferences :: "jstring \<Rightarrow> jstring \<Rightarrow> weather_page \<Rightarrow> weather_page" where
  "persistPreferences apiKey city s =
     (case bindE (setItem (ascii ''ow_apiKey'') apiKey s) (\<lambda>s1.
           bindE (setItem (ascii ''ow_city'') city s1) (\<lambda>s2.
           setItem (ascii ''ow_metric'') (metricSelect s2) s2)) of
        Inl error \<Rightarrow> s\<lparr> consoleWarnings := Suc (consoleWarnings s) \<rparr>
      | Inr s3 \<Rightarrow> s3)"

definition restorePreferences :: "weather_page \<Rightarrow> weather_page" where
  "restorePreferences s =
     (case bindE (getItem (ascii ''ow_apiKey'') s) (\<lambda>storedApiKey.
           bindE (getItem (ascii ''ow_city'') s) (\<lambda>storedCity.
           bindE (getItem (ascii ''ow_metric'') s) (\<lambda>storedMetric.
             let s1 = (case storedApiKey of
                         Some k \<Rightarrow> if k \<noteq> [] then s\<lparr> apiKeyInput := k \<rparr> else s
                       | None \<Rightarrow> s);
                 s2 = (case storedCity of
                         Some c \<Rightarrow> if c \<noteq> [] then s1\<lparr> cityInput := c \<rparr> else s1
                       | None \<Rightarrow> s1)
             in Inr (case storedMetric of
                       Some m \<Rightarrow> if m \<noteq> [] \<and> metricConfigTruthy m then setMetricSelect m s2 else s2
                     | None \<Rightarrow> s2)))) of
        Inl error \<Rightarrow> s\<lparr> consoleWarnings := Suc (consoleWarnings s) \<rparr>
      | Inr s' \<Rightarrow> s')"

text \<open>
  The second \<open>then\<close> of \<open>handleSubmit\<close> (lines 59 to 64) for the decoded body
  \<open>data\<close> of the request sent for \<open>apiKey\<close> and \<open>city\<close>: a submission is
  successful when \<open>data.list\<close> is an array, and then the preferences are written.
  \<open>updateChart\<close>, which follows, draws the chart and reads or writes neither the store
  nor the three fields; it is left out.
\<close>

text \<open>The message of the error of line 61 (Russian for "unexpected format of the OpenWeather reply").\<close>

definition msgUnexpectedFormat :: jstring where
  "msgUnexpectedFormat = [1053, 1077, 1086, 1078, 1080, 1076, 1072, 1085, 1085, 1099, 1081,
     32, 1092, 1086, 1088, 1084, 1072, 1090, 32, 1086, 1090, 1074, 1077, 1090, 1072, 32, 79,
     112, 101, 110, 87, 101, 97, 116, 104, 101, 114]"

definition forecastArrived :: "jstring \<Rightarrow> jstring \<Rightarrow> json \<Rightarrow> weather_page \<Rightarrow> js_error + weather_page" where
  "forecastArrived apiKey city data s =
     bindE (getProp (Some data) (ascii ''list'')) (\<lambda>l.
       case l of
         Some (JArr entries) \<Rightarrow> Inr (persistPreferences apiKey city (s\<lparr> lastForecast := entries \<rparr>))
       | _ \<Rightarrow> Inl (Error msgUnexpectedFormat))"

text \<open>A page load runs \<open>init\<close>, whose first step restores the preferences (line 25).\<close>

definition pageLoad :: "weather_page \<Rightarrow> weather_page" where
  "pageLoad s = restorePreferences s"

section \<open>The text analysis labs (src/Lab5/app.js from line 263, src/unnamed/part\_001)\<close>

text \<open>
  \<open>escapeHtml\<close>, the same in both files: \<open>String(text ?? '')\<close>, then every match of
  the class \<open>[&<>"']\<close> is replaced by \<open>entities[char] || char\<close>.
\<close>

definition entities :: "(code_unit \<times> jstring) list" where
  "entities = [(38, ascii ''&amp;''), (60, ascii ''&lt;''), (62, ascii ''&gt;''),
               (34, ascii ''&quot;''), (39, ascii ''&#39;'')]"

definition replaceChar :: "code_unit \<Rightarrow> jstring" where
  "replaceChar c = (case map_of entities c of
                      Some e \<Rightarrow> if e \<noteq> [] then e else [c]
                    | None \<Rightarrow> [c])"

definition replaceClass :: "code_unit list \<Rightarrow> (code_unit \<Rightarrow> jstring) \<Rightarrow> jstring \<Rightarrow> jstring" where
  "replaceClass cls f s = concat (map (\<lambda>c. if c \<in> set cls then f c else [c]) s)"

definition escapeHtml :: "host \<Rightarrow> jsval \<Rightarrow> jstring" where
  "escapeHtml h text =
     (let safe = toString h (nullish text (Some (JStr [])))
      in replaceClass [38, 60, 62, 34, 39] replaceChar safe)"

text \<open>
  \<open>String(v)\<close> throws for a value that has no conversion, and \<open>escapeHtml\<close> with it;
  \<open>escapeHtml\<close> above is the string it returns otherwise.
\<close>

definition escapeHtmlE :: "host \<Rightarrow> jsval \<Rightarrow> js_error + jstring" where
  "escapeHtmlE h text =
     bindE (toStringE h (nullish text (Some (JStr []))))
       (\<lambda>safe. Inr (replaceClass [38, 60, 62, 34, 39] replaceChar safe))"

text \<open>
  \<open>Object.entries(v)\<close> of a value that is not \<open>null\<close> or \<open>undefined\<close>. The own
  properties of an object are enumerated with the array indices first, ascending, then
  the other names in the order of their creation, which for a decoded object is the
  order of the JSON text. An array index is the decimal form of an integer from
  0 to 2^32 - 2.
\<close>

definition isArrayIndex :: "jstring \<Rightarrow> bool" where
  "isArrayIndex k =
     (k \<noteq> [] \<and> list_all isDigit k \<and> (hd k \<noteq> 48 \<or> k = [48]) \<and>
      digitsValue k < 4294967295)"

definition ownEntries :: "(jstring \<times> json) list \<Rightarrow> (jstring \<times> json) list" where
  "ownEntries kvs =
     sort_key (\<lambda>(k, v). digitsValue k) (filter (\<lambda>(k, v). isArrayIndex k) kvs) @
     filter (\<lambda>(k, v). \<not> isArrayIndex k) kvs"

fun objectEntries :: "jsval \<Rightarrow> js_error + (jstring \<times> json) list" where
  "objectEntries None = Inl TypeError"
| "objectEntries (Some JNull) = Inl TypeError"
| "objectEntries (Some (JObj kvs)) = Inr (ownEntries kvs)"
| "objectEntries (Some (JArr xs)) = Inr (zip (map natDigits [0..<length xs]) xs)"
| "objectEntries (Some (JStr s)) =
     Inr (zip (map natDigits [0..<length s]) (map (\<lambda>c. JStr [c]) s))"
| "objectEntries (Some (JBool b)) = Inr []"
| "objectEntries (Some (JNum n)) = Inr []"

subsection \<open>Twinword (src/unnamed/part\_001)\<close>

record keyword =
  label :: jstring
  weight :: jsnum
  source :: jstring

text \<open>
  \<open>extractKeywords\<close> (lines 312 to 322): the items in the order of
  \<open>Object.entries\<close>, after \<open>map\<close> and \<open>filter\<close>, then the sort.
\<close>

definition keywordOf :: "host \<Rightarrow> jstring \<times> json \<Rightarrow> js_error + keyword" where
  "keywordOf h entry =
     (case entry of (l, w) \<Rightarrow>
        bindE (numberOrZero h (Some w)) (\<lambda>n.
          Inr \<lparr> label = l, weight = n, source = ascii ''Twinword'' \<rparr>))"

definition keywordItems :: "host \<Rightarrow> json \<Rightarrow> js_error + keyword list" where
  "keywordItems h data =
     bindE (getProp (Some data) (ascii ''keyword'')) (\<lambda>k.
     bindE (objectEntries (orElse k (Some (JObj [])))) (\<lambda>es.
     bindE (mapE (keywordOf h) es) (\<lambda>items.
       Inr (filter (\<lambda>item. label item \<noteq> []) items))))"

definition extractKeywords :: "host \<Rightarrow> json \<Rightarrow> js_error + keyword list" where
  "extractKeywords h data =
     bindE (keywordItems h data) (\<lambda>items.
       Inr (jsSort (\<lambda>a b. numSub (weight b) (weight a)) items))"

text \<open>One row of the keywords table (lines 227 to 234) and the table body.\<close>

definition weightCell :: "host \<Rightarrow> nat \<Rightarrow> jsnum \<Rightarrow> jstring" where
  "weightCell h digits w = (case w of Fin r \<Rightarrow> toFixed h digits r | _ \<Rightarrow> [8212])"

definition rowOpen :: jstring where
  "rowOpen = [10] @ ascii ''        <tr>'' @ [10] @ ascii ''          <td>''"

definition cellBreak :: jstring where
  "cellBreak = ascii ''</td>'' @ [10] @ ascii ''          <td>''"

definition rowClose :: jstring where
  "rowClose = ascii ''</td>'' @ [10] @ ascii ''        </tr>''"

definition keywordRow :: "host \<Rightarrow> keyword \<Rightarrow> jstring" where
  "keywordRow h item =
     rowOpen @ escapeHtml h (Some (JStr (label item))) @ cellBreak @ source item @
     cellBreak @ weightCell h 3 (weight item) @ rowClose"

definition keywordsTable :: "host \<Rightarrow> keyword list \<Rightarrow> jstring" where
  "keywordsTable h keywords = concat (map (keywordRow h) keywords)"

subsection \<open>MeaningCloud (src/Lab5/app.js, lines 488 to 604)\<close>

record topic =
  topicLabel :: jsval
  topicSource :: jsval
  relevance :: jsnum

text \<open>\<open>(v || []).map(f)\<close>: only an array has \<open>map\<close>.\<close>

definition mapOrEmpty :: "(json \<Rightarrow> js_error + 'b) \<Rightarrow> jsval \<Rightarrow> js_error + 'b list" where
  "mapOrEmpty f v =
     (if \<not> truthy v then Inr []
      else (case v of Some (JArr xs) \<Rightarrow> mapE f xs | _ \<Rightarrow> Inl TypeError))"

definition conceptOf :: "host \<Rightarrow> json \<Rightarrow> js_error + topic" where
  "conceptOf h item =
     bindE (getProp (Some item) (ascii ''form'')) (\<lambda>form.
     bindE (getProp (Some item) (ascii ''relevance'')) (\<lambda>r.
     bindE (numberOrZero h r) (\<lambda>n.
       Inr \<lparr> topicLabel = form, topicSource = Some (JStr (ascii ''Concept'')),
             relevance = n \<rparr>)))"

definition entityOf :: "host \<Rightarrow> json \<Rightarrow> js_error + topic" where
  "entityOf h item =
     bindE (getProp (Some item) (ascii ''form'')) (\<lambda>form.
     bindE (getProp (Some item) (ascii ''sementity'')) (\<lambda>sementity.
     bindE (if sementity = None \<or> sementity = Some JNull then Inr None
            else getProp sementity (ascii ''type'')) (\<lambda>ty.
     bindE (getProp (Some item) (ascii ''relevance'')) (\<lambda>r.
     bindE (numberOrZero h r) (\<lambda>n.
       Inr \<lparr> topicLabel = form, topicSource = orElse ty (Some (JStr (ascii ''Entity''))),
             relevance = n \<rparr>)))))"

text \<open>
  The items in the order \<open>extractKeywords\<close> builds them (lines 589 to 603): the concepts,
  then the entities, each list in the order of its array.
\<close>

definition topicItems :: "host \<Rightarrow> json \<Rightarrow> js_error + topic list" where
  "topicItems h data =
     bindE (getProp (Some data) (ascii ''concept_list'')) (\<lambda>cl.
     bindE (mapOrEmpty (conceptOf h) cl) (\<lambda>concepts.
     bindE (getProp (Some data) (ascii ''entity_list'')) (\<lambda>el.
     bindE (mapOrEmpty (entityOf h) el) (\<lambda>entities.
       Inr (filter (\<lambda>item. truthy (topicLabel item)) (concepts @ entities))))))"

text \<open>\<open>item.form\<close>, the label of an item of either list.\<close>

definition formOf :: "json \<Rightarrow> jsval" where
  "formOf item = (case getProp (Some item) (ascii ''form'') of Inr v \<Rightarrow> v | Inl e \<Rightarrow> None)"

definition extractKeywordsMeaningCloud :: "host \<Rightarrow> json \<Rightarrow> js_error + topic list" where
  "extractKeywordsMeaningCloud h data =
     bindE (topicItems h data) (\<lambda>items.
       Inr (jsSort (\<lambda>a b. numSub (relevance b) (relevance a)) items))"

definition topicRow :: "host \<Rightarrow> topic \<Rightarrow> jstring" where
  "topicRow h item =
     rowOpen @ escapeHtml h (topicLabel item) @ cellBreak @ escapeHtml h (topicSource item) @
     cellBreak @ weightCell h 2 (relevance item) @ rowClose"

definition topicsTable :: "host \<Rightarrow> topic list \<Rightarrow> jstring" where
  "topicsTable h keywords = concat (map (topicRow h) keywords)"

section \<open>A host for the worked examples\<close>

text \<open>
  The closed examples below need one concrete platform. This one is exact on what they
  give it: ASCII text to encode, decimal numbers of a few digits to print and to round,
  words of lower-case Latin letters to collate. It knows no dates and reads only
  integers from strings.
\<close>

definition hexDigit :: "nat \<Rightarrow> code_unit" where
  "hexDigit n = (if n < 10 then of_nat (48 + n) else of_nat (55 + n))"

definition isUnreserved :: "code_unit \<Rightarrow> bool" where
  "isUnreserved c =
     (isDigit c \<or> (65 \<le> c \<and> c \<le> 90) \<or> (97 \<le> c \<and> c \<le> 122) \<or> c \<in> set [42, 45, 46, 95])"

definition encodeUnit :: "code_unit \<Rightarrow> jstring" where
  "encodeUnit c =
     (if isUnreserved c then [c]
      else if c = 32 then [43]
      else [37, hexDigit (unat c div 16), hexDigit (unat c mod 16)])"

definition sampleUrlEncode :: "jstring \<Rightarrow> jstring" where
  "sampleUrlEncode s = concat (map encodeUnit s)"

fun fracDigits :: "nat \<Rightarrow> rat \<Rightarrow> jstring" where
  "fracDigits 0 f = []"
| "fracDigits (Suc n) f =
     (if f = 0 then []
      else of_nat (48 + nat \<lfloor>f * 10\<rfloor>) # fracDigits n (f * 10 - of_int \<lfloor>f * 10\<rfloor>))"

definition sampleFraction :: "rat \<Rightarrow> jstring" where
  "sampleFraction r =
     (if r < 0 then [45] else []) @ natDigits (nat \<lfloor>\<bar>r\<bar>\<rfloor>) @ [46] @
     fracDigits 17 (\<bar>r\<bar> - of_int \<lfloor>\<bar>r\<bar>\<rfloor>)"

text \<open>\<open>toFixed\<close>: the nearest multiple of \<open>10^-d\<close>, the larger one on a tie.\<close>

definition sampleToFixed :: "nat \<Rightarrow> rat \<Rightarrow> jstring" where
  "sampleToFixed d r =
     (let n = nat \<lfloor>\<bar>r\<bar> * 10 ^ d + 1 / 2\<rfloor>;
          fd = natDigits (n mod 10 ^ d)
      in (if r < 0 then [45] else []) @ natDigits (n div 10 ^ d) @
         (if d = 0 then [] else [46] @ replicate (d - length fd) 48 @ fd))"

definition sampleStringToNumber :: "jstring \<Rightarrow> jsnum" where
  "sampleStringToNumber s =
     (let t = trim s in
      if t = [] then Fin 0
      else if list_all isDigit t then Fin (of_nat (digitsValue t))
      else NaN)"

fun lexCompare :: "jstring \<Rightarrow> jstring \<Rightarrow> int" where
  "lexCompare [] [] = 0"
| "lexCompare [] (y # ys) = - 1"
| "lexCompare (x # xs) [] = 1"
| "lexCompare (x # xs) (y # ys) =
     (if x < y then - 1 else if y < x then 1 else lexCompare xs ys)"

definition sampleHost :: host where
  "sampleHost =
     \<lparr> fractionToString = sampleFraction, stringToNumber = sampleStringToNumber,
       toFixed = sampleToFixed, localeCompareRu = lexCompare,
       dateToLocaleString = (\<lambda>v. None), urlEncode = sampleUrlEncode \<rparr>"

text \<open>
  Two submissions in quick succession on a fresh page of the NASA lab, and a form the
  handler refuses: its query is blank.
\<close>

definition moonForm :: form_state where
  "moonForm = \<lparr> searchInput = ascii '' moon '', mediaTypeSelect = ascii ''all'',
                yearInput = ascii ''2020'' \<rparr>"

definition marsForm :: form_state where
  "marsForm = \<lparr> searchInput = ascii ''mars'', mediaTypeSelect = ascii ''image'',
                yearInput = [] \<rparr>"

definition blankForm :: form_state where
  "blankForm = \<lparr> searchInput = ascii ''  '', mediaTypeSelect = ascii ''all'',
                 yearInput = [] \<rparr>"

definition twoSubmissions :: nasa_page where
  "twoSubmissions = run sampleHost [Submit moonForm, Submit marsForm] (initialPage [])"

text \<open>Fresh pages of the places lab and of the weather lab, the city typed in.\<close>

definition freshGeoPage :: geo_page where
  "freshGeoPage = \<lparr> geoStatusText = [], geoStatusTone = ascii ''info'',
                     submitDisabled = False, geoRequests = [] \<rparr>"

definition freshWeatherPage :: weather_page where
  "freshWeatherPage =
     \<lparr> apiKeyInput = [], cityInput = ascii ''Moscow'', metricSelect = ascii ''temp'',
       metricOptions = metricKeys, weatherStatus = [], weatherStatusColor = [],
       formLoading = False, weatherRequests = [], lastForecast = [],
       storageItems = Map.empty, storageDenied = False, consoleWarnings = 0 \<rparr>"

text \<open>
  A submission of the weather lab, the body that answers it, and the page of the next
  load: a fresh page over the store the submission left.
\<close>

definition weatherSubmission :: weather_page where
  "weatherSubmission =
     freshWeatherPage\<lparr> apiKeyInput := ascii ''k1'', cityInput := ascii '' Kazan '',
                       metricSelect := ascii ''temp_max'' \<rparr>"

definition forecastBody :: json where
  "forecastBody = JObj [(ascii ''list'', JArr [])]"

definition afterForecast :: weather_page where
  "afterForecast =
     persistPreferences (ascii ''k1'') (ascii ''Kazan'')
       ((handleSubmitWeather sampleHost weatherSubmission)\<lparr> lastForecast := [] \<rparr>)"

definition reloadedPage :: weather_page where
  "reloadedPage = freshWeatherPage\<lparr> storageItems := storageItems afterForecast \<rparr>"

text \<open>A body of the NASA API with one item, and the traffic that answers both calls.\<close>

definition samplePayload :: json where
  "samplePayload =
     JObj [(ascii ''collection'', JObj
       [(ascii ''items'', JArr
          [JObj [(ascii ''data'', JArr [JObj [(ascii ''title'', JStr (ascii ''Mars'')),
                                            (ascii ''nasa_id'', JStr (ascii ''PIA1''))]]),
                 (ascii ''links'', JArr [JObj [(ascii ''href'', JStr (ascii ''http://x/1.jpg'')),
                                             (ascii ''render'', JStr (ascii ''image''))]])]]),
        (ascii ''metadata'', JObj [(ascii ''total_hits'', JNum (Fin 1))])])]"

definition sampleTraffic :: "event list" where
  "sampleTraffic =
     [Network 0 (Response True 200), Network 1 (Response True 200),
      Network 0 (Body (Some samplePayload)), Network 1 (Body (Some samplePayload))]"

text \<open>
  A submission, then a refused one, then the reply to the call of the first.
\<close>

definition refusedSecond :: nasa_page where
  "refusedSecond =
     run sampleHost
       [Submit moonForm, Submit blankForm, Network 0 (Response True 200),
        Network 0 (Body (Some samplePayload))]
       (initialPage [])"

text \<open>A Twinword body: five keywords, out of order, two ties, one weight missing.\<close>

definition sampleKeywords :: json where
  "sampleKeywords =
     JObj [(ascii ''keyword'', JObj
       [(ascii ''a'', JNum (Fin 1)), (ascii ''b'', JNum (Fin 3)), (ascii ''c'', JStr (ascii ''3'')),
        (ascii ''d'', JNull), (ascii ''<e>'', JNum (Fin 1))])]"

definition twinword :: "string \<Rightarrow> rat \<Rightarrow> keyword" where
  "twinword l w = \<lparr> label = ascii l, weight = Fin w, source = ascii ''Twinword'' \<rparr>"

text \<open>A Twinword body of three keywords of one weight; two of the names are array indices.\<close>

definition tiedKeywords :: json where
  "tiedKeywords =
     JObj [(ascii ''keyword'', JObj
       [(ascii ''b'', JNum (Fin 1)), (ascii ''10'', JNum (Fin 1)), (ascii ''9'', JNum (Fin 1))])]"

text \<open>A MeaningCloud body: one concept, two entities, a tie between the lists.\<close>

definition sampleTopics :: json where
  "sampleTopics =
     JObj [(ascii ''concept_list'', JArr
             [JObj [(ascii ''form'', JStr (ascii ''orbit'')), (ascii ''relevance'', JNum (Fin 50))]]),
           (ascii ''entity_list'', JArr
             [JObj [(ascii ''form'', JStr (ascii ''Gagarin'')),
                    (ascii ''relevance'', JStr (ascii ''100'')),
                    (ascii ''sementity'', JObj [(ascii ''type'', JStr (ascii ''Person''))])],
              JObj [(ascii ''form'', JStr (ascii ''Vostok'')),
                    (ascii ''relevance'', JNum (Fin 50))]])]"

definition meaningCloud :: "string \<Rightarrow> string \<Rightarrow> rat \<Rightarrow> topic" where
  "meaningCloud l s r =
     \<lparr> topicLabel = Some (JStr (ascii l)), topicSource = Some (JStr (ascii s)),
       relevance = Fin r \<rparr>"

text \<open>
  An Overpass body with two nodes of one name, 0.000001 degree of latitude apart, and
  the place of such a node.
\<close>

definition museumNode :: "rat \<Rightarrow> rat \<Rightarrow> json" where
  "museumNode i lat =
     JObj [(ascii ''type'', JStr (ascii ''node'')), (ascii ''id'', JNum (Fin i)),
           (ascii ''lat'', JNum (Fin lat)), (ascii ''lon'', JNum (Fin (75 / 2))),
           (ascii ''tags'', JObj [(ascii ''name'', JStr (ascii ''museum'')),
                                 (ascii ''tourism'', JStr (ascii ''museum''))])]"

definition twoMuseums :: json where
  "twoMuseums = JObj [(ascii ''elements'', JArr [museumNode 1 (111 / 2),
                                               museumNode 2 (55500001 / 1000000)])]"

text \<open>The same body with a third node, which repeats the name and the coordinates of the first.\<close>

definition threeMuseums :: json where
  "threeMuseums = JObj [(ascii ''elements'', JArr [museumNode 1 (111 / 2),
                                                 museumNode 2 (55500001 / 1000000),
                                                 museumNode 3 (111 / 2)])]"

definition museumPlace :: "rat \<Rightarrow> rat \<Rightarrow> place" where
  "museumPlace i lat =
     \<lparr> placeId = Some (JNum (Fin i)), placeType = Some (JStr (ascii ''node'')),
       placeLat = Some (JNum (Fin lat)), placeLon = Some (JNum (Fin (75 / 2))),
       placeName = Some (JStr (ascii ''museum'')), placeCategory = catMuseum,
       placeAddress = [],
       placeTags = Some (JObj [(ascii ''name'', JStr (ascii ''museum'')),
                               (ascii ''tourism'', JStr (ascii ''museum''))]) \<rparr>"

section \<open>Properties\<close>

subsection \<open>Strings\<close>

lemma trim_length: "length (trim s) \<le> length s"
proof -
  have "length (dropWhile isWhiteSpace (rev (dropWhile isWhiteSpace s)))
          \<le> length (rev (dropWhile isWhiteSpace s))"
    by (rule length_dropWhile_le)
  also have "\<dots> \<le> length s"
    by (simp add: length_dropWhile_le)
  finally show ?thesis
    by (simp add: trim_def)
qed

lemma trim_ends:
  "trim s = [] \<or> (\<not> isWhiteSpace (hd (trim s)) \<and> \<not> isWhiteSpace (last (trim s)))"
proof (cases "trim s = []")
  case True
  then show ?thesis by simp
next
  case False
  let ?d = "dropWhile isWhiteSpace s"
  let ?e = "dropWhile isWhiteSpace (rev ?d)"
  have e: "?e \<noteq> []"
    using False by (simp add: trim_def)
  then have he: "\<not> isWhiteSpace (hd ?e)"
    by (rule hd_dropWhile)
  have last: "last (trim s) = hd ?e"
    using e by (simp add: trim_def last_rev)
  have "?d \<noteq> []"
  proof
    assume a: "?d = []"
    have "?e = []" unfolding a by simp
    with e show False by simp
  qed
  then have hd: "\<not> isWhiteSpace (hd ?d)"
    by (rule hd_dropWhile)
  obtain pre where pre: "rev ?d = pre @ ?e"
    by (metis takeWhile_dropWhile_id)
  then have "?d = rev ?e @ rev pre"
    by (metis rev_append rev_rev_ident)
  then have "hd ?d = hd (rev ?e)"
    using e by (metis hd_append2 rev_is_Nil_conv)
  then have "\<not> isWhiteSpace (hd (trim s))"
    using hd by (simp add: trim_def)
  with he last show ?thesis by simp
qed

text \<open>Unfolding the text primitives and the year check on concrete input.\<close>

lemmas text_eval = trim_def ascii_def isWhiteSpace_def isDigit_def digitsValue_def
  parseInt10_def yearFilter_def intToString_def natDigits.simps

lemmas sample_forms = moonForm_def marsForm_def text_eval

subsection \<open>The NASA lab: errors and truncation\<close>

text \<open>
  Claim C8. A cancelled call is a silent no-op: \<open>handleError\<close> returns the page as it
  is for an error named AbortError, and whatever the network delivers to a call whose
  signal is aborted changes neither the status text, nor the console, nor the results.
\<close>

theorem handleError_abort_silent:
  "(errorName error = ascii ''AbortError'' \<longrightarrow> handleError error s = s) \<and>
   (rid < length (calls s) \<and> aborted (calls s ! rid) \<longrightarrow>
      statusText (deliver h rid ev s) = statusText s \<and>
      consoleErrors (deliver h rid ev s) = consoleErrors s \<and>
      results (deliver h rid ev s) = results s \<and>
      renderLog (deliver h rid ev s) = renderLog s)"
  by (simp add: handleError_def deliver_def setPhase_def Let_def)

theorem handleError_abort_silent_witness:
  "errorName AbortError = ascii ''AbortError'' \<and>
   handleError AbortError twoSubmissions = twoSubmissions \<and>
   0 < length (calls twoSubmissions) \<and> aborted (calls twoSubmissions ! 0) \<and>
   statusText (deliver sampleHost 0 (Response True 200) twoSubmissions) = statusText twoSubmissions \<and>
   consoleErrors (deliver sampleHost 0 (Response True 200) twoSubmissions) = []"
proof -
  have a: "0 < length (calls twoSubmissions) \<and> aborted (calls twoSubmissions ! 0)"
    by (simp add: twoSubmissions_def run_def handleSubmit_def initialPage_def abort_def
        Let_def sample_forms)
  have c: "consoleErrors twoSubmissions = []"
    by (simp add: twoSubmissions_def run_def handleSubmit_def initialPage_def abort_def
        Let_def sample_forms)
  show ?thesis
    using a c handleError_abort_silent [of AbortError twoSubmissions 0 sampleHost "Response True 200"]
    by simp
qed

text \<open>
  Claim C9, as amended. \<open>truncate\<close> returns the placeholder of line 33 for the empty text
  and for a missing one, and a text of 1 to 200 code units unchanged. For a longer text
  it returns a prefix of the text of fewer than 200 code units, stripped of white space
  at both ends, followed by the marker of three full stops.
\<close>

theorem truncate_text:
  "truncateText h (Some (JStr [])) 200 = Inr (Some (JStr noDescription)) \<and>
   truncateText h None 200 = Inr (Some (JStr noDescription)) \<and>
   (t \<noteq> [] \<and> length t \<le> 200 \<longrightarrow> truncateText h (Some (JStr t)) 200 = Inr (Some (JStr t))) \<and>
   (200 < length t \<longrightarrow>
      (\<exists>n kept. n < 200 \<and> kept = trim (take n t) \<and>
         truncateText h (Some (JStr t)) 200 = Inr (Some (JStr (kept @ ascii ''...''))) \<and>
         (kept = [] \<or> \<not> isWhiteSpace (hd kept) \<and> \<not> isWhiteSpace (last kept))))"
proof -
  have 1: "truncateText h (Some (JStr [])) 200 = Inr (Some (JStr noDescription))"
    by (simp add: truncateText_def)
  have 2: "truncateText h None 200 = Inr (Some (JStr noDescription))"
    by (simp add: truncateText_def)
  have 3: "t \<noteq> [] \<and> length t \<le> 200 \<longrightarrow> truncateText h (Some (JStr t)) 200 = Inr (Some (JStr t))"
    by (simp add: truncateText_def bindE_def toNumberE_def toNumber_def)
  have 4: "\<exists>n kept. n < 200 \<and> kept = trim (take n t) \<and>
         truncateText h (Some (JStr t)) 200 = Inr (Some (JStr (kept @ ascii ''...''))) \<and>
         (kept = [] \<or> \<not> isWhiteSpace (hd kept) \<and> \<not> isWhiteSpace (last kept))"
    if long: "200 < length t"
  proof -
    from long have ne: "t \<noteq> []"
      by auto
    from long ne
    have "truncateText h (Some (JStr t)) 200 = Inr (Some (JStr (trim (take 199 t) @ ascii ''...'')))"
      by (simp add: truncateText_def bindE_def toNumberE_def toNumber_def slice0_def)
    with trim_ends [of "take 199 t"] show ?thesis
      by (intro exI [of _ 199] exI [of _ "trim (take 199 t)"]) simp
  qed
  from 1 2 3 4 show ?thesis
    by blast
qed

theorem truncate_text_witness:
  "truncateText sampleHost (Some (JStr (ascii ''Apollo 11''))) 200 =
     Inr (Some (JStr (ascii ''Apollo 11''))) \<and>
   (\<exists>n kept. n < 200 \<and> kept = trim (take n (replicate 250 97)) \<and>
      truncateText sampleHost (Some (JStr (replicate 250 97))) 200 =
        Inr (Some (JStr (kept @ ascii ''...''))))"
  using truncate_text [of sampleHost "ascii ''Apollo 11''"]
    truncate_text [of sampleHost "replicate 250 97"]
  by (simp add: ascii_def) blast

text \<open>
  The claim as the specification states it fails on the empty text, which has at most
  200 characters and is not returned unchanged.
\<close>

theorem truncate_text_counterexample:
  "length ([] :: jstring) \<le> 200 \<and>
   truncateText sampleHost (Some (JStr [])) 200 = Inr (Some (JStr noDescription)) \<and>
   truncateText sampleHost (Some (JStr [])) 200 \<noteq> Inr (Some (JStr []))"
  by (simp add: truncateText_def noDescription_def)

subsection \<open>The NASA lab: one live call\<close>

lemma handleError_frame [simp]:
  "calls (handleError e s) = calls s" "activeController (handleError e s) = activeController s"
  "results (handleError e s) = results s" "renderLog (handleError e s) = renderLog s"
  by (simp_all add: handleError_def)

lemma setPhase_frame [simp]:
  "activeController (setPhase rid p s) = activeController s"
  "results (setPhase rid p s) = results s" "renderLog (setPhase rid p s) = renderLog s"
  "calls (setPhase rid p s) = (calls s)[rid := (calls s ! rid)\<lparr> callPhase := p \<rparr>]"
  by (simp_all add: setPhase_def)

lemma processPayload_frame [simp]:
  "calls (processPayload h rid payload s) = calls s"
  "activeController (processPayload h rid payload s) = activeController s"
  by (simp_all add: processPayload_def Let_def split: sum.splits)

lemma processPayload_render:
  "(results (processPayload h rid payload s) = results s \<and>
    renderLog (processPayload h rid payload s) = renderLog s) \<or>
   (\<exists>cards. results (processPayload h rid payload s) = results s @ cards \<and>
            renderLog (processPayload h rid payload s) = renderLog s @ [(rid, cards)])"
  by (simp add: processPayload_def Let_def split: sum.splits)

lemma deliver_active [simp]: "activeController (deliver h rid ev s) = activeController s"
  by (simp add: deliver_def Let_def split: phase.splits fetch_event.splits option.splits)

lemma deliver_length [simp]: "length (calls (deliver h rid ev s)) = length (calls s)"
  by (simp add: deliver_def Let_def split: phase.splits fetch_event.splits option.splits)

lemma deliver_other: "i \<noteq> rid \<Longrightarrow> calls (deliver h rid ev s) ! i = calls s ! i"
  by (simp add: deliver_def Let_def split: phase.splits fetch_event.splits option.splits)

lemma deliver_aborted [simp]:
  "i < length (calls s) \<Longrightarrow> aborted (calls (deliver h rid ev s) ! i) = aborted (calls s ! i)"
  by (cases "i = rid")
     (simp_all add: deliver_def Let_def split: phase.splits fetch_event.splits option.splits)

lemma deliver_finished:
  "i < length (calls s) \<Longrightarrow> callPhase (calls s ! i) = Finished \<Longrightarrow>
   callPhase (calls (deliver h rid ev s) ! i) = Finished"
  by (cases "i = rid")
     (simp_all add: deliver_def Let_def split: phase.splits fetch_event.splits option.splits)

lemma deliver_live: "live (deliver h rid ev s) i \<Longrightarrow> live s i"
  unfolding live_def using deliver_finished [of i s h rid ev] by auto

lemma deliver_not_live:
  "\<not> live s rid \<Longrightarrow>
   results (deliver h rid ev s) = results s \<and> renderLog (deliver h rid ev s) = renderLog s"
  by (auto simp: deliver_def live_def Let_def)

lemma deliver_unfold:
  "live s rid \<Longrightarrow> deliver h rid ev s =
     (case (callPhase (calls s ! rid), ev) of
        (AwaitingResponse, NetworkFailure) \<Rightarrow> handleError TypeError (setPhase rid Finished s)
      | (AwaitingResponse, Response ok code) \<Rightarrow>
          if \<not> ok
          then handleError (Error (ascii ''Unexpected response '' @ natDigits code))
                 (setPhase rid Finished s)
          else setPhase rid ReadingBody s
      | (ReadingBody, NetworkFailure) \<Rightarrow> handleError TypeError (setPhase rid Finished s)
      | (ReadingBody, Body None) \<Rightarrow> handleError SyntaxError (setPhase rid Finished s)
      | (ReadingBody, Body (Some payload)) \<Rightarrow>
          processPayload h rid payload (setPhase rid Finished s)
      | _ \<Rightarrow> s)"
  by (simp add: deliver_def live_def Let_def)

lemma deliver_render:
  assumes "live s rid"
  shows "\<exists>new. renderLog (deliver h rid ev s) = renderLog s @ new \<and>
           results (deliver h rid ev s) = results s @ concat (map snd new) \<and>
           length new \<le> 1 \<and> (\<forall>e \<in> set new. fst e = rid) \<and>
           (new \<noteq> [] \<longrightarrow> \<not> live (deliver h rid ev s) rid)"
proof -
  let ?done = "setPhase rid Finished s"
  have l: "rid < length (calls s)" "\<not> aborted (calls s ! rid)" "callPhase (calls s ! rid) \<noteq> Finished"
    using assms by (simp_all add: live_def)
  have "(results (deliver h rid ev s) = results s \<and> renderLog (deliver h rid ev s) = renderLog s) \<or>
        (\<exists>payload. deliver h rid ev s = processPayload h rid payload ?done)"
    unfolding deliver_unfold [OF assms]
    by (cases "callPhase (calls s ! rid)"; cases ev) (auto split: option.splits)
  then consider (same) "results (deliver h rid ev s) = results s" "renderLog (deliver h rid ev s) = renderLog s"
    | (pay) payload where "deliver h rid ev s = processPayload h rid payload ?done"
    by blast
  then show ?thesis
  proof cases
    case same
    then show ?thesis by (intro exI [of _ "[]"]) simp
  next
    case pay
    have nl: "\<not> live (deliver h rid ev s) rid"
      unfolding pay using l by (simp add: live_def)
    from processPayload_render [of h rid payload ?done]
    show ?thesis
    proof
      assume "results (processPayload h rid payload ?done) = results ?done \<and>
              renderLog (processPayload h rid payload ?done) = renderLog ?done"
      then show ?thesis unfolding pay by (intro exI [of _ "[]"]) simp
    next
      assume "\<exists>cards. results (processPayload h rid payload ?done) = results ?done @ cards \<and>
              renderLog (processPayload h rid payload ?done) = renderLog ?done @ [(rid, cards)]"
      then obtain cards where
        c: "results (processPayload h rid payload ?done) = results ?done @ cards"
           "renderLog (processPayload h rid payload ?done) = renderLog ?done @ [(rid, cards)]"
        by blast
      show ?thesis
        using c nl unfolding pay by (intro exI [of _ "[(rid, cards)]"]) simp
    qed
  qed
qed

lemma initialPage_not_live: "\<not> live (initialPage st) i"
  by (simp add: live_def initialPage_def)

lemma abort_frame [simp]:
  "length (calls (abort c s)) = length (calls s)"
  "activeController (abort c s) = activeController s"
  "results (abort c s) = results s" "renderLog (abort c s) = renderLog s"
  by (simp_all add: abort_def)

lemma live_abort: "live (abort c s) i = (live s i \<and> i \<noteq> c)"
  by (cases "i = c") (auto simp: abort_def live_def)

lemma aborted_abort:
  "i < length (calls s) \<Longrightarrow> aborted (calls (abort c s) ! i) = (aborted (calls s ! i) \<or> i = c)"
  by (cases "i = c") (auto simp: abort_def)

lemma callUrl_abort: "callUrl (calls (abort c s) ! i) = callUrl (calls s ! i)"
  by (cases "i = c"; cases "c < length (calls s)") (auto simp: abort_def)

lemma handleSubmit_rejected:
  "\<not> accepted f \<Longrightarrow>
   calls (handleSubmit h f s) = calls s \<and> activeController (handleSubmit h f s) = activeController s \<and>
   results (handleSubmit h f s) = results s \<and> renderLog (handleSubmit h f s) = renderLog s"
  by (auto simp: accepted_def handleSubmit_def Let_def)

lemma handleSubmit_accepted:
  assumes "accepted f"
  shows "\<exists>year. yearFilter (trim (yearInput f)) = Some year \<and>
     handleSubmit h f s =
       (case activeController s of Some c \<Rightarrow> abort c s | None \<Rightarrow> s)
         \<lparr> activeController := Some (length (calls s)), statusText := msgLoading, results := [],
           calls := calls (case activeController s of Some c \<Rightarrow> abort c s | None \<Rightarrow> s) @
             [\<lparr> callUrl = buildQuery h (trim (searchInput f)) (mediaTypeSelect f) year,
                aborted = False, callPhase = AwaitingResponse \<rparr>] \<rparr>"
  using assms by (auto simp: accepted_def handleSubmit_def Let_def split: option.splits)

lemma submit_accepted_state:
  assumes inv: "\<forall>i. live s i \<longrightarrow> activeController s = Some i" and acc: "accepted f"
  shows "length (calls (handleSubmit h f s)) = Suc (length (calls s))"
    and "live (handleSubmit h f s) i = (i = length (calls s))"
    and "activeController (handleSubmit h f s) = Some (length (calls s))"
    and "results (handleSubmit h f s) = []"
    and "renderLog (handleSubmit h f s) = renderLog s"
    and "i < length (calls s) \<Longrightarrow> aborted (calls s ! i) \<or> live s i \<Longrightarrow>
           aborted (calls (handleSubmit h f s) ! i)"
    and "\<exists>year. yearFilter (trim (yearInput f)) = Some year \<and>
           callUrl (calls (handleSubmit h f s) ! length (calls s)) =
             buildQuery h (trim (searchInput f)) (mediaTypeSelect f) year"
    and "i < length (calls s) \<Longrightarrow>
           callUrl (calls (handleSubmit h f s) ! i) = callUrl (calls s ! i)"
proof -
  let ?s1 = "case activeController s of Some c \<Rightarrow> abort c s | None \<Rightarrow> s"
  obtain year where y: "yearFilter (trim (yearInput f)) = Some year"
    and eq: "handleSubmit h f s =
       ?s1\<lparr> activeController := Some (length (calls s)), statusText := msgLoading, results := [],
           calls := calls ?s1 @
             [\<lparr> callUrl = buildQuery h (trim (searchInput f)) (mediaTypeSelect f) year,
                aborted = False, callPhase = AwaitingResponse \<rparr>] \<rparr>"
    using handleSubmit_accepted [OF acc] by blast
  have len: "length (calls ?s1) = length (calls s)"
    by (simp split: option.splits)
  have dead: "\<not> live ?s1 j" for j
    using inv by (auto simp: live_abort split: option.splits)
  show "length (calls (handleSubmit h f s)) = Suc (length (calls s))"
    unfolding eq by (simp add: len)
  show "live (handleSubmit h f s) i = (i = length (calls s))"
  proof (cases "i < length (calls s)")
    case True
    then have "live (handleSubmit h f s) i = live ?s1 i"
      unfolding eq by (simp add: live_def len nth_append)
    with dead True show ?thesis by simp
  next
    case False
    then show ?thesis unfolding eq by (auto simp: live_def len nth_append)
  qed
  show "activeController (handleSubmit h f s) = Some (length (calls s))"
    unfolding eq by simp
  show "results (handleSubmit h f s) = []"
    unfolding eq by simp
  show "renderLog (handleSubmit h f s) = renderLog s"
    unfolding eq by (simp split: option.splits)
  show "aborted (calls (handleSubmit h f s) ! i)"
    if lt: "i < length (calls s)" and a: "aborted (calls s ! i) \<or> live s i"
  proof -
    have "aborted (calls ?s1 ! i)"
    proof (cases "activeController s")
      case None
      with inv a show ?thesis by auto
    next
      case (Some c)
      with inv a lt show ?thesis by (auto simp: aborted_abort)
    qed
    then show ?thesis unfolding eq using lt by (simp add: nth_append len)
  qed
  show "\<exists>year. yearFilter (trim (yearInput f)) = Some year \<and>
           callUrl (calls (handleSubmit h f s) ! length (calls s)) =
             buildQuery h (trim (searchInput f)) (mediaTypeSelect f) year"
    using y unfolding eq by (simp add: nth_append len)
  show "callUrl (calls (handleSubmit h f s) ! i) = callUrl (calls s ! i)" if "i < length (calls s)"
    using that unfolding eq by (simp add: nth_append len callUrl_abort split: option.splits)
qed

lemma handleSubmit_inv:
  assumes inv: "\<forall>i. live s i \<longrightarrow> activeController s = Some i"
  shows "\<forall>i. live (handleSubmit h f s) i \<longrightarrow> activeController (handleSubmit h f s) = Some i"
proof (cases "accepted f")
  case True
  from submit_accepted_state(2,3) [OF inv True] show ?thesis by simp
next
  case False
  from handleSubmit_rejected [OF False, of h s] inv show ?thesis
    by (simp add: live_def)
qed

lemma step_inv:
  assumes "\<forall>i. live s i \<longrightarrow> activeController s = Some i"
  shows "\<forall>i. live (step h s e) i \<longrightarrow> activeController (step h s e) = Some i"
proof (cases e)
  case (Submit f)
  with handleSubmit_inv [OF assms] show ?thesis by simp
next
  case (Network rid ev)
  with assms deliver_live show ?thesis by auto
qed

lemma run_Cons [simp]: "run h (e # evs) s = run h evs (step h s e)"
  by (simp add: run_def)

lemma run_Nil [simp]: "run h [] s = s"
  by (simp add: run_def)

lemma run_append: "run h (xs @ ys) s = run h ys (run h xs s)"
  by (simp add: run_def)

lemma run_inv:
  "\<forall>i. live s i \<longrightarrow> activeController s = Some i \<Longrightarrow>
   \<forall>i. live (run h evs s) i \<longrightarrow> activeController (run h evs s) = Some i"
proof (induction evs arbitrary: s)
  case Nil
  then show ?case by simp
next
  case (Cons e evs)
  from Cons.IH [OF step_inv [OF Cons.prems]] show ?case by simp
qed

lemma liveCalls_at_most_one:
  assumes "\<forall>i. live s i \<longrightarrow> activeController s = Some i"
  shows "length (liveCalls s) \<le> 1"
proof (cases "activeController s")
  case None
  with assms have "liveCalls s = []"
    by (simp add: liveCalls_def filter_empty_conv)
  then show ?thesis by simp
next
  case (Some c)
  have d: "distinct (liveCalls s)"
    by (simp add: liveCalls_def)
  have "set (liveCalls s) \<subseteq> {c}"
    using assms Some by (auto simp: liveCalls_def)
  then have "card (set (liveCalls s)) \<le> card {c}"
    by (rule card_mono [rotated]) simp
  with d show ?thesis by (simp add: distinct_card)
qed

lemma deliver_url:
  "i < length (calls s) \<Longrightarrow> callUrl (calls (deliver h rid ev s) ! i) = callUrl (calls s ! i)"
  by (cases "i = rid")
     (simp_all add: deliver_def Let_def split: phase.splits fetch_event.splits option.splits)

lemma run_network_calls:
  assumes "list_all isNetwork evs"
  shows "length (calls (run h evs s)) = length (calls s) \<and>
         (\<forall>i < length (calls s).
            aborted (calls (run h evs s) ! i) = aborted (calls s ! i) \<and>
            callUrl (calls (run h evs s) ! i) = callUrl (calls s ! i))"
  using assms
proof (induction evs arbitrary: s)
  case Nil
  then show ?case by simp
next
  case (Cons e evs)
  from Cons.prems obtain rid ev where e: "e = Network rid ev" and rest: "list_all isNetwork evs"
    by (cases e) simp_all
  from Cons.IH [OF rest, of "deliver h rid ev s"] show ?case
    unfolding e by (simp add: deliver_url)
qed

lemma run_network_render:
  assumes "list_all isNetwork evs"
    and "\<forall>i. live s i \<longrightarrow> i = r"
    and "renderLog s = L @ new" and "results s = concat (map snd new)"
    and "length new \<le> 1" and "\<forall>e \<in> set new. fst e = r"
    and "new \<noteq> [] \<longrightarrow> \<not> live s r"
  shows "\<exists>new'. renderLog (run h evs s) = L @ new' \<and>
           results (run h evs s) = concat (map snd new') \<and>
           length new' \<le> 1 \<and> (\<forall>e \<in> set new'. fst e = r)"
  using assms
proof (induction evs arbitrary: s new)
  case Nil
  then show ?case by auto
next
  case (Cons e evs)
  from Cons.prems(1) obtain rid ev where e: "e = Network rid ev" and rest: "list_all isNetwork evs"
    by (cases e) simp_all
  let ?s = "deliver h rid ev s"
  have only: "\<forall>i. live ?s i \<longrightarrow> i = r"
    using Cons.prems(2) deliver_live by blast
  show ?case
  proof (cases "live s rid")
    case True
    then have rid: "rid = r" using Cons.prems(2) by simp
    with True Cons.prems(7) have empty: "new = []" by auto
    from deliver_render [OF True, of h ev] obtain new1 where
      n: "renderLog ?s = renderLog s @ new1" "results ?s = results s @ concat (map snd new1)"
         "length new1 \<le> 1" "\<forall>e \<in> set new1. fst e = rid" "new1 \<noteq> [] \<longrightarrow> \<not> live ?s rid"
      by blast
    have "\<exists>new'. renderLog (run h evs ?s) = L @ new' \<and>
           results (run h evs ?s) = concat (map snd new') \<and>
           length new' \<le> 1 \<and> (\<forall>e \<in> set new'. fst e = r)"
    proof (rule Cons.IH [OF rest only])
      show "renderLog ?s = L @ new1" using n(1) Cons.prems(3) empty by simp
      show "results ?s = concat (map snd new1)" using n(2) Cons.prems(4) empty by simp
      show "length new1 \<le> 1" by (rule n(3))
      show "\<forall>e \<in> set new1. fst e = r" using n(4) rid by simp
      show "new1 \<noteq> [] \<longrightarrow> \<not> live ?s r" using n(5) rid by simp
    qed
    then show ?thesis unfolding e by simp
  next
    case False
    from deliver_not_live [OF False, of h ev]
    have same: "results ?s = results s" "renderLog ?s = renderLog s" by simp_all
    have "\<exists>new'. renderLog (run h evs ?s) = L @ new' \<and>
           results (run h evs ?s) = concat (map snd new') \<and>
           length new' \<le> 1 \<and> (\<forall>e \<in> set new'. fst e = r)"
    proof (rule Cons.IH [OF rest only])
      show "renderLog ?s = L @ new" using same Cons.prems(3) by simp
      show "results ?s = concat (map snd new)" using same Cons.prems(4) by simp
      show "length new \<le> 1" by (rule Cons.prems(5))
      show "\<forall>e \<in> set new. fst e = r" by (rule Cons.prems(6))
      show "new \<noteq> [] \<longrightarrow> \<not> live ?s r" using Cons.prems(7) deliver_live by blast
    qed
    then show ?thesis unfolding e by simp
  qed
qed

lemma handleSubmit_rejected_live:
  assumes "\<not> accepted f"
  shows "liveCalls (handleSubmit h f s) = liveCalls s"
proof -
  from handleSubmit_rejected [OF assms, of h s]
  have "calls (handleSubmit h f s) = calls s"
    by simp
  then have "live (handleSubmit h f s) = live s"
    by (simp add: live_def fun_eq_iff)
  with \<open>calls (handleSubmit h f s) = calls s\<close> show ?thesis
    by (simp add: liveCalls_def)
qed

text \<open>
  Claim C1, as amended. Whatever the events so far, at most one call of the form is
  live. When a submission is followed, with nothing in between, by a submission that
  passes the checks of lines 171 to 185, then whatever the network delivers afterwards,
  at most one result set is rendered after them, it is the one of the second
  submission's call (the call issued for the second form's query), it is all the
  results container holds, and the call of the first submission, if that one passed the
  checks too, is aborted. A submission that fails the checks issues no call and aborts
  none: the calls and the live calls stay as they were.
\<close>

theorem single_flight:
  "length (liveCalls (run h evs0 (initialPage st))) \<le> 1 \<and>
   (accepted f2 \<and> list_all isNetwork evs \<longrightarrow>
      (\<exists>new year.
         renderLog (run h (evs0 @ Submit f1 # Submit f2 # evs) (initialPage st)) =
           renderLog (run h evs0 (initialPage st)) @ new \<and>
         results (run h (evs0 @ Submit f1 # Submit f2 # evs) (initialPage st)) =
           concat (map snd new) \<and>
         length new \<le> 1 \<and>
         (\<forall>e \<in> set new.
            fst e = length (calls (handleSubmit h f1 (run h evs0 (initialPage st))))) \<and>
         yearFilter (trim (yearInput f2)) = Some year \<and>
         callUrl (calls (run h (evs0 @ Submit f1 # Submit f2 # evs) (initialPage st)) !
                    length (calls (handleSubmit h f1 (run h evs0 (initialPage st))))) =
           buildQuery h (trim (searchInput f2)) (mediaTypeSelect f2) year \<and>
         (accepted f1 \<longrightarrow>
            length (calls (handleSubmit h f1 (run h evs0 (initialPage st)))) =
              Suc (length (calls (run h evs0 (initialPage st)))) \<and>
            aborted (calls (run h (evs0 @ Submit f1 # Submit f2 # evs) (initialPage st)) !
                       length (calls (run h evs0 (initialPage st))))))) \<and>
   (\<not> accepted f2 \<longrightarrow>
      calls (handleSubmit h f2 s) = calls s \<and>
      activeController (handleSubmit h f2 s) = activeController s \<and>
      liveCalls (handleSubmit h f2 s) = liveCalls s)"
proof -
  let ?s0 = "run h evs0 (initialPage st)"
  let ?s1 = "handleSubmit h f1 ?s0"
  let ?s2 = "handleSubmit h f2 ?s1"
  let ?s3 = "run h evs ?s2"
  let ?r1 = "length (calls ?s0)"
  let ?r2 = "length (calls ?s1)"
  have inv0: "\<forall>i. live ?s0 i \<longrightarrow> activeController ?s0 = Some i"
    by (rule run_inv) (simp add: initialPage_not_live)
  have first: "length (liveCalls ?s0) \<le> 1"
    by (rule liveCalls_at_most_one [OF inv0])
  have second: "\<exists>new year.
         renderLog ?s3 = renderLog ?s0 @ new \<and> results ?s3 = concat (map snd new) \<and>
         length new \<le> 1 \<and> (\<forall>e \<in> set new. fst e = ?r2) \<and>
         yearFilter (trim (yearInput f2)) = Some year \<and>
         callUrl (calls ?s3 ! ?r2) =
           buildQuery h (trim (searchInput f2)) (mediaTypeSelect f2) year \<and>
         (accepted f1 \<longrightarrow> ?r2 = Suc ?r1 \<and> aborted (calls ?s3 ! ?r1))"
    if a2: "accepted f2" and net: "list_all isNetwork evs"
  proof -
    have inv1: "\<forall>i. live ?s1 i \<longrightarrow> activeController ?s1 = Some i"
      by (rule handleSubmit_inv [OF inv0])
    have len2: "length (calls ?s2) = Suc ?r2"
      by (rule submit_accepted_state(1) [OF inv1 a2])
    have live2: "\<forall>i. live ?s2 i \<longrightarrow> i = ?r2"
      using submit_accepted_state(2) [OF inv1 a2, of h] by simp
    have res2: "results ?s2 = []"
      by (rule submit_accepted_state(4) [OF inv1 a2])
    have log1: "renderLog ?s1 = renderLog ?s0"
    proof (cases "accepted f1")
      case True
      then show ?thesis by (rule submit_accepted_state(5) [OF inv0])
    next
      case False
      from handleSubmit_rejected [OF False, of h ?s0] show ?thesis by simp
    qed
    have log2: "renderLog ?s2 = renderLog ?s0"
      using submit_accepted_state(5) [OF inv1 a2, of h] log1 by simp
    obtain year where y: "yearFilter (trim (yearInput f2)) = Some year"
      and url2: "callUrl (calls ?s2 ! ?r2) =
                   buildQuery h (trim (searchInput f2)) (mediaTypeSelect f2) year"
      using submit_accepted_state(7) [OF inv1 a2, of h] by auto
    from run_network_calls [OF net, of h ?s2] len2
    have same: "\<forall>i < Suc ?r2. aborted (calls ?s3 ! i) = aborted (calls ?s2 ! i) \<and>
                  callUrl (calls ?s3 ! i) = callUrl (calls ?s2 ! i)"
      by simp
    then have url3: "callUrl (calls ?s3 ! ?r2) = callUrl (calls ?s2 ! ?r2)"
      by simp
    have ab3: "?r2 = Suc ?r1 \<and> aborted (calls ?s3 ! ?r1)" if a1: "accepted f1"
    proof -
      have len1: "?r2 = Suc ?r1"
        by (rule submit_accepted_state(1) [OF inv0 a1])
      have live1: "live ?s1 ?r1"
        using submit_accepted_state(2) [OF inv0 a1, of h ?r1] by simp
      have "aborted (calls ?s2 ! ?r1)"
        by (rule submit_accepted_state(6) [OF inv1 a2]) (use len1 live1 in simp_all)
      with same len1 show ?thesis
        by simp
    qed
    from run_network_render [OF net live2, of "renderLog ?s0" "[]" h]
    obtain new where "renderLog ?s3 = renderLog ?s0 @ new" "results ?s3 = concat (map snd new)"
      "length new \<le> 1" "\<forall>e \<in> set new. fst e = ?r2"
      using res2 log2 by auto
    with y url2 url3 ab3 show ?thesis
      by (intro exI [of _ new] exI [of _ year]) simp
  qed
  have third: "calls (handleSubmit h f2 s) = calls s \<and>
      activeController (handleSubmit h f2 s) = activeController s \<and>
      liveCalls (handleSubmit h f2 s) = liveCalls s" if "\<not> accepted f2"
    using handleSubmit_rejected [OF that, of h s] handleSubmit_rejected_live [OF that, of h s]
    by simp
  have eq: "run h (evs0 @ Submit f1 # Submit f2 # evs) (initialPage st) = ?s3"
    by (simp add: run_append)
  from first second third show ?thesis
    unfolding eq by blast
qed

theorem single_flight_witness:
  "accepted moonForm \<and> accepted marsForm \<and> \<not> accepted blankForm \<and>
   list_all isNetwork sampleTraffic \<and>
   length (liveCalls (run sampleHost [] (initialPage []))) \<le> 1 \<and>
   aborted (calls (run sampleHost ([] @ Submit moonForm # Submit marsForm # sampleTraffic)
                     (initialPage [])) ! 0) \<and>
   map fst (renderLog (run sampleHost ([] @ Submit moonForm # Submit marsForm # sampleTraffic)
                         (initialPage []))) = [1] \<and>
   calls (handleSubmit sampleHost blankForm twoSubmissions) = calls twoSubmissions"
proof -
  have r: "map fst (renderLog (run sampleHost ([] @ Submit moonForm # Submit marsForm # sampleTraffic)
                                 (initialPage []))) = [1]"
    by (simp add: sampleTraffic_def run_def initialPage_def handleSubmit_def deliver_def
        abort_def setPhase_def processPayload_def samplePayload_def Let_def MAX_RESULTS_def
        toStringE_def toString_def numberToString_def createCard_def truncateText_def
        bindE_def formatDate_def orElse_def handleError_def sample_forms)
  have a: "accepted moonForm \<and> accepted marsForm \<and> \<not> accepted blankForm"
    by (simp add: accepted_def blankForm_def sample_forms)
  have n: "list_all isNetwork sampleTraffic"
    by (simp add: sampleTraffic_def)
  have z: "length (calls (run sampleHost [] (initialPage []))) = 0"
    by (simp add: initialPage_def)
  from single_flight [of sampleHost "[]" "[]" marsForm sampleTraffic moonForm twoSubmissions]
    single_flight [of sampleHost "[]" "[]" blankForm sampleTraffic moonForm twoSubmissions]
    a n r
  show ?thesis
    unfolding z by blast
qed

text \<open>
  The claim as the specification states it fails when the second submission is
  refused: the call of the first is not aborted, and its result set is rendered.
\<close>

theorem second_submission_refused_counterexample:
  "map fst (renderLog refusedSecond) = [0] \<and>
   map aborted (calls refusedSecond) = [False] \<and>
   length (results refusedSecond) = 1"
  by (simp add: refusedSecond_def run_def initialPage_def handleSubmit_def deliver_def
      setPhase_def processPayload_def samplePayload_def Let_def MAX_RESULTS_def
      toStringE_def toString_def numberToString_def createCard_def truncateText_def
      bindE_def formatDate_def orElse_def handleError_def moonForm_def blankForm_def
      text_eval)

subsection \<open>Sorting the keywords\<close>

lemma numLess_sub:
  "a \<noteq> NaN \<Longrightarrow> b \<noteq> NaN \<Longrightarrow> numLess (numSub b a) (Fin 0) = numLess b a"
  by (cases a; cases b) simp_all

lemma numLess_numLe: "numLess a b \<Longrightarrow> numLe a b"
  by (cases a; cases b) simp_all

lemma not_numLess_numLe: "a \<noteq> NaN \<Longrightarrow> b \<noteq> NaN \<Longrightarrow> \<not> numLess a b \<Longrightarrow> numLe b a"
  by (cases a; cases b) simp_all

lemma numLe_trans: "numLe a b \<Longrightarrow> numLe b c \<Longrightarrow> numLe a c"
  by (cases a; cases b; cases c) simp_all

lemma numLe_numLess_neq: "numLe a b \<Longrightarrow> numLess b c \<Longrightarrow> a \<noteq> c"
  by (cases a; cases b; cases c) simp_all

lemma numberOrZero_not_NaN: "numberOrZero h v = Inr n \<Longrightarrow> n \<noteq> NaN"
  by (auto simp: numberOrZero_def bindE_def split: sum.splits if_splits)

lemma set_insertPivot [simp]: "set (insertPivot cmp p es) = insert p (set es)"
  by (induction es) auto

lemma length_insertPivot [simp]: "length (insertPivot cmp p es) = Suc (length es)"
  by (induction es) auto

lemma set_sortFrom [simp]: "set (sortFrom cmp placed ps) = set placed \<union> set ps"
  by (induction ps arbitrary: placed) auto

lemma length_sortFrom [simp]: "length (sortFrom cmp placed ps) = length placed + length ps"
  by (induction ps arbitrary: placed) auto

lemma sorted_insertPivot:
  assumes "\<forall>y \<in> set (p # es). w y \<noteq> NaN"
    and "sorted_wrt (\<lambda>a b. numLe (w b) (w a)) es"
  shows "sorted_wrt (\<lambda>a b. numLe (w b) (w a)) (insertPivot (\<lambda>a b. numSub (w b) (w a)) p es)"
  using assms
proof (induction es)
  case Nil
  then show ?case by simp
next
  case (Cons e es)
  have nn: "w p \<noteq> NaN" "w e \<noteq> NaN" using Cons.prems(1) by simp_all
  show ?case
  proof (cases "numLess (w e) (w p)")
    case True
    then have le: "numLe (w e) (w p)" by (rule numLess_numLe)
    have "numLe (w z) (w p)" if "z \<in> set es" for z
      using that Cons.prems(2) le numLe_trans by auto
    with True le Cons.prems(2) show ?thesis
      by (simp add: numLess_sub nn)
  next
    case False
    then have le: "numLe (w p) (w e)" by (rule not_numLess_numLe [OF nn(2,1)])
    with False Cons show ?thesis
      by (simp add: numLess_sub nn)
  qed
qed

lemma filter_cons_snoc: "filter P ys = [] \<Longrightarrow> filter P (p # ys) = filter P (ys @ [p])"
  by simp

lemma filter_insertPivot:
  assumes "\<forall>y \<in> set (p # es). w y \<noteq> NaN"
    and "sorted_wrt (\<lambda>a b. numLe (w b) (w a)) es"
  shows "filter (\<lambda>y. w y = k) (insertPivot (\<lambda>a b. numSub (w b) (w a)) p es) =
         filter (\<lambda>y. w y = k) (es @ [p])"
  using assms
proof (induction es)
  case Nil
  then show ?case by simp
next
  case (Cons e es)
  have nn: "w p \<noteq> NaN" "w e \<noteq> NaN" using Cons.prems(1) by simp_all
  show ?case
  proof (cases "numLess (w e) (w p)")
    case True
    have below: "w z \<noteq> w p" if "z \<in> set (e # es)" for z
    proof -
      have "numLe (w z) (w e)"
        using that Cons.prems(2) nn(2) by (cases "w e") auto
      then show ?thesis using True by (rule numLe_numLess_neq)
    qed
    from True have ins: "insertPivot (\<lambda>a b. numSub (w b) (w a)) p (e # es) = p # e # es"
      by (simp add: numLess_sub nn)
    show ?thesis
    proof (cases "w p = k")
      case same: True
      with below have "filter (\<lambda>y. w y = k) (e # es) = []"
        unfolding filter_empty_conv by metis
      then show ?thesis
        unfolding ins by (rule filter_cons_snoc)
    next
      case False
      then show ?thesis
        unfolding ins by simp
    qed
  next
    case False
    with Cons show ?thesis
      by (simp add: numLess_sub nn)
  qed
qed

lemma sorted_sortFrom:
  assumes "\<forall>y \<in> set (placed @ ps). w y \<noteq> NaN"
    and "sorted_wrt (\<lambda>a b. numLe (w b) (w a)) placed"
  shows "sorted_wrt (\<lambda>a b. numLe (w b) (w a)) (sortFrom (\<lambda>a b. numSub (w b) (w a)) placed ps)"
  using assms
proof (induction ps arbitrary: placed)
  case Nil
  then show ?case by simp
next
  case (Cons p ps)
  have s: "sorted_wrt (\<lambda>a b. numLe (w b) (w a)) (insertPivot (\<lambda>a b. numSub (w b) (w a)) p placed)"
    by (rule sorted_insertPivot) (use Cons.prems in simp_all)
  have "sorted_wrt (\<lambda>a b. numLe (w b) (w a))
          (sortFrom (\<lambda>a b. numSub (w b) (w a)) (insertPivot (\<lambda>a b. numSub (w b) (w a)) p placed) ps)"
    by (rule Cons.IH [OF _ s]) (use Cons.prems(1) in auto)
  then show ?case by simp
qed

lemma filter_sortFrom:
  assumes "\<forall>y \<in> set (placed @ ps). w y \<noteq> NaN"
    and "sorted_wrt (\<lambda>a b. numLe (w b) (w a)) placed"
  shows "filter (\<lambda>y. w y = k) (sortFrom (\<lambda>a b. numSub (w b) (w a)) placed ps) =
         filter (\<lambda>y. w y = k) (placed @ ps)"
  using assms
proof (induction ps arbitrary: placed)
  case Nil
  then show ?case by simp
next
  case (Cons p ps)
  let ?next = "insertPivot (\<lambda>a b. numSub (w b) (w a)) p placed"
  have s: "sorted_wrt (\<lambda>a b. numLe (w b) (w a)) ?next"
    by (rule sorted_insertPivot) (use Cons.prems in simp_all)
  have f: "filter (\<lambda>y. w y = k) ?next = filter (\<lambda>y. w y = k) (placed @ [p])"
    by (rule filter_insertPivot) (use Cons.prems in simp_all)
  have "filter (\<lambda>y. w y = k) (sortFrom (\<lambda>a b. numSub (w b) (w a)) ?next ps) =
        filter (\<lambda>y. w y = k) (?next @ ps)"
    by (rule Cons.IH [OF _ s]) (use Cons.prems(1) in auto)
  with f show ?case by simp
qed

lemma sorted_jsSort:
  assumes "\<forall>y \<in> set xs. w y \<noteq> NaN"
  shows "sorted_wrt (\<lambda>a b. numLe (w b) (w a)) (jsSort (\<lambda>a b. numSub (w b) (w a)) xs)"
  unfolding jsSort_def by (rule sorted_sortFrom) (use assms in simp_all)

lemma filter_jsSort:
  assumes "\<forall>y \<in> set xs. w y \<noteq> NaN"
  shows "filter (\<lambda>y. w y = k) (jsSort (\<lambda>a b. numSub (w b) (w a)) xs) = filter (\<lambda>y. w y = k) xs"
  using filter_sortFrom [of "[]" xs w k] assms by (simp add: jsSort_def)

lemma set_jsSort [simp]: "set (jsSort cmp xs) = set xs"
  by (simp add: jsSort_def)

lemma length_jsSort [simp]: "length (jsSort cmp xs) = length xs"
  by (simp add: jsSort_def)

lemma mapE_all:
  "mapE f xs = Inr ys \<Longrightarrow> \<forall>x. \<forall>y. f x = Inr y \<longrightarrow> P y \<Longrightarrow> \<forall>y \<in> set ys. P y"
  by (induction xs arbitrary: ys) (auto simp: bindE_def split: sum.splits)

lemma mapE_map:
  "mapE f xs = Inr ys \<Longrightarrow> \<forall>x. \<forall>y. f x = Inr y \<longrightarrow> g y = k x \<Longrightarrow> map g ys = map k xs"
  by (induction xs arbitrary: ys) (auto simp: bindE_def split: sum.splits)

lemma mapOrEmpty_all:
  "mapOrEmpty f v = Inr ys \<Longrightarrow> \<forall>x. \<forall>y. f x = Inr y \<longrightarrow> P y \<Longrightarrow> \<forall>y \<in> set ys. P y"
  by (auto simp: mapOrEmpty_def dest: mapE_all split: if_splits option.splits json.splits)

lemma keywordItems_weights:
  assumes "keywordItems h data = Inr items"
  shows "\<forall>y \<in> set items. weight y \<noteq> NaN"
proof -
  have k: "\<forall>x. \<forall>y. keywordOf h x = Inr y \<longrightarrow> weight y \<noteq> NaN"
    by (auto simp: keywordOf_def bindE_def dest: numberOrZero_not_NaN split: sum.splits prod.splits)
  from assms obtain es all where "mapE (keywordOf h) es = Inr all"
    "items = filter (\<lambda>item. label item \<noteq> []) all"
    by (auto simp: keywordItems_def bindE_def split: sum.splits)
  with mapE_all [OF _ k] show ?thesis by auto
qed

lemma keywordItems_labels:
  assumes "keywordItems h data = Inr items"
    and "getProp (Some data) (ascii ''keyword'') = Inr (Some (JObj kvs))"
  shows "map label items = filter (\<lambda>l. l \<noteq> []) (map fst (ownEntries kvs))"
proof -
  have k: "\<forall>x. \<forall>y. keywordOf h x = Inr y \<longrightarrow> label y = fst x"
    by (auto simp: keywordOf_def bindE_def split: sum.splits prod.splits)
  from assms obtain all where m: "mapE (keywordOf h) (ownEntries kvs) = Inr all"
    and i: "items = filter (\<lambda>item. label item \<noteq> []) all"
    by (auto simp: keywordItems_def bindE_def orElse_def split: sum.splits)
  from mapE_map [OF m k] have "map label all = map fst (ownEntries kvs)" .
  moreover have "map label (filter (\<lambda>item. label item \<noteq> []) all) =
                 filter (\<lambda>l. l \<noteq> []) (map label all)"
    by (simp add: filter_map comp_def)
  ultimately show ?thesis
    unfolding i by simp
qed

lemma ownEntries_no_index:
  assumes "\<forall>k \<in> set (map fst kvs). \<not> isArrayIndex k"
  shows "ownEntries kvs = kvs"
proof -
  from assms have a: "filter (\<lambda>(k, v). isArrayIndex k) kvs = []"
    by (auto simp: filter_empty_conv)
  from assms have b: "filter (\<lambda>(k, v). \<not> isArrayIndex k) kvs = kvs"
    by (auto simp: filter_id_conv)
  show ?thesis
    by (simp add: ownEntries_def a b)
qed

lemma ownEntries_others:
  "filter (\<lambda>(k, v). \<not> isArrayIndex k) (ownEntries kvs) = filter (\<lambda>(k, v). \<not> isArrayIndex k) kvs"
proof -
  have "filter (\<lambda>(k, v). \<not> isArrayIndex k)
          (sort_key (\<lambda>(k, v). digitsValue k) (filter (\<lambda>(k, v). isArrayIndex k) kvs)) = []"
    by (auto simp: filter_empty_conv)
  then show ?thesis
    by (simp add: ownEntries_def)
qed

lemma ownEntries_indices:
  "filter (\<lambda>(k, v). isArrayIndex k) (ownEntries kvs) =
     sort_key (\<lambda>(k, v). digitsValue k) (filter (\<lambda>(k, v). isArrayIndex k) kvs)"
proof -
  have "filter (\<lambda>(k, v). isArrayIndex k)
          (sort_key (\<lambda>(k, v). digitsValue k) (filter (\<lambda>(k, v). isArrayIndex k) kvs)) =
        sort_key (\<lambda>(k, v). digitsValue k) (filter (\<lambda>(k, v). isArrayIndex k) kvs)"
    by (auto simp: filter_id_conv)
  moreover have "filter (\<lambda>(k, v). isArrayIndex k) (filter (\<lambda>(k, v). \<not> isArrayIndex k) kvs) = []"
    by (auto simp: filter_empty_conv)
  ultimately show ?thesis
    by (simp add: ownEntries_def)
qed

lemma ownEntries_order:
  "ownEntries kvs =
     filter (\<lambda>(k, v). isArrayIndex k) (ownEntries kvs) @
     filter (\<lambda>(k, v). \<not> isArrayIndex k) (ownEntries kvs) \<and>
   sorted (map (\<lambda>(k, v). digitsValue k) (filter (\<lambda>(k, v). isArrayIndex k) (ownEntries kvs))) \<and>
   filter (\<lambda>(k, v). \<not> isArrayIndex k) (ownEntries kvs) = filter (\<lambda>(k, v). \<not> isArrayIndex k) kvs \<and>
   set (ownEntries kvs) = set kvs \<and> length (ownEntries kvs) = length kvs"
proof -
  have 1: "ownEntries kvs =
     filter (\<lambda>(k, v). isArrayIndex k) (ownEntries kvs) @
     filter (\<lambda>(k, v). \<not> isArrayIndex k) (ownEntries kvs)"
    unfolding ownEntries_indices ownEntries_others by (simp add: ownEntries_def)
  have 2: "sorted (map (\<lambda>(k, v). digitsValue k) (filter (\<lambda>(k, v). isArrayIndex k) (ownEntries kvs)))"
    unfolding ownEntries_indices by simp
  have 3: "set (ownEntries kvs) = set kvs"
    by (auto simp: ownEntries_def)
  have 4: "length (ownEntries kvs) = length kvs"
    using sum_length_filter_compl [of "\<lambda>(k, v). isArrayIndex k" kvs]
    by (simp add: ownEntries_def case_prod_unfold)
  from 1 2 3 4 ownEntries_others show ?thesis
    by blast
qed

lemma mapOrEmpty_map:
  assumes "mapOrEmpty f v = Inr ys" and "\<forall>x. \<forall>y. f x = Inr y \<longrightarrow> g y = k x"
  shows "map g ys = map k (arrayOrEmpty v)"
proof (cases "truthy v")
  case False
  with assms(1) have "ys = []"
    by (simp add: mapOrEmpty_def)
  moreover from False have "arrayOrEmpty v = []"
    by (cases v rule: arrayOrEmpty.cases) simp_all
  ultimately show ?thesis by simp
next
  case True
  with assms(1) obtain xs where v: "v = Some (JArr xs)" and m: "mapE f xs = Inr ys"
    by (auto simp: mapOrEmpty_def split: option.splits json.splits)
  from mapE_map [OF m assms(2)] show ?thesis
    unfolding v by simp
qed

lemma topicItems_weights:
  assumes "topicItems h data = Inr items"
  shows "\<forall>y \<in> set items. relevance y \<noteq> NaN"
proof -
  have c: "\<forall>x. \<forall>y. conceptOf h x = Inr y \<longrightarrow> relevance y \<noteq> NaN"
    by (auto simp: conceptOf_def bindE_def dest: numberOrZero_not_NaN split: sum.splits)
  have e: "\<forall>x. \<forall>y. entityOf h x = Inr y \<longrightarrow> relevance y \<noteq> NaN"
    by (auto simp: entityOf_def bindE_def dest: numberOrZero_not_NaN split: sum.splits if_splits)
  from assms obtain cl el cs es where
    "mapOrEmpty (conceptOf h) cl = Inr cs" "mapOrEmpty (entityOf h) el = Inr es"
    "items = filter (\<lambda>item. truthy (topicLabel item)) (cs @ es)"
    by (auto simp: topicItems_def bindE_def split: sum.splits)
  with mapOrEmpty_all [OF _ c] mapOrEmpty_all [OF _ e] show ?thesis by auto
qed

lemma topicItems_labels:
  assumes "topicItems h data = Inr items"
  shows "\<exists>cl el. getProp (Some data) (ascii ''concept_list'') = Inr cl \<and>
           getProp (Some data) (ascii ''entity_list'') = Inr el \<and>
           map topicLabel items = filter truthy (map formOf (arrayOrEmpty cl @ arrayOrEmpty el))"
proof -
  have c: "\<forall>x. \<forall>y. conceptOf h x = Inr y \<longrightarrow> topicLabel y = formOf x"
    by (auto simp: conceptOf_def formOf_def bindE_def split: sum.splits)
  have e: "\<forall>x. \<forall>y. entityOf h x = Inr y \<longrightarrow> topicLabel y = formOf x"
    by (auto simp: entityOf_def formOf_def bindE_def split: sum.splits if_splits)
  from assms obtain cl el cs es where g: "getProp (Some data) (ascii ''concept_list'') = Inr cl"
    "getProp (Some data) (ascii ''entity_list'') = Inr el"
    and m: "mapOrEmpty (conceptOf h) cl = Inr cs" "mapOrEmpty (entityOf h) el = Inr es"
    and i: "items = filter (\<lambda>item. truthy (topicLabel item)) (cs @ es)"
    by (auto simp: topicItems_def bindE_def split: sum.splits)
  have "map topicLabel (cs @ es) = map formOf (arrayOrEmpty cl @ arrayOrEmpty el)"
    using mapOrEmpty_map [OF m(1) c] mapOrEmpty_map [OF m(2) e] by simp
  moreover have "map topicLabel (filter (\<lambda>item. truthy (topicLabel item)) (cs @ es)) =
                 filter truthy (map topicLabel (cs @ es))"
    by (simp add: filter_map comp_def)
  ultimately have "map topicLabel items = filter truthy (map formOf (arrayOrEmpty cl @ arrayOrEmpty el))"
    unfolding i by simp
  with g show ?thesis by blast
qed

text \<open>
  Claim C2, as amended. What \<open>extractKeywords\<close> returns, in the Twinword lab and in the
  MeaningCloud lab, is the list of normalized items rearranged so that the weights
  (relevances) never increase along it, and the items of any one weight keep the order
  in which the normalizer enumerates the payload. In the MeaningCloud lab that is the
  concepts, then the entities, each in the order of its array. In the Twinword lab it
  is the order of \<open>Object.entries\<close> over the \<open>keyword\<close> object: the names that are
  array indices first, by ascending number, then the other names in the order of the
  payload; so it is the order of the payload when no name is an array index.
\<close>

theorem keywords_sorted_stable:
  "(extractKeywords h data = Inr out \<longrightarrow>
      (\<exists>items. keywordItems h data = Inr items \<and>
         sorted_wrt (\<lambda>a b. numLe (weight b) (weight a)) out \<and>
         (\<forall>k. filter (\<lambda>x. weight x = k) out = filter (\<lambda>x. weight x = k) items) \<and>
         set out = set items \<and> length out = length items \<and>
         (\<forall>kvs. getProp (Some data) (ascii ''keyword'') = Inr (Some (JObj kvs)) \<longrightarrow>
            map label items = filter (\<lambda>l. l \<noteq> []) (map fst (ownEntries kvs))))) \<and>
   (extractKeywordsMeaningCloud h data = Inr topics \<longrightarrow>
      (\<exists>items cl el. topicItems h data = Inr items \<and>
         sorted_wrt (\<lambda>a b. numLe (relevance b) (relevance a)) topics \<and>
         (\<forall>k. filter (\<lambda>x. relevance x = k) topics = filter (\<lambda>x. relevance x = k) items) \<and>
         set topics = set items \<and> length topics = length items \<and>
         getProp (Some data) (ascii ''concept_list'') = Inr cl \<and>
         getProp (Some data) (ascii ''entity_list'') = Inr el \<and>
         map topicLabel items = filter truthy (map formOf (arrayOrEmpty cl @ arrayOrEmpty el)))) \<and>
   ownEntries kvs =
     filter (\<lambda>(k, v). isArrayIndex k) (ownEntries kvs) @
     filter (\<lambda>(k, v). \<not> isArrayIndex k) (ownEntries kvs) \<and>
   sorted (map (\<lambda>(k, v). digitsValue k) (filter (\<lambda>(k, v). isArrayIndex k) (ownEntries kvs))) \<and>
   filter (\<lambda>(k, v). \<not> isArrayIndex k) (ownEntries kvs) = filter (\<lambda>(k, v). \<not> isArrayIndex k) kvs \<and>
   set (ownEntries kvs) = set kvs \<and> length (ownEntries kvs) = length kvs \<and>
   ((\<forall>k \<in> set (map fst kvs). \<not> isArrayIndex k) \<longrightarrow> ownEntries kvs = kvs)"
proof -
  have tw: "\<exists>items. keywordItems h data = Inr items \<and>
         sorted_wrt (\<lambda>a b. numLe (weight b) (weight a)) out \<and>
         (\<forall>k. filter (\<lambda>x. weight x = k) out = filter (\<lambda>x. weight x = k) items) \<and>
         set out = set items \<and> length out = length items \<and>
         (\<forall>kvs. getProp (Some data) (ascii ''keyword'') = Inr (Some (JObj kvs)) \<longrightarrow>
            map label items = filter (\<lambda>l. l \<noteq> []) (map fst (ownEntries kvs)))"
    if "extractKeywords h data = Inr out"
  proof -
    from that obtain items where i: "keywordItems h data = Inr items"
      and o: "out = jsSort (\<lambda>a b. numSub (weight b) (weight a)) items"
      by (auto simp: extractKeywords_def bindE_def split: sum.splits)
    from keywordItems_weights [OF i] have w: "\<forall>y \<in> set items. weight y \<noteq> NaN" .
    show ?thesis
      using i sorted_jsSort [OF w] filter_jsSort [OF w] keywordItems_labels [OF i] unfolding o
      by (intro exI [of _ items]) simp
  qed
  have mc: "\<exists>items cl el. topicItems h data = Inr items \<and>
         sorted_wrt (\<lambda>a b. numLe (relevance b) (relevance a)) topics \<and>
         (\<forall>k. filter (\<lambda>x. relevance x = k) topics = filter (\<lambda>x. relevance x = k) items) \<and>
         set topics = set items \<and> length topics = length items \<and>
         getProp (Some data) (ascii ''concept_list'') = Inr cl \<and>
         getProp (Some data) (ascii ''entity_list'') = Inr el \<and>
         map topicLabel items = filter truthy (map formOf (arrayOrEmpty cl @ arrayOrEmpty el))"
    if "extractKeywordsMeaningCloud h data = Inr topics"
  proof -
    from that obtain items where i: "topicItems h data = Inr items"
      and o: "topics = jsSort (\<lambda>a b. numSub (relevance b) (relevance a)) items"
      by (auto simp: extractKeywordsMeaningCloud_def bindE_def split: sum.splits)
    from topicItems_weights [OF i] have w: "\<forall>y \<in> set items. relevance y \<noteq> NaN" .
    from topicItems_labels [OF i] obtain cl el where
      l: "getProp (Some data) (ascii ''concept_list'') = Inr cl"
         "getProp (Some data) (ascii ''entity_list'') = Inr el"
         "map topicLabel items = filter truthy (map formOf (arrayOrEmpty cl @ arrayOrEmpty el))"
      by blast
    show ?thesis
      using i l sorted_jsSort [OF w] filter_jsSort [OF w] unfolding o
      by (intro exI [of _ items] exI [of _ cl] exI [of _ el]) simp
  qed
  have plain: "(\<forall>k \<in> set (map fst kvs). \<not> isArrayIndex k) \<longrightarrow> ownEntries kvs = kvs"
    using ownEntries_no_index by blast
  from tw mc plain ownEntries_order [of kvs] show ?thesis
    by blast
qed

theorem keywords_sorted_stable_witness:
  "extractKeywords sampleHost sampleKeywords =
     Inr [twinword ''b'' 3, twinword ''c'' 3, twinword ''a'' 1, twinword ''<e>'' 1,
          twinword ''d'' 0] \<and>
   keywordItems sampleHost sampleKeywords =
     Inr [twinword ''a'' 1, twinword ''b'' 3, twinword ''c'' 3, twinword ''d'' 0,
          twinword ''<e>'' 1] \<and>
   sorted_wrt (\<lambda>a b. numLe (weight b) (weight a))
     [twinword ''b'' 3, twinword ''c'' 3, twinword ''a'' 1, twinword ''<e>'' 1, twinword ''d'' 0] \<and>
   filter (\<lambda>x. weight x = Fin 1)
     [twinword ''b'' 3, twinword ''c'' 3, twinword ''a'' 1, twinword ''<e>'' 1, twinword ''d'' 0] =
   filter (\<lambda>x. weight x = Fin 1)
     [twinword ''a'' 1, twinword ''b'' 3, twinword ''c'' 3, twinword ''d'' 0, twinword ''<e>'' 1] \<and>
   extractKeywordsMeaningCloud sampleHost sampleTopics =
     Inr [meaningCloud ''Gagarin'' ''Person'' 100, meaningCloud ''orbit'' ''Concept'' 50,
          meaningCloud ''Vostok'' ''Entity'' 50] \<and>
   sorted_wrt (\<lambda>a b. numLe (relevance b) (relevance a))
     [meaningCloud ''Gagarin'' ''Person'' 100, meaningCloud ''orbit'' ''Concept'' 50,
      meaningCloud ''Vostok'' ''Entity'' 50] \<and>
   ownEntries [(ascii ''b'', JNull), (ascii ''a'', JNull)] = [(ascii ''b'', JNull), (ascii ''a'', JNull)]"
proof -
  have i: "keywordItems sampleHost sampleKeywords =
     Inr [twinword ''a'' 1, twinword ''b'' 3, twinword ''c'' 3, twinword ''d'' 0,
          twinword ''<e>'' 1]"
    by (simp add: keywordItems_def keywordOf_def sampleKeywords_def bindE_def orElse_def
        numberOrZero_def toNumberE_def toNumber_def sampleHost_def sampleStringToNumber_def
        twinword_def ownEntries_def isArrayIndex_def text_eval)
  have e: "extractKeywords sampleHost sampleKeywords =
     Inr [twinword ''b'' 3, twinword ''c'' 3, twinword ''a'' 1, twinword ''<e>'' 1,
          twinword ''d'' 0]"
    unfolding extractKeywords_def i
    by (simp add: bindE_def jsSort_def twinword_def)
  have t: "topicItems sampleHost sampleTopics =
     Inr [meaningCloud ''orbit'' ''Concept'' 50, meaningCloud ''Gagarin'' ''Person'' 100,
          meaningCloud ''Vostok'' ''Entity'' 50]"
    by (simp add: topicItems_def conceptOf_def entityOf_def mapOrEmpty_def sampleTopics_def
        bindE_def orElse_def numberOrZero_def toNumberE_def toNumber_def sampleHost_def
        sampleStringToNumber_def meaningCloud_def text_eval)
  have m: "extractKeywordsMeaningCloud sampleHost sampleTopics =
     Inr [meaningCloud ''Gagarin'' ''Person'' 100, meaningCloud ''orbit'' ''Concept'' 50,
          meaningCloud ''Vostok'' ''Entity'' 50]"
    unfolding extractKeywordsMeaningCloud_def t
    by (simp add: bindE_def jsSort_def meaningCloud_def)
  have p: "\<forall>k \<in> set (map fst [(ascii ''b'', JNull), (ascii ''a'', JNull)]). \<not> isArrayIndex k"
    by (simp add: isArrayIndex_def text_eval)
  let ?out = "[twinword ''b'' 3, twinword ''c'' 3, twinword ''a'' 1, twinword ''<e>'' 1,
               twinword ''d'' 0]"
  let ?items = "[twinword ''a'' 1, twinword ''b'' 3, twinword ''c'' 3, twinword ''d'' 0,
                 twinword ''<e>'' 1]"
  let ?topics = "[meaningCloud ''Gagarin'' ''Person'' 100, meaningCloud ''orbit'' ''Concept'' 50,
                  meaningCloud ''Vostok'' ''Entity'' 50]"
  let ?kvs = "[(ascii ''b'', JNull), (ascii ''a'', JNull)]"
  from keywords_sorted_stable [of sampleHost sampleKeywords ?out "[]" ?kvs] e p
  obtain items where "keywordItems sampleHost sampleKeywords = Inr items"
    and s1: "sorted_wrt (\<lambda>a b. numLe (weight b) (weight a)) ?out"
    and f1: "\<forall>k. filter (\<lambda>x. weight x = k) ?out = filter (\<lambda>x. weight x = k) items"
    and o1: "ownEntries ?kvs = ?kvs"
    by blast
  with i have "items = ?items"
    by simp
  with f1 have f2: "filter (\<lambda>x. weight x = Fin 1) ?out = filter (\<lambda>x. weight x = Fin 1) ?items"
    by blast
  from keywords_sorted_stable [of sampleHost sampleTopics "[]" ?topics "[]"] m
  have s2: "sorted_wrt (\<lambda>a b. numLe (relevance b) (relevance a)) ?topics"
    by blast
  show ?thesis
    by (intro conjI e i s1 f2 m s2 o1)
qed

text \<open>
  The claim as the specification states it fails on a payload whose keywords arrive as
  \<open>b\<close>, \<open>10\<close>, \<open>9\<close>, all of weight 1: they come out as \<open>9\<close>, \<open>10\<close>, \<open>b\<close>.
\<close>

theorem keywords_arrival_order_counterexample:
  "getProp (Some tiedKeywords) (ascii ''keyword'') =
     Inr (Some (JObj [(ascii ''b'', JNum (Fin 1)), (ascii ''10'', JNum (Fin 1)),
                      (ascii ''9'', JNum (Fin 1))])) \<and>
   extractKeywords sampleHost tiedKeywords =
     Inr [twinword ''9'' 1, twinword ''10'' 1, twinword ''b'' 1]"
proof -
  have i: "keywordItems sampleHost tiedKeywords =
     Inr [twinword ''9'' 1, twinword ''10'' 1, twinword ''b'' 1]"
    by (simp add: keywordItems_def keywordOf_def tiedKeywords_def bindE_def orElse_def
        numberOrZero_def toNumberE_def toNumber_def twinword_def ownEntries_def
        isArrayIndex_def text_eval)
  have e: "extractKeywords sampleHost tiedKeywords =
     Inr [twinword ''9'' 1, twinword ''10'' 1, twinword ''b'' 1]"
    unfolding extractKeywords_def i
    by (simp add: bindE_def jsSort_def twinword_def)
  have g: "getProp (Some tiedKeywords) (ascii ''keyword'') =
     Inr (Some (JObj [(ascii ''b'', JNum (Fin 1)), (ascii ''10'', JNum (Fin 1)),
                      (ascii ''9'', JNum (Fin 1))]))"
    by (simp add: tiedKeywords_def)
  from g e show ?thesis by (rule conjI)
qed

subsection \<open>Deduplicating the places\<close>

lemma candidates_Nil [simp]: "candidates h [] = Inr []"
  by (simp add: candidates_def bindE_def)

lemma candidates_Cons:
  "candidates h (e # es) =
     bindE (candidate h e) (\<lambda>c. bindE (candidates h es) (\<lambda>cs.
       Inr ((case c of None \<Rightarrow> [] | Some p \<Rightarrow> [p]) @ cs)))"
  by (simp add: candidates_def bindE_def split: sum.splits)

lemma mapElements_first_occurrences:
  "mapElements h seen es = Inr ps \<Longrightarrow>
   \<exists>cs. candidates h es = Inr cs \<and>
        distinct (map (placeKey h) ps) \<and>
        (\<forall>p \<in> set ps. placeKey h p \<notin> set seen) \<and>
        set ps \<subseteq> set cs \<and>
        (\<forall>c \<in> set cs. placeKey h c \<in> set seen \<or> (\<exists>p \<in> set ps. placeKey h p = placeKey h c)) \<and>
        (\<forall>p \<in> set ps. find (\<lambda>c. placeKey h c = placeKey h p) cs = Some p)"
proof (induction es arbitrary: seen ps)
  case Nil
  then show ?case by simp
next
  case (Cons e es)
  from Cons.prems obtain c where c: "candidate h e = Inr c"
    by (auto simp: bindE_def split: sum.splits)
  show ?case
  proof (cases c)
    case None
    with Cons.prems c have "mapElements h seen es = Inr ps"
      by (simp add: bindE_def)
    from Cons.IH [OF this] obtain cs where cs: "candidates h es = Inr cs"
        "distinct (map (placeKey h) ps)" "\<forall>p \<in> set ps. placeKey h p \<notin> set seen"
        "set ps \<subseteq> set cs"
        "\<forall>c \<in> set cs. placeKey h c \<in> set seen \<or> (\<exists>p \<in> set ps. placeKey h p = placeKey h c)"
        "\<forall>p \<in> set ps. find (\<lambda>c. placeKey h c = placeKey h p) cs = Some p"
      by blast
    have "candidates h (e # es) = Inr cs"
      by (simp add: candidates_Cons c None cs(1) bindE_def)
    with cs(2-6) show ?thesis by (intro exI [of _ cs] conjI)
  next
    case (Some p0)
    show ?thesis
    proof (cases "placeKey h p0 \<in> set seen")
      case True
      with Cons.prems c Some have "mapElements h seen es = Inr ps"
        by (simp add: bindE_def)
      from Cons.IH [OF this] obtain cs where cs: "candidates h es = Inr cs"
        "distinct (map (placeKey h) ps)" "\<forall>p \<in> set ps. placeKey h p \<notin> set seen"
        "set ps \<subseteq> set cs"
        "\<forall>c \<in> set cs. placeKey h c \<in> set seen \<or> (\<exists>p \<in> set ps. placeKey h p = placeKey h c)"
        "\<forall>p \<in> set ps. find (\<lambda>c. placeKey h c = placeKey h p) cs = Some p"
        by blast
      have "candidates h (e # es) = Inr (p0 # cs)"
        by (simp add: candidates_Cons c Some cs(1) bindE_def)
      moreover have "set ps \<subseteq> set (p0 # cs)" using cs(4) by auto
      moreover have "\<forall>c \<in> set (p0 # cs). placeKey h c \<in> set seen \<or>
          (\<exists>p \<in> set ps. placeKey h p = placeKey h c)"
        using cs(5) True by simp
      moreover have "\<forall>p \<in> set ps. find (\<lambda>c. placeKey h c = placeKey h p) (p0 # cs) = Some p"
        using cs(3,6) True by auto
      ultimately show ?thesis using cs(2,3) by (intro exI [of _ "p0 # cs"] conjI)
    next
      case False
      with Cons.prems c Some obtain ps' where ps': "mapElements h (placeKey h p0 # seen) es = Inr ps'"
        and ps: "ps = p0 # ps'"
        by (auto simp: bindE_def split: sum.splits)
      from Cons.IH [OF ps'] obtain cs where cs: "candidates h es = Inr cs"
        "distinct (map (placeKey h) ps')"
        "\<forall>p \<in> set ps'. placeKey h p \<notin> set (placeKey h p0 # seen)"
        "set ps' \<subseteq> set cs"
        "\<forall>c \<in> set cs. placeKey h c \<in> set (placeKey h p0 # seen) \<or>
           (\<exists>p \<in> set ps'. placeKey h p = placeKey h c)"
        "\<forall>p \<in> set ps'. find (\<lambda>c. placeKey h c = placeKey h p) cs = Some p"
        by blast
      have 1: "candidates h (e # es) = Inr (p0 # cs)"
        by (simp add: candidates_Cons c Some cs(1) bindE_def)
      have 2: "distinct (map (placeKey h) ps)"
        unfolding ps using cs(2,3) by auto
      have 3: "\<forall>p \<in> set ps. placeKey h p \<notin> set seen"
        unfolding ps using cs(3) False by auto
      have 4: "set ps \<subseteq> set (p0 # cs)"
        unfolding ps using cs(4) by auto
      have 5: "\<forall>c \<in> set (p0 # cs). placeKey h c \<in> set seen \<or>
          (\<exists>p \<in> set ps. placeKey h p = placeKey h c)"
        unfolding ps using cs(5) by auto
      have 6: "\<forall>p \<in> set ps. find (\<lambda>c. placeKey h c = placeKey h p) (p0 # cs) = Some p"
        unfolding ps using cs(3,6) by auto
      from 1 2 3 4 5 6 show ?thesis by (intro exI [of _ "p0 # cs"] conjI)
    qed
  qed
qed

lemma insertPivotE_perm:
  "insertPivotE cmp p es = Inr zs \<Longrightarrow> set zs = insert p (set es) \<and> length zs = Suc (length es)"
proof (induction es arbitrary: zs)
  case Nil
  then show ?case by auto
next
  case (Cons e es)
  from Cons.prems obtain v where v: "cmp p e = Inr v"
    by (cases "cmp p e") (simp_all add: bindE_def)
  show ?case
  proof (cases "numLess v (Fin 0)")
    case True
    with Cons.prems v have "zs = p # e # es"
      by (simp add: bindE_def)
    then show ?thesis by auto
  next
    case False
    with Cons.prems v obtain zs' where z: "insertPivotE cmp p es = Inr zs'" and e: "zs = e # zs'"
      by (cases "insertPivotE cmp p es") (auto simp: bindE_def)
    from Cons.IH [OF z] show ?thesis unfolding e by auto
  qed
qed

lemma sortFromE_perm:
  "sortFromE cmp placed ps = Inr ys \<Longrightarrow>
   set ys = set placed \<union> set ps \<and> length ys = length placed + length ps"
proof (induction ps arbitrary: placed ys)
  case Nil
  then show ?case by simp
next
  case (Cons p ps)
  from Cons.prems obtain zs where i: "insertPivotE cmp p placed = Inr zs"
    and z: "sortFromE cmp zs ps = Inr ys"
    by (cases "insertPivotE cmp p placed") (simp_all add: bindE_def)
  from Cons.IH [OF z] insertPivotE_perm [OF i] show ?case by auto
qed

lemma jsSortE_perm:
  "jsSortE cmp xs = Inr ys \<Longrightarrow> set ys = set xs \<and> length ys = length xs"
  using sortFromE_perm [of cmp "[]" xs ys] by (simp add: jsSortE_def)

lemma distinct_map_perm:
  assumes "distinct (map f xs)" and "set ys = set xs" and "length ys = length xs"
  shows "distinct (map f ys)"
proof -
  have "card (f ` set xs) = length xs"
    using assms(1) by (metis distinct_card length_map list.set_map)
  then have "card (set (map f ys)) = length (map f ys)"
    using assms(2,3) by simp
  then show ?thesis by (rule card_distinct)
qed

text \<open>
  Claim C3, as amended. \<open>fetchPlaces\<close> deduplicates by the key of line 87, the
  string \<open>name:lat:lon\<close> built from the name and the coordinates as they arrive,
  without rounding: the keys of the places it returns are pairwise distinct, every
  arrival's key is the key of a returned place, and each returned place is the first
  arrival that has its key.
\<close>

theorem places_first_occurrence:
  "fetchPlaces h data = Inr places \<longrightarrow>
     (\<exists>elements arrivals.
        getProp (Some data) (ascii ''elements'') = Inr (Some (JArr elements)) \<and>
        candidates h elements = Inr arrivals \<and>
        distinct (map (placeKey h) places) \<and>
        set places \<subseteq> set arrivals \<and>
        (\<forall>c \<in> set arrivals. \<exists>p \<in> set places. placeKey h p = placeKey h c) \<and>
        (\<forall>p \<in> set places. find (\<lambda>c. placeKey h c = placeKey h p) arrivals = Some p))"
proof
  assume "fetchPlaces h data = Inr places"
  then obtain es ps where g: "getProp (Some data) (ascii ''elements'') = Inr (Some (JArr es))"
    and m: "mapElements h [] es = Inr ps" and s: "jsSortE (compareNames h) ps = Inr places"
    by (auto simp: fetchPlaces_def bindE_def split: sum.splits option.splits json.splits)
  from mapElements_first_occurrences [OF m] obtain cs where cs: "candidates h es = Inr cs"
    "distinct (map (placeKey h) ps)" "set ps \<subseteq> set cs"
    "\<forall>c \<in> set cs. \<exists>p \<in> set ps. placeKey h p = placeKey h c"
    "\<forall>p \<in> set ps. find (\<lambda>c. placeKey h c = placeKey h p) cs = Some p"
    by auto
  from jsSortE_perm [OF s] have p: "set places = set ps" "length places = length ps"
    by simp_all
  have d: "distinct (map (placeKey h) places)"
    by (rule distinct_map_perm [OF cs(2) p])
  show "\<exists>elements arrivals.
        getProp (Some data) (ascii ''elements'') = Inr (Some (JArr elements)) \<and>
        candidates h elements = Inr arrivals \<and>
        distinct (map (placeKey h) places) \<and>
        set places \<subseteq> set arrivals \<and>
        (\<forall>c \<in> set arrivals. \<exists>p \<in> set places. placeKey h p = placeKey h c) \<and>
        (\<forall>p \<in> set places. find (\<lambda>c. placeKey h c = placeKey h p) arrivals = Some p)"
    using g cs(1,3,4,5) d unfolding p(1) by (intro exI [of _ es] exI [of _ cs] conjI)
qed

lemma sample_number_strings:
  "numberToString sampleHost (Fin (111 / 2)) = ascii ''55.5''"
  "numberToString sampleHost (Fin (55500001 / 1000000)) = ascii ''55.500001''"
  "numberToString sampleHost (Fin (75 / 2)) = ascii ''37.5''"
  by code_simp+

lemma sample_floors:
  "\<lfloor>11100001 / 2 :: rat\<rfloor> = 5550000" "\<lfloor>27750003 / 5 :: rat\<rfloor> = 5550000"
  "\<lfloor>7500001 / 2 :: rat\<rfloor> = 3750000"
  by (rule floor_unique; simp)+

lemma sample_digits:
  "natDigits 55 = [53, 53]" "natDigits 50000 = [53, 48, 48, 48, 48]" "natDigits 37 = [51, 55]"
  by (simp_all add: natDigits.simps)

lemma sample_rounded:
  "toFixed sampleHost 5 (111 / 2) = ascii ''55.50000''"
  "toFixed sampleHost 5 (55500001 / 1000000) = ascii ''55.50000''"
  "toFixed sampleHost 5 (75 / 2) = ascii ''37.50000''"
  by (simp_all add: sampleHost_def sampleToFixed_def Let_def sample_floors sample_digits ascii_def)

lemma museum_candidate:
  "candidate h (museumNode i lat) = Inr (Some (museumPlace i lat))"
  by (simp add: candidate_def museumNode_def museumPlace_def bindE_def inferCategory_def
      buildAddress_def toStringE_def orElse_def Let_def ascii_def)

lemma museum_key:
  "placeKey h (museumPlace i lat) =
     ascii ''museum:'' @ numberToString h (Fin lat) @ ascii '':'' @ numberToString h (Fin (75 / 2))"
  by (simp add: placeKey_def museumPlace_def toString_def ascii_def)

lemma museum_compare:
  "compareNames sampleHost (museumPlace i lat) (museumPlace j lat') = Inr (Fin 0)"
  by (simp add: compareNames_def museumPlace_def toStringE_def toString_def bindE_def
      sampleHost_def ascii_def)

text \<open>
  With rounded coordinates in the key the claim fails: two nodes of one name whose
  latitudes, 55.5 and 55.500001, round to the same five decimals are both returned.
\<close>

theorem places_rounded_key_counterexample:
  "fetchPlaces sampleHost twoMuseums =
     Inr [museumPlace 1 (111 / 2), museumPlace 2 (55500001 / 1000000)] \<and>
   roundedKey sampleHost (museumPlace 1 (111 / 2)) =
     roundedKey sampleHost (museumPlace 2 (55500001 / 1000000)) \<and>
   placeLat (museumPlace 1 (111 / 2)) \<noteq> placeLat (museumPlace 2 (55500001 / 1000000))"
proof -
  have k: "placeKey sampleHost (museumPlace 1 (111 / 2)) \<noteq>
           placeKey sampleHost (museumPlace 2 (55500001 / 1000000))"
    by (simp add: museum_key sample_number_strings ascii_def)
  have f: "fetchPlaces sampleHost twoMuseums =
     Inr [museumPlace 1 (111 / 2), museumPlace 2 (55500001 / 1000000)]"
    using k
    by (simp add: fetchPlaces_def twoMuseums_def bindE_def jsSortE_def museum_candidate
        museum_compare)
  have r: "roundedKey sampleHost (museumPlace 1 (111 / 2)) =
     roundedKey sampleHost (museumPlace 2 (55500001 / 1000000))"
    by (simp add: roundedKey_def roundedCoordinate_def museumPlace_def sample_rounded)
  have l: "placeLat (museumPlace 1 (111 / 2)) \<noteq> placeLat (museumPlace 2 (55500001 / 1000000))"
    by (simp add: museumPlace_def)
  from f r l show ?thesis by (intro conjI)
qed

theorem places_first_occurrence_witness:
  "fetchPlaces sampleHost threeMuseums =
     Inr [museumPlace 1 (111 / 2), museumPlace 2 (55500001 / 1000000)] \<and>
   candidates sampleHost [museumNode 1 (111 / 2), museumNode 2 (55500001 / 1000000),
                          museumNode 3 (111 / 2)] =
     Inr [museumPlace 1 (111 / 2), museumPlace 2 (55500001 / 1000000), museumPlace 3 (111 / 2)] \<and>
   placeKey sampleHost (museumPlace 3 (111 / 2)) = placeKey sampleHost (museumPlace 1 (111 / 2)) \<and>
   museumPlace 3 (111 / 2) \<noteq> museumPlace 1 (111 / 2) \<and>
   distinct (map (placeKey sampleHost)
     [museumPlace 1 (111 / 2), museumPlace 2 (55500001 / 1000000)]) \<and>
   find (\<lambda>c. placeKey sampleHost c = placeKey sampleHost (museumPlace 1 (111 / 2)))
     [museumPlace 1 (111 / 2), museumPlace 2 (55500001 / 1000000), museumPlace 3 (111 / 2)] =
     Some (museumPlace 1 (111 / 2))"
proof -
  let ?m1 = "museumPlace 1 (111 / 2)"
  let ?m2 = "museumPlace 2 (55500001 / 1000000)"
  let ?m3 = "museumPlace 3 (111 / 2)"
  have k: "placeKey sampleHost ?m1 \<noteq> placeKey sampleHost ?m2"
    by (simp add: museum_key sample_number_strings ascii_def)
  have k3: "placeKey sampleHost ?m3 = placeKey sampleHost ?m1"
    by (simp add: museum_key)
  have n: "?m3 \<noteq> ?m1"
    by (simp add: museumPlace_def)
  have f: "fetchPlaces sampleHost threeMuseums = Inr [?m1, ?m2]"
    using k k3
    by (simp add: fetchPlaces_def threeMuseums_def bindE_def jsSortE_def museum_candidate
        museum_compare)
  have g: "getProp (Some threeMuseums) (ascii ''elements'') =
     Inr (Some (JArr [museumNode 1 (111 / 2), museumNode 2 (55500001 / 1000000),
                      museumNode 3 (111 / 2)]))"
    by (simp add: threeMuseums_def)
  have c: "candidates sampleHost [museumNode 1 (111 / 2), museumNode 2 (55500001 / 1000000),
                                  museumNode 3 (111 / 2)] = Inr [?m1, ?m2, ?m3]"
    by (simp add: candidates_Cons museum_candidate bindE_def)
  from places_first_occurrence [of sampleHost threeMuseums "[?m1, ?m2]"] f
  obtain elements arrivals where
    "getProp (Some threeMuseums) (ascii ''elements'') = Inr (Some (JArr elements))"
    "candidates sampleHost elements = Inr arrivals"
    and d: "distinct (map (placeKey sampleHost) [?m1, ?m2])"
    and fi: "\<forall>p \<in> set [?m1, ?m2].
               find (\<lambda>c. placeKey sampleHost c = placeKey sampleHost p) arrivals = Some p"
    by blast
  with g c have "arrivals = [?m1, ?m2, ?m3]"
    by simp
  with fi have first: "find (\<lambda>c. placeKey sampleHost c = placeKey sampleHost ?m1) [?m1, ?m2, ?m3] =
     Some ?m1"
    by simp
  show ?thesis
    by (intro conjI f c k3 n d first)
qed

subsection \<open>Where the normalizers return\<close>

lemma getProp_truthy: "truthy v \<Longrightarrow> \<exists>x. getProp v k = Inr x"
  by (cases "(v, k)" rule: getProp.cases) simp_all

lemma getProp_object [simp]: "getProp (Some (JObj kvs)) k = Inr (map_of kvs k)"
  by simp

lemma category_names_nonempty:
  "catMuseum \<noteq> []" "catGallery \<noteq> []" "catAttraction \<noteq> []" "catZoo \<noteq> []"
  "catThemePark \<noteq> []" "catTheatre \<noteq> []" "catArtsCentre \<noteq> []" "catObject \<noteq> []"
  by (simp_all add: catMuseum_def catGallery_def catAttraction_def catZoo_def catThemePark_def
      catTheatre_def catArtsCentre_def catObject_def)

lemma bindE_Inr: "bindE (Inr x) f = f x"
  by (simp add: bindE_def)

lemma toStringE_returns:
  "v = None \<or> (\<exists>j. v = Some j \<and> convertible j) \<Longrightarrow> toStringE h v = Inr (toString h v)"
  by (auto simp: toStringE_def)

lemma mapE_toStringE:
  "\<forall>v \<in> set vs. v = None \<or> (\<exists>j. v = Some j \<and> convertible j) \<Longrightarrow>
   mapE (toStringE h) vs = Inr (map (toString h) vs)"
  by (induction vs) (simp_all add: toStringE_returns bindE_def)

lemma string_or_absent:
  "list_all (\<lambda>(k, v). isString v) ts \<Longrightarrow>
   map_of ts k = None \<or> (\<exists>s. map_of ts k = Some (JStr s))"
proof (induction ts)
  case Nil
  then show ?case by simp
next
  case (Cons kv ts)
  obtain k' v where kv: "kv = (k', v)"
    by (cases kv)
  from Cons.prems have "isString v"
    unfolding kv by simp
  then obtain s where "v = JStr s"
    by (cases v) simp_all
  with Cons show ?case
    unfolding kv by simp
qed

lemma number_or_absent:
  "numberIfPresent props k \<Longrightarrow> map_of props k = None \<or> (\<exists>n. map_of props k = Some (JNum n))"
  unfolding numberIfPresent_def
  by (cases "map_of props k") (auto elim: isNumber.elims)

lemma inferCategory_strings:
  assumes "list_all (\<lambda>(k, v). isString v) ts"
  shows "\<exists>c. inferCategory h (Some (JObj ts)) = Inr c \<and> c \<noteq> []"
proof -
  from string_or_absent [OF assms, of "ascii ''tourism''"]
  have t: "map_of ts (ascii ''tourism'') = None \<or> (\<exists>s. map_of ts (ascii ''tourism'') = Some (JStr s))" .
  from string_or_absent [OF assms, of "ascii ''amenity''"]
  have a: "map_of ts (ascii ''amenity'') = None \<or> (\<exists>s. map_of ts (ascii ''amenity'') = Some (JStr s))" .
  from t a show ?thesis
    by (auto simp: inferCategory_def bindE_def toStringE_def category_names_nonempty ascii_def)
qed

lemma buildAddress_strings:
  assumes "list_all (\<lambda>(k, v). isString v) ts"
  shows "\<exists>a. buildAddress h (Some (JObj ts)) = Inr a"
proof -
  let ?street = "map_of ts (ascii ''addr:street'')"
  let ?number = "map_of ts (ascii ''addr:housenumber'')"
  have conv: "v = None \<or> (\<exists>j. v = Some j \<and> convertible j)"
    if "v = None \<or> (\<exists>s. v = Some (JStr s))" for v
    using that by auto
  have hn: "\<exists>x. (if truthy ?number
                 then bindE (toStringE h ?number) (\<lambda>hn. Inr (ascii '', '' @ hn))
                 else Inr []) = Inr x"
    using toStringE_returns [OF conv [OF string_or_absent [OF assms]], of h "ascii ''addr:housenumber''"]
    by (simp add: bindE_def)
  then obtain x where x: "(if truthy ?number
                 then bindE (toStringE h ?number) (\<lambda>hn. Inr (ascii '', '' @ hn))
                 else Inr []) = Inr x"
    by blast
  have "\<exists>first. (if truthy ?street
              then bindE (toStringE h ?street) (\<lambda>st.
                   bindE (if truthy ?number
                          then bindE (toStringE h ?number) (\<lambda>hn. Inr (ascii '', '' @ hn))
                          else Inr []) (\<lambda>hn. Inr (st @ hn)))
              else Inr []) = Inr first"
    unfolding x
    using toStringE_returns [OF conv [OF string_or_absent [OF assms]], of h "ascii ''addr:street''"]
    by (simp add: bindE_def)
  then obtain first where first: "(if truthy ?street
              then bindE (toStringE h ?street) (\<lambda>st.
                   bindE (if truthy ?number
                          then bindE (toStringE h ?number) (\<lambda>hn. Inr (ascii '', '' @ hn))
                          else Inr []) (\<lambda>hn. Inr (st @ hn)))
              else Inr []) = Inr first"
    by blast
  have "\<forall>v \<in> set (filter truthy [Some (JStr first), map_of ts (ascii ''addr:city''),
          map_of ts (ascii ''addr:state''), map_of ts (ascii ''addr:country'')]).
          v = None \<or> (\<exists>j. v = Some j \<and> convertible j)"
    using conv [OF string_or_absent [OF assms], of "ascii ''addr:city''"]
      conv [OF string_or_absent [OF assms], of "ascii ''addr:state''"]
      conv [OF string_or_absent [OF assms], of "ascii ''addr:country''"]
    by auto
  from mapE_toStringE [OF this, of h]
  have parts: "mapE (toStringE h) (filter truthy [Some (JStr first), map_of ts (ascii ''addr:city''),
          map_of ts (ascii ''addr:state''), map_of ts (ascii ''addr:country'')]) =
        Inr (map (toString h) (filter truthy [Some (JStr first), map_of ts (ascii ''addr:city''),
          map_of ts (ascii ''addr:state''), map_of ts (ascii ''addr:country'')]))" .
  show ?thesis
    by (simp only: buildAddress_def getProp_object bindE_Inr first parts) blast
qed

lemma elementShape_tags:
  assumes "elementShape (JObj props)"
  shows "\<exists>ts. (case map_of props (ascii ''tags'') of None \<Rightarrow> Some (JObj []) | Some v \<Rightarrow> Some v)
                = Some (JObj ts) \<and> list_all (\<lambda>(k, v). isString v) ts"
proof (cases "map_of props (ascii ''tags'')")
  case None
  then show ?thesis by (intro exI [of _ "[]"]) simp
next
  case (Some v)
  with assms obtain ts where v: "v = JObj ts"
    by (cases v) simp_all
  from assms Some have "list_all (\<lambda>(k, v). isString v) ts"
    unfolding v by simp
  with Some v show ?thesis by (intro exI [of _ ts]) simp
qed

lemma elementShape_center:
  assumes "elementShape (JObj props)" and "truthy (map_of props (ascii ''center''))"
  shows "\<exists>c. map_of props (ascii ''center'') = Some (JObj c) \<and>
           numberIfPresent c (ascii ''lat'') \<and> numberIfPresent c (ascii ''lon'')"
proof (cases "map_of props (ascii ''center'')")
  case None
  with assms(2) show ?thesis by simp
next
  case (Some v)
  with assms(1) obtain c where v: "v = JObj c"
    by (cases v) simp_all
  from assms(1) Some show ?thesis
    unfolding v by simp
qed

lemma number_converts:
  assumes "numberIfPresent props k"
  shows "toStringE h (map_of props k) = Inr (toString h (map_of props k))"
  using number_or_absent [OF assms] by (auto simp: toStringE_def)

lemma candidate_shape:
  assumes "elementShape e"
  shows "\<exists>c. candidate h e = Inr c \<and>
           (\<forall>p. c = Some p \<longrightarrow> (\<exists>n. placeName p = Some (JStr n) \<and> n \<noteq> []) \<and> placeCategory p \<noteq> [])"
proof -
  from assms obtain props where e: "e = JObj props"
    by (cases e) simp_all
  from elementShape_tags [OF assms [unfolded e]] obtain ts where
    tg: "(case map_of props (ascii ''tags'') of None \<Rightarrow> Some (JObj []) | Some v \<Rightarrow> Some v)
           = Some (JObj ts)"
    and strings: "list_all (\<lambda>(k, v). isString v) ts"
    by blast
  from string_or_absent [OF strings, of "ascii ''name''"]
  have nm: "map_of ts (ascii ''name'') = None \<or> (\<exists>n. map_of ts (ascii ''name'') = Some (JStr n))" .
  obtain cat where cat: "inferCategory h (Some (JObj ts)) = Inr cat" "cat \<noteq> []"
    using inferCategory_strings [OF strings] by blast
  obtain addr where addr: "buildAddress h (Some (JObj ts)) = Inr addr"
    using buildAddress_strings [OF strings] by blast
  let ?name = "orElse (map_of ts (ascii ''name'')) (Some (JStr unnamedPlace))"
  have name: "\<exists>n. ?name = Some (JStr n) \<and> n \<noteq> []"
    using nm by (auto simp: orElse_def unnamedPlace_def)
  then have n1: "toStringE h ?name = Inr (toString h ?name)"
    by (auto simp: toStringE_def)
  from assms have num: "numberIfPresent props (ascii ''lat'')" "numberIfPresent props (ascii ''lon'')"
    unfolding e by simp_all
  let ?center = "map_of props (ascii ''center'')"
  consider (node) "map_of props (ascii ''type'') = Some (JStr (ascii ''node''))"
    | (none) "map_of props (ascii ''type'') \<noteq> Some (JStr (ascii ''node''))" "\<not> truthy ?center"
    | (centre) "map_of props (ascii ''type'') \<noteq> Some (JStr (ascii ''node''))" "truthy ?center"
    by blast
  then show ?thesis
  proof cases
    case node
    have "candidate h e =
        Inr (Some \<lparr> placeId = map_of props (ascii ''id''), placeType = map_of props (ascii ''type''),
                    placeLat = map_of props (ascii ''lat''), placeLon = map_of props (ascii ''lon''),
                    placeName = ?name,
                    placeCategory = cat, placeAddress = addr, placeTags = Some (JObj ts) \<rparr>)"
      by (simp add: e candidate_def bindE_Inr tg Let_def node cat(1) addr n1
          number_converts [OF num(1)] number_converts [OF num(2)])
    with name cat(2) show ?thesis by auto
  next
    case none
    have "candidate h e = Inr None"
      by (simp add: e candidate_def bindE_Inr tg Let_def none)
    then show ?thesis by simp
  next
    case centre
    from elementShape_center [OF assms [unfolded e] centre(2)] obtain c where
      c: "?center = Some (JObj c)" "numberIfPresent c (ascii ''lat'')" "numberIfPresent c (ascii ''lon'')"
      by blast
    have "candidate h e =
        Inr (Some \<lparr> placeId = map_of props (ascii ''id''), placeType = map_of props (ascii ''type''),
                    placeLat = map_of c (ascii ''lat''), placeLon = map_of c (ascii ''lon''),
                    placeName = ?name,
                    placeCategory = cat, placeAddress = addr, placeTags = Some (JObj ts) \<rparr>)"
      by (simp add: e candidate_def bindE_Inr tg Let_def centre(1) c(1) cat(1) addr n1
          number_converts [OF c(2)] number_converts [OF c(3)])
    with name cat(2) show ?thesis by auto
  qed
qed

lemma mapElements_total:
  assumes "list_all elementShape es"
  shows "\<exists>ps. mapElements h seen es = Inr ps \<and>
           (\<forall>p \<in> set ps. (\<exists>n. placeName p = Some (JStr n) \<and> n \<noteq> []) \<and> placeCategory p \<noteq> [])"
  using assms
proof (induction es arbitrary: seen)
  case Nil
  then show ?case by simp
next
  case (Cons e es)
  from Cons.prems have sh: "elementShape e" and rest: "list_all elementShape es"
    by simp_all
  from candidate_shape [OF sh, of h] obtain c where c: "candidate h e = Inr c"
    and q: "\<forall>p. c = Some p \<longrightarrow> (\<exists>n. placeName p = Some (JStr n) \<and> n \<noteq> []) \<and> placeCategory p \<noteq> []"
    by blast
  show ?case
  proof (cases c)
    case None
    from Cons.IH [OF rest, of seen] show ?thesis
      by (simp add: c None bindE_def)
  next
    case (Some p0)
    show ?thesis
    proof (cases "placeKey h p0 \<in> set seen")
      case True
      from Cons.IH [OF rest, of seen] show ?thesis
        by (simp add: c Some True bindE_def)
    next
      case False
      from Cons.IH [OF rest, of "placeKey h p0 # seen"] obtain ps where
        ps: "mapElements h (placeKey h p0 # seen) es = Inr ps"
        "\<forall>p \<in> set ps. (\<exists>n. placeName p = Some (JStr n) \<and> n \<noteq> []) \<and> placeCategory p \<noteq> []"
        by blast
      have "mapElements h seen (e # es) = Inr (p0 # ps)"
        by (simp add: c Some False bindE_def ps(1))
      with ps(2) q Some show ?thesis by auto
    qed
  qed
qed

lemma compareNames_strings:
  assumes "\<exists>n. placeName a = Some (JStr n)" and "\<exists>n. placeName b = Some (JStr n)"
  shows "\<exists>v. compareNames h a b = Inr v"
  using assms by (auto simp: compareNames_def toStringE_def bindE_def)

lemma insertPivotE_total:
  assumes "\<forall>x \<in> set (p # es). \<exists>n. placeName x = Some (JStr n)"
  shows "\<exists>zs. insertPivotE (compareNames h) p es = Inr zs"
  using assms
proof (induction es)
  case Nil
  then show ?case by simp
next
  case (Cons e es)
  then obtain zs where zs: "insertPivotE (compareNames h) p es = Inr zs" by auto
  from Cons.prems obtain v where v: "compareNames h p e = Inr v"
    using compareNames_strings [of p e h] by auto
  show ?case
    by (simp add: v bindE_def zs)
qed

lemma sortFromE_total:
  assumes "\<forall>x \<in> set (placed @ ps). \<exists>n. placeName x = Some (JStr n)"
  shows "\<exists>ys. sortFromE (compareNames h) placed ps = Inr ys"
  using assms
proof (induction ps arbitrary: placed)
  case Nil
  then show ?case by simp
next
  case (Cons p ps)
  from Cons.prems have "\<forall>x \<in> set (p # placed). \<exists>n. placeName x = Some (JStr n)"
    by simp
  from insertPivotE_total [OF this, of h] obtain zs where
    zs: "insertPivotE (compareNames h) p placed = Inr zs"
    by blast
  from insertPivotE_perm [OF zs] Cons.prems
  have "\<forall>x \<in> set (zs @ ps). \<exists>n. placeName x = Some (JStr n)"
    by auto
  from Cons.IH [OF this] show ?case
    by (simp add: zs bindE_def)
qed

lemma jsSortE_total:
  assumes "\<forall>p \<in> set ps. \<exists>n. placeName p = Some (JStr n)"
  shows "\<exists>ys. jsSortE (compareNames h) ps = Inr ys"
  using sortFromE_total [of "[]" ps h] assms by (simp add: jsSortE_def)

lemma fetchPlaces_total:
  assumes "map_of kvs (ascii ''elements'') = Some (JArr es)" and "list_all elementShape es"
  shows "\<exists>ps. fetchPlaces h (JObj kvs) = Inr ps \<and>
           (\<forall>p \<in> set ps. (\<exists>n. placeName p = Some (JStr n) \<and> n \<noteq> []) \<and> placeCategory p \<noteq> [])"
proof -
  from mapElements_total [OF assms(2), of h "[]"] obtain ps where
    ps: "mapElements h [] es = Inr ps"
    "\<forall>p \<in> set ps. (\<exists>n. placeName p = Some (JStr n) \<and> n \<noteq> []) \<and> placeCategory p \<noteq> []"
    by blast
  from ps(2) have "\<forall>p \<in> set ps. \<exists>n. placeName p = Some (JStr n)" by blast
  from jsSortE_total [OF this, of h] obtain ys where ys: "jsSortE (compareNames h) ps = Inr ys"
    by blast
  from jsSortE_perm [OF ys] have "set ys = set ps" by simp
  moreover have "fetchPlaces h (JObj kvs) = Inr ys"
    by (simp add: fetchPlaces_def assms(1) bindE_def ps(1) ys)
  ultimately show ?thesis using ps(2) by simp
qed

lemma extractKeywords_falsy:
  assumes "getProp (Some data) (ascii ''keyword'') = Inr k" and "\<not> truthy k"
  shows "extractKeywords h data = Inr []"
  using assms
  by (simp add: extractKeywords_def keywordItems_def bindE_def orElse_def ownEntries_def
      jsSort_def)

lemma keywordOf_convertible:
  assumes "list_all (\<lambda>(k, v). convertible v) es"
  shows "mapE (keywordOf h) es =
     Inr (map (\<lambda>(l, w). \<lparr> label = l,
                          weight = (if toNumber h (Some w) = NaN then Fin 0
                                    else toNumber h (Some w)),
                          source = ascii ''Twinword'' \<rparr>) es)"
  using assms
proof (induction es)
  case Nil
  then show ?case by simp
next
  case (Cons e es)
  obtain l w where e: "e = (l, w)"
    by (cases e)
  from Cons.prems have c: "convertible w"
    unfolding e by simp
  then have "keywordOf h (l, w) =
     Inr \<lparr> label = l,
           weight = (if toNumber h (Some w) = NaN then Fin 0 else toNumber h (Some w)),
           source = ascii ''Twinword'' \<rparr>"
    by (simp add: keywordOf_def numberOrZero_def toNumberE_def bindE_def)
  with Cons show ?case
    unfolding e by (simp add: bindE_def)
qed

lemma ownEntries_all:
  "list_all P kvs \<Longrightarrow> list_all P (ownEntries kvs)"
  using ownEntries_order [of kvs] by (simp add: list_all_iff)

lemma extractKeywords_weights:
  assumes "getProp (Some data) (ascii ''keyword'') = Inr (Some (JObj kvs))"
    and "list_all (\<lambda>(k, v). convertible v) kvs"
  shows "extractKeywords h data =
     Inr (jsSort (\<lambda>a b. numSub (weight b) (weight a))
            (filter (\<lambda>item. label item \<noteq> [])
               (map (\<lambda>(l, w). \<lparr> label = l,
                                 weight = (if toNumber h (Some w) = NaN then Fin 0
                                           else toNumber h (Some w)),
                                 source = ascii ''Twinword'' \<rparr>) (ownEntries kvs))))"
  using keywordOf_convertible [OF ownEntries_all [OF assms(2)], of h] assms(1)
  by (simp add: extractKeywords_def keywordItems_def bindE_def orElse_def)

text \<open>
  Claim C4, as amended. On a payload of the expected shape the normalizers return, with
  placeholders where optional fields are missing. \<open>truncate\<close> gives the "no
  description" text for a missing, null or empty description and a string for every
  string. The Twinword \<open>extractKeywords\<close> returns no keywords for a body whose
  \<open>keyword\<close> is missing, null or otherwise falsy; for a body whose \<open>keyword\<close> is an
  object of weights that convert to a number (every number, string, boolean and
  \<open>null\<close> does, and every object without a \<open>toString\<close> member of its own) it returns
  one keyword for each name that is not empty, never with the weight NaN: the weight is
  \<open>Number(weight)\<close>, or zero where that is NaN, as for an object, and it is zero for
  \<open>null\<close>. \<open>fetchPlaces\<close> returns when \<open>elements\<close> is an array of objects whose
  \<open>tags\<close>, if present, is an object of strings, whose \<open>lat\<close> and \<open>lon\<close>, if present,
  are numbers, and whose \<open>center\<close>, if present, is an object whose \<open>lat\<close> and
  \<open>lon\<close>, if present, are numbers; every place then has a non-empty name and a
  non-empty category, and a node without tags gets the "untitled" name, the "object"
  category and the empty address.
\<close>

theorem normalizers_total_on_shape:
  "truncateText h None 200 = Inr (Some (JStr noDescription)) \<and>
   truncateText h (Some JNull) 200 = Inr (Some (JStr noDescription)) \<and>
   truncateText h (Some (JStr [])) 200 = Inr (Some (JStr noDescription)) \<and>
   (\<exists>v. truncateText h (Some (JStr t)) 200 = Inr (Some (JStr v))) \<and>
   (getProp (Some data) (ascii ''keyword'') = Inr k \<and> \<not> truthy k \<longrightarrow>
      extractKeywords h data = Inr []) \<and>
   (getProp (Some data) (ascii ''keyword'') = Inr (Some (JObj weights)) \<and>
    list_all (\<lambda>(k, v). convertible v) weights \<longrightarrow>
      (\<exists>ks. extractKeywords h data = Inr ks \<and>
         ks = jsSort (\<lambda>a b. numSub (weight b) (weight a))
                (filter (\<lambda>item. label item \<noteq> [])
                   (map (\<lambda>(l, w). \<lparr> label = l,
                                     weight = (if toNumber h (Some w) = NaN then Fin 0
                                               else toNumber h (Some w)),
                                     source = ascii ''Twinword'' \<rparr>) (ownEntries weights))) \<and>
         (\<forall>k \<in> set ks. weight k \<noteq> NaN \<and> label k \<noteq> [] \<and> source k = ascii ''Twinword''))) \<and>
   toNumber h (Some JNull) = Fin 0 \<and> toNumber h (Some (JObj props)) = NaN \<and>
   convertible JNull \<and> convertible (JNum n) \<and> convertible (JStr s) \<and> convertible (JBool b) \<and>
   convertible (JObj props) = (map_of props (ascii ''toString'') = None) \<and>
   (map_of kvs (ascii ''elements'') = Some (JArr es) \<and> list_all elementShape es \<longrightarrow>
      (\<exists>ps. fetchPlaces h (JObj kvs) = Inr ps \<and>
         (\<forall>p \<in> set ps. (\<exists>n. placeName p = Some (JStr n) \<and> n \<noteq> []) \<and> placeCategory p \<noteq> []))) \<and>
   candidate h (JObj [(ascii ''type'', JStr (ascii ''node'')), (ascii ''id'', JNum i),
                      (ascii ''lat'', JNum lat), (ascii ''lon'', JNum lon)]) =
     Inr (Some \<lparr> placeId = Some (JNum i), placeType = Some (JStr (ascii ''node'')),
                 placeLat = Some (JNum lat), placeLon = Some (JNum lon),
                 placeName = Some (JStr unnamedPlace),
                 placeCategory = catObject, placeAddress = [], placeTags = Some (JObj []) \<rparr>)"
proof -
  have 1: "truncateText h None 200 = Inr (Some (JStr noDescription))"
    and 2: "truncateText h (Some JNull) 200 = Inr (Some (JStr noDescription))"
    and 3: "truncateText h (Some (JStr [])) 200 = Inr (Some (JStr noDescription))"
    by (simp_all add: truncateText_def)
  have 4: "\<exists>v. truncateText h (Some (JStr t)) 200 = Inr (Some (JStr v))"
    by (simp add: truncateText_def bindE_def toNumberE_def toNumber_def slice0_def)
  have 5: "getProp (Some data) (ascii ''keyword'') = Inr k \<and> \<not> truthy k \<longrightarrow>
      extractKeywords h data = Inr []"
    using extractKeywords_falsy by blast
  have 6: "\<exists>ks. extractKeywords h data = Inr ks \<and>
         ks = jsSort (\<lambda>a b. numSub (weight b) (weight a))
                (filter (\<lambda>item. label item \<noteq> [])
                   (map (\<lambda>(l, w). \<lparr> label = l,
                                     weight = (if toNumber h (Some w) = NaN then Fin 0
                                               else toNumber h (Some w)),
                                     source = ascii ''Twinword'' \<rparr>) (ownEntries weights))) \<and>
         (\<forall>k \<in> set ks. weight k \<noteq> NaN \<and> label k \<noteq> [] \<and> source k = ascii ''Twinword'')"
    if "getProp (Some data) (ascii ''keyword'') = Inr (Some (JObj weights))"
      and "list_all (\<lambda>(k, v). convertible v) weights"
    unfolding extractKeywords_weights [OF that] by (auto split: if_splits)
  have 7: "toNumber h (Some JNull) = Fin 0" and 8: "toNumber h (Some (JObj props)) = NaN"
    by (simp_all add: toNumber_def)
  have 9: "convertible JNull" "convertible (JNum n)" "convertible (JStr s)" "convertible (JBool b)"
    "convertible (JObj props) = (map_of props (ascii ''toString'') = None)"
    by simp_all
  have 10: "map_of kvs (ascii ''elements'') = Some (JArr es) \<and> list_all elementShape es \<longrightarrow>
      (\<exists>ps. fetchPlaces h (JObj kvs) = Inr ps \<and>
         (\<forall>p \<in> set ps. (\<exists>n. placeName p = Some (JStr n) \<and> n \<noteq> []) \<and> placeCategory p \<noteq> []))"
    using fetchPlaces_total by blast
  have 11: "candidate h (JObj [(ascii ''type'', JStr (ascii ''node'')), (ascii ''id'', JNum i),
                      (ascii ''lat'', JNum lat), (ascii ''lon'', JNum lon)]) =
     Inr (Some \<lparr> placeId = Some (JNum i), placeType = Some (JStr (ascii ''node'')),
                 placeLat = Some (JNum lat), placeLon = Some (JNum lon),
                 placeName = Some (JStr unnamedPlace),
                 placeCategory = catObject, placeAddress = [], placeTags = Some (JObj []) \<rparr>)"
    by (simp add: candidate_def bindE_def inferCategory_def buildAddress_def toStringE_def
        orElse_def Let_def ascii_def)
  from 6 have 6: "getProp (Some data) (ascii ''keyword'') = Inr (Some (JObj weights)) \<and>
    list_all (\<lambda>(k, v). convertible v) weights \<longrightarrow>
      (\<exists>ks. extractKeywords h data = Inr ks \<and>
         ks = jsSort (\<lambda>a b. numSub (weight b) (weight a))
                (filter (\<lambda>item. label item \<noteq> [])
                   (map (\<lambda>(l, w). \<lparr> label = l,
                                     weight = (if toNumber h (Some w) = NaN then Fin 0
                                               else toNumber h (Some w)),
                                     source = ascii ''Twinword'' \<rparr>) (ownEntries weights))) \<and>
         (\<forall>k \<in> set ks. weight k \<noteq> NaN \<and> label k \<noteq> [] \<and> source k = ascii ''Twinword''))"
    by blast
  show ?thesis by (intro conjI 1 2 3 4 5 6 7 8 9 10 11)
qed

theorem normalizers_total_on_shape_witness:
  "getProp (Some (JObj [])) (ascii ''keyword'') = Inr None \<and> \<not> truthy None \<and>
   extractKeywords sampleHost (JObj []) = Inr [] \<and>
   extractKeywords sampleHost sampleKeywords =
     Inr [twinword ''b'' 3, twinword ''c'' 3, twinword ''a'' 1, twinword ''<e>'' 1,
          twinword ''d'' 0] \<and>
   list_all elementShape [museumNode 1 (111 / 2), museumNode 2 (55500001 / 1000000)] \<and>
   (\<exists>ps. fetchPlaces sampleHost twoMuseums = Inr ps \<and>
      (\<forall>p \<in> set ps. (\<exists>n. placeName p = Some (JStr n) \<and> n \<noteq> []) \<and> placeCategory p \<noteq> []))"
proof -
  let ?weights = "[(ascii ''a'', JNum (Fin 1)), (ascii ''b'', JNum (Fin 3)),
                   (ascii ''c'', JStr (ascii ''3'')), (ascii ''d'', JNull),
                   (ascii ''<e>'', JNum (Fin 1))]"
  let ?nodes = "[museumNode 1 (111 / 2), museumNode 2 (55500001 / 1000000)]"
  have g0: "getProp (Some (JObj [])) (ascii ''keyword'') = Inr None \<and> \<not> truthy None"
    by simp
  have g1: "getProp (Some sampleKeywords) (ascii ''keyword'') = Inr (Some (JObj ?weights))"
    by (simp add: sampleKeywords_def)
  have c1: "list_all (\<lambda>(k, v). convertible v) ?weights"
    by simp
  have e: "list_all elementShape ?nodes"
    by (simp add: museumNode_def numberIfPresent_def ascii_def)
  have m: "map_of [(ascii ''elements'', JArr ?nodes)] (ascii ''elements'') = Some (JArr ?nodes)"
    by simp
  note w1 = normalizers_total_on_shape [of sampleHost "[]" "JObj []" None "[]" "[]" NaN "[]" True
      "[(ascii ''elements'', JArr ?nodes)]" ?nodes NaN NaN NaN]
  note w2 = normalizers_total_on_shape [of sampleHost "[]" sampleKeywords None ?weights "[]" NaN "[]"
      True "[]" "[]" NaN NaN NaN]
  from w1 g0 have k0: "extractKeywords sampleHost (JObj []) = Inr []"
    by blast
  from w1 e m have p: "\<exists>ps. fetchPlaces sampleHost twoMuseums = Inr ps \<and>
      (\<forall>p \<in> set ps. (\<exists>n. placeName p = Some (JStr n) \<and> n \<noteq> []) \<and> placeCategory p \<noteq> [])"
    unfolding twoMuseums_def by blast
  from w2 g1 c1 have "extractKeywords sampleHost sampleKeywords =
     Inr (jsSort (\<lambda>a b. numSub (weight b) (weight a))
            (filter (\<lambda>item. label item \<noteq> [])
               (map (\<lambda>(l, w). \<lparr> label = l,
                                 weight = (if toNumber sampleHost (Some w) = NaN then Fin 0
                                           else toNumber sampleHost (Some w)),
                                 source = ascii ''Twinword'' \<rparr>) (ownEntries ?weights))))"
    by blast
  then have k1: "extractKeywords sampleHost sampleKeywords =
     Inr [twinword ''b'' 3, twinword ''c'' 3, twinword ''a'' 1, twinword ''<e>'' 1,
          twinword ''d'' 0]"
    by (simp add: jsSort_def toNumber_def sampleHost_def sampleStringToNumber_def twinword_def
        ownEntries_def isArrayIndex_def text_eval)
  from g0 k0 k1 e p show ?thesis
    by (intro conjI) simp_all
qed

text \<open>
  Stated for every payload the claim fails: a body without \<open>elements\<close>, an element
  whose \<open>tags\<close> is \<open>null\<close>, a description that is a number, and the body
  \<open>null\<close> each end in a TypeError.
\<close>

theorem normalizers_total_counterexample:
  "fetchPlaces sampleHost (JObj []) = Inl TypeError \<and>
   fetchPlaces sampleHost
     (JObj [(ascii ''elements'',
             JArr [JObj [(ascii ''type'', JStr (ascii ''node'')), (ascii ''tags'', JNull)]])]) =
     Inl TypeError \<and>
   truncateText sampleHost (Some (JNum (Fin 5))) 200 = Inl TypeError \<and>
   extractKeywords sampleHost JNull = Inl TypeError"
  by (simp add: fetchPlaces_def candidate_def truncateText_def extractKeywords_def
      keywordItems_def bindE_def toNumberE_def toNumber_def ascii_def)

subsection \<open>Validation before any request\<close>

text \<open>
  Claim C5. When the required query field is empty (or holds white space only), the
  submit handler issues no network call and writes a validation message to the status
  line, and changes nothing else: the search query of the NASA lab, the address of the
  places lab (the message in the "error" tone), and the API key and the city of the
  weather lab (the message in the colour of errors).
\<close>

theorem empty_query_no_request:
  "(trim (searchInput form) = [] \<longrightarrow>
      handleSubmit h form s = s\<lparr> statusText := msgEnterQuery \<rparr> \<and>
      statusText (handleSubmit h form s) = msgEnterQuery \<and>
      calls (handleSubmit h form s) = calls s) \<and>
   (trim (queryField gform) = [] \<longrightarrow>
      submitPlaces h gform g =
        g\<lparr> geoStatusText := msgEnterAddress, geoStatusTone := ascii ''error'' \<rparr> \<and>
      geoStatusText (submitPlaces h gform g) = msgEnterAddress \<and>
      geoRequests (submitPlaces h gform g) = geoRequests g) \<and>
   (trim (apiKeyInput w) = [] \<or> trim (cityInput w) = [] \<longrightarrow>
      handleSubmitWeather h w =
        w\<lparr> weatherStatus := msgEnterKeyAndCity, weatherStatusColor := ascii ''#dc2626'' \<rparr> \<and>
      weatherStatus (handleSubmitWeather h w) = msgEnterKeyAndCity \<and>
      weatherRequests (handleSubmitWeather h w) = weatherRequests w) \<and>
   msgEnterQuery \<noteq> [] \<and> msgEnterAddress \<noteq> [] \<and> msgEnterKeyAndCity \<noteq> []"
  by (simp add: handleSubmit_def submitPlaces_def handleSubmitWeather_def status_def
      renderStatus_def msgEnterQuery_def msgEnterAddress_def msgEnterKeyAndCity_def)

theorem empty_query_no_request_witness:
  "trim (searchInput blankForm) = [] \<and>
   statusText (handleSubmit sampleHost blankForm (initialPage [])) = msgEnterQuery \<and>
   calls (handleSubmit sampleHost blankForm (initialPage [])) = [] \<and>
   geoStatusText (submitPlaces sampleHost \<lparr> queryField = [], radiusField = ascii ''500'' \<rparr>
                    freshGeoPage) = msgEnterAddress \<and>
   geoStatusTone (submitPlaces sampleHost \<lparr> queryField = [], radiusField = ascii ''500'' \<rparr>
                    freshGeoPage) = ascii ''error'' \<and>
   geoRequests (submitPlaces sampleHost \<lparr> queryField = [], radiusField = ascii ''500'' \<rparr>
                  freshGeoPage) = [] \<and>
   weatherStatus (handleSubmitWeather sampleHost freshWeatherPage) = msgEnterKeyAndCity \<and>
   weatherStatusColor (handleSubmitWeather sampleHost freshWeatherPage) = ascii ''#dc2626'' \<and>
   weatherRequests (handleSubmitWeather sampleHost freshWeatherPage) = []"
proof -
  have t: "trim (searchInput blankForm) = []" "trim [] = []"
    by (simp_all add: blankForm_def text_eval)
  have a: "trim (apiKeyInput freshWeatherPage) = []"
    by (simp add: freshWeatherPage_def text_eval)
  show ?thesis
    using t a empty_query_no_request [of blankForm sampleHost "initialPage []"
        "\<lparr> queryField = [], radiusField = ascii ''500'' \<rparr>" freshGeoPage freshWeatherPage]
    by (simp add: initialPage_def freshGeoPage_def freshWeatherPage_def)
qed

text \<open>The year filter and the query string of the NASA lab.\<close>

lemma yearFilter_1850: "yearFilter (trim (ascii ''1850'')) = None"
  by (simp add: text_eval)

lemma yearFilter_2020: "yearFilter (trim (ascii ''2020'')) = Some (ascii ''2020'')"
  by (simp add: text_eval)

lemma queryParams_year:
  "year \<noteq> [] \<Longrightarrow> queryParams query mediaType year =
     [(ascii ''q'', query), (ascii ''page'', ascii ''1''),
      (ascii ''media_type'', if mediaType = ascii ''all'' then ascii ''image,video'' else mediaType),
      (ascii ''year_start'', year), (ascii ''year_end'', year)]"
  by (simp add: queryParams_def Let_def ascii_def)

text \<open>
  Claim C6. With a query typed in, the year "1850" is refused: the status line gets the
  message about the range 1920 to 2100 and no call is added. The year "2020" passes: the
  call that is issued carries it as both \<open>year_start\<close> and \<open>year_end\<close> of its query
  string.
\<close>

theorem year_filter_example:
  assumes "trim q \<noteq> []"
  shows "handleSubmit h \<lparr> searchInput = q, mediaTypeSelect = m, yearInput = ascii ''1850'' \<rparr> s =
           s\<lparr> statusText := msgEnterYear, yearFocused := True \<rparr> \<and>
         calls (handleSubmit h \<lparr> searchInput = q, mediaTypeSelect = m, yearInput = ascii ''1850'' \<rparr> s) = calls s \<and>
         calls (handleSubmit h \<lparr> searchInput = q, mediaTypeSelect = m, yearInput = ascii ''2020'' \<rparr> s) =
           calls (case activeController s of Some c \<Rightarrow> abort c s | None \<Rightarrow> s) @
           [\<lparr> callUrl = buildQuery h (trim q) m (ascii ''2020''), aborted = False,
              callPhase = AwaitingResponse \<rparr>] \<and>
         queryParams (trim q) m (ascii ''2020'') =
           [(ascii ''q'', trim q), (ascii ''page'', ascii ''1''),
            (ascii ''media_type'', if m = ascii ''all'' then ascii ''image,video'' else m),
            (ascii ''year_start'', ascii ''2020''), (ascii ''year_end'', ascii ''2020'')] \<and>
         buildQuery h (trim q) m (ascii ''2020'') =
           API_ENDPOINT @ ascii ''?'' @
           joinWith (ascii ''&'')
             [urlEncode h (ascii ''q'') @ ascii ''='' @ urlEncode h (trim q),
              urlEncode h (ascii ''page'') @ ascii ''='' @ urlEncode h (ascii ''1''),
              urlEncode h (ascii ''media_type'') @ ascii ''='' @
                urlEncode h (if m = ascii ''all'' then ascii ''image,video'' else m),
              urlEncode h (ascii ''year_start'') @ ascii ''='' @ urlEncode h (ascii ''2020''),
              urlEncode h (ascii ''year_end'') @ ascii ''='' @ urlEncode h (ascii ''2020'')]"
proof -
  have ne: "ascii ''2020'' \<noteq> []" by (simp add: ascii_def)
  have p: "queryParams (trim q) m (ascii ''2020'') =
           [(ascii ''q'', trim q), (ascii ''page'', ascii ''1''),
            (ascii ''media_type'', if m = ascii ''all'' then ascii ''image,video'' else m),
            (ascii ''year_start'', ascii ''2020''), (ascii ''year_end'', ascii ''2020'')]"
    by (rule queryParams_year [OF ne])
  have r: "handleSubmit h \<lparr> searchInput = q, mediaTypeSelect = m, yearInput = ascii ''1850'' \<rparr> s =
           s\<lparr> statusText := msgEnterYear, yearFocused := True \<rparr>"
    using assms by (simp add: handleSubmit_def yearFilter_1850)
  have c: "calls (handleSubmit h \<lparr> searchInput = q, mediaTypeSelect = m, yearInput = ascii ''2020'' \<rparr> s) =
           calls (case activeController s of Some c \<Rightarrow> abort c s | None \<Rightarrow> s) @
           [\<lparr> callUrl = buildQuery h (trim q) m (ascii ''2020''), aborted = False,
              callPhase = AwaitingResponse \<rparr>]"
    using assms by (simp add: handleSubmit_def yearFilter_2020 Let_def)
  have b: "buildQuery h (trim q) m (ascii ''2020'') =
           API_ENDPOINT @ ascii ''?'' @
           joinWith (ascii ''&'')
             [urlEncode h (ascii ''q'') @ ascii ''='' @ urlEncode h (trim q),
              urlEncode h (ascii ''page'') @ ascii ''='' @ urlEncode h (ascii ''1''),
              urlEncode h (ascii ''media_type'') @ ascii ''='' @
                urlEncode h (if m = ascii ''all'' then ascii ''image,video'' else m),
              urlEncode h (ascii ''year_start'') @ ascii ''='' @ urlEncode h (ascii ''2020''),
              urlEncode h (ascii ''year_end'') @ ascii ''='' @ urlEncode h (ascii ''2020'')]"
    unfolding buildQuery_def paramsToString_def p by simp
  from r have r': "calls (handleSubmit h \<lparr> searchInput = q, mediaTypeSelect = m, yearInput = ascii ''1850'' \<rparr> s) = calls s"
    by simp
  show ?thesis by (intro conjI r r' c p b)
qed


theorem year_filter_example_witness:
  "trim (ascii ''moon'') \<noteq> [] \<and>
   statusText (handleSubmit sampleHost
       \<lparr> searchInput = ascii ''moon'', mediaTypeSelect = ascii ''all'', yearInput = ascii ''1850'' \<rparr>
       (initialPage [])) = msgEnterYear \<and>
   queryParams (trim (ascii ''moon'')) (ascii ''all'') (ascii ''2020'') =
     [(ascii ''q'', ascii ''moon''), (ascii ''page'', ascii ''1''),
      (ascii ''media_type'', ascii ''image,video''),
      (ascii ''year_start'', ascii ''2020''), (ascii ''year_end'', ascii ''2020'')]"
proof -
  have t: "trim (ascii ''moon'') = ascii ''moon''"
    by (simp add: text_eval)
  have n: "trim (ascii ''moon'') \<noteq> []"
    by (simp add: text_eval)
  show ?thesis
    using t n year_filter_example [OF n, of sampleHost "ascii ''all''" "initialPage []"]
    by simp
qed

subsection \<open>The preferences of the weather lab\<close>

lemma storage_keys_distinct:
  "ascii ''ow_apiKey'' \<noteq> ascii ''ow_city''" "ascii ''ow_apiKey'' \<noteq> ascii ''ow_metric''"
  "ascii ''ow_city'' \<noteq> ascii ''ow_metric''"
  by (simp_all add: ascii_def)

lemma persistPreferences_items:
  "\<not> storageDenied s \<Longrightarrow>
   persistPreferences apiKey city s =
     s\<lparr> storageItems := (storageItems s)(ascii ''ow_apiKey'' \<mapsto> apiKey,
            ascii ''ow_city'' \<mapsto> city, ascii ''ow_metric'' \<mapsto> metricSelect s) \<rparr>"
  by (simp add: persistPreferences_def setItem_def bindE_def)

lemma restorePreferences_fields:
  assumes "\<not> storageDenied p"
    and "storageItems p (ascii ''ow_apiKey'') = Some k" "k \<noteq> []"
    and "storageItems p (ascii ''ow_city'') = Some c" "c \<noteq> []"
    and "storageItems p (ascii ''ow_metric'') = Some m" "m \<in> set metricKeys"
    and "m \<in> set (metricOptions p)"
  shows "apiKeyInput (restorePreferences p) = k \<and> cityInput (restorePreferences p) = c \<and>
         metricSelect (restorePreferences p) = m"
proof -
  have "m \<noteq> []" using assms(7) by (auto simp: metricKeys_def ascii_def)
  then show ?thesis
    using assms
    by (simp add: restorePreferences_def getItem_def bindE_def metricConfigTruthy_def
        setMetricSelect_def)
qed

text \<open>
  Claim C7. After a successful submission (the request was sent for the trimmed API key
  and city, and the body that came back has an array \<open>list\<close>) with one of the four
  metrics selected, the store holds the API key, the city and the metric, and the next
  page load over that store puts exactly these three values into the form fields.
\<close>

theorem preferences_round_trip:
  assumes sent: "weatherRequests (handleSubmitWeather h s0) =
                   weatherRequests s0 @ [forecastUrl h (trim (cityInput s0)) (trim (apiKeyInput s0))]"
    and ok: "forecastArrived (trim (apiKeyInput s0)) (trim (cityInput s0)) data s = Inr s'"
    and store: "\<not> storageDenied s"
    and metric: "metricSelect s \<in> set metricKeys"
    and reload: "storageItems p = storageItems s'" "\<not> storageDenied p"
                "metricSelect s \<in> set (metricOptions p)"
  shows "storageItems s' (ascii ''ow_apiKey'') = Some (trim (apiKeyInput s0)) \<and>
         storageItems s' (ascii ''ow_city'') = Some (trim (cityInput s0)) \<and>
         storageItems s' (ascii ''ow_metric'') = Some (metricSelect s) \<and>
         apiKeyInput (pageLoad p) = trim (apiKeyInput s0) \<and>
         cityInput (pageLoad p) = trim (cityInput s0) \<and>
         metricSelect (pageLoad p) = metricSelect s"
proof -
  let ?k = "trim (apiKeyInput s0)" and ?c = "trim (cityInput s0)"
  have ne: "?k \<noteq> [] \<and> ?c \<noteq> []"
  proof (rule ccontr)
    assume "\<not> (?k \<noteq> [] \<and> ?c \<noteq> [])"
    then have "weatherRequests (handleSubmitWeather h s0) = weatherRequests s0"
      by (auto simp: handleSubmitWeather_def renderStatus_def)
    with sent show False by simp
  qed
  obtain entries where s': "s' = persistPreferences ?k ?c (s\<lparr> lastForecast := entries \<rparr>)"
    using ok by (auto simp: forecastArrived_def bindE_def split: sum.splits option.splits json.splits)
  have items: "storageItems s' = (storageItems s)(ascii ''ow_apiKey'' \<mapsto> ?k,
            ascii ''ow_city'' \<mapsto> ?c, ascii ''ow_metric'' \<mapsto> metricSelect s)"
    unfolding s' using store by (simp add: persistPreferences_items)
  have 1: "storageItems s' (ascii ''ow_apiKey'') = Some ?k"
    and 2: "storageItems s' (ascii ''ow_city'') = Some ?c"
    and 3: "storageItems s' (ascii ''ow_metric'') = Some (metricSelect s)"
    unfolding items using storage_keys_distinct by simp_all
  have r: "apiKeyInput (restorePreferences p) = ?k \<and> cityInput (restorePreferences p) = ?c \<and>
         metricSelect (restorePreferences p) = metricSelect s"
    using reload ne metric 1 2 3 by (intro restorePreferences_fields) simp_all
  with 1 2 3 show ?thesis by (simp add: pageLoad_def)
qed

theorem preferences_round_trip_witness:
  "storageItems afterForecast (ascii ''ow_city'') = Some (ascii ''Kazan'') \<and>
   apiKeyInput (pageLoad reloadedPage) = ascii ''k1'' \<and>
   cityInput (pageLoad reloadedPage) = ascii ''Kazan'' \<and>
   metricSelect (pageLoad reloadedPage) = ascii ''temp_max''"
proof -
  let ?s = "handleSubmitWeather sampleHost weatherSubmission"
  have k: "trim (apiKeyInput weatherSubmission) = ascii ''k1''"
    and c: "trim (cityInput weatherSubmission) = ascii ''Kazan''"
    by (simp_all add: weatherSubmission_def freshWeatherPage_def text_eval)
  have ne: "ascii ''k1'' \<noteq> []" "ascii ''Kazan'' \<noteq> []"
    by (simp_all add: ascii_def)
  have sent: "weatherRequests ?s = weatherRequests weatherSubmission @
      [forecastUrl sampleHost (trim (cityInput weatherSubmission)) (trim (apiKeyInput weatherSubmission))]"
    unfolding handleSubmitWeather_def k c using ne
    by (simp add: Let_def renderStatus_def toggleForm_def)
  have m: "metricSelect ?s = ascii ''temp_max''" and d: "\<not> storageDenied ?s"
    unfolding handleSubmitWeather_def k c using ne
    by (simp_all add: Let_def renderStatus_def toggleForm_def weatherSubmission_def
        freshWeatherPage_def)
  have ok: "forecastArrived (trim (apiKeyInput weatherSubmission))
      (trim (cityInput weatherSubmission)) forecastBody ?s = Inr afterForecast"
    unfolding k c by (simp add: forecastArrived_def forecastBody_def bindE_def afterForecast_def)
  have mk: "metricSelect ?s \<in> set metricKeys"
    unfolding m by (simp add: metricKeys_def)
  have r: "storageItems reloadedPage = storageItems afterForecast" "\<not> storageDenied reloadedPage"
    "metricSelect ?s \<in> set (metricOptions reloadedPage)"
    unfolding m by (simp_all add: reloadedPage_def freshWeatherPage_def metricKeys_def)
  from preferences_round_trip [OF sent ok d mk r] show ?thesis
    by (simp add: k c m)
qed

subsection \<open>Escaping\<close>

lemma escapeHtmlE_returns:
  "nullish v (Some (JStr [])) = Some j \<Longrightarrow> convertible j \<Longrightarrow>
   escapeHtmlE h v = Inr (escapeHtml h v)"
  by (simp add: escapeHtmlE_def escapeHtml_def toStringE_def bindE_def)

lemma escapeHtmlE_throws:
  "nullish v (Some (JStr [])) = Some j \<Longrightarrow> \<not> convertible j \<Longrightarrow>
   escapeHtmlE h v = Inl TypeError"
  by (simp add: escapeHtmlE_def toStringE_def bindE_def)








end
